(* ===== verification/Prelude.thy ===== *)
theory Prelude
  imports Complex_Main "HOL-Library.Char_ord" "HOL-Library.List_Lexorder"
begin

text \<open>
  Shared vocabulary of the development of \<open>src/app.py\<close>.
  \<^item> Python's \<open>str\<close> is modelled as \<^typ>\<open>string\<close>: a character is one of the first 256
    Unicode code points (Latin-1), which is where every character class the program tests
    (\<open>\d\<close>, \<open>str.isdigit\<close>, \<open>str.isspace\<close>) can be decided exactly.
  \<^item> An exception that the code does not catch is a value of \<open>py_exc\<close>, returned on the left
    of the sum \<open>'a py_result\<close>.
  \<^item> \<open>first_index\<close> is the position of the first element satisfying a test (pandas'
    \<open>s[s == v].index[0]\<close> on a freshly re-indexed series), and the lemmas below relate it to
    a sorted list: the basis of the rank computation.
\<close>

named_theorems py_simps "evaluation rules of the modelled Python built-ins"

datatype py_exc = KeyError | IndexError | TypeError | ValueError | AttributeError
  | FileNotFoundError | ParserError | EmptyDataError

type_synonym 'a py_result = "py_exc + 'a"

fun first_index :: "('a \<Rightarrow> bool) \<Rightarrow> 'a list \<Rightarrow> nat option" where
  "first_index P [] = None"
| "first_index P (x # xs) = (if P x then Some 0 else map_option Suc (first_index P xs))"

text \<open>Substring test, executable: \<open>has_sub p s\<close> is Python's \<open>p in s\<close>.\<close>

fun has_sub :: "'a list \<Rightarrow> 'a list \<Rightarrow> bool" where
  "has_sub p [] = (p = [])"
| "has_sub p (c # cs) = (take (length p) (c # cs) = p \<or> has_sub p cs)"

subsection \<open>Lemmas on \<open>first_index\<close>\<close>

lemma first_index_None_iff [simp]:
  "first_index P xs = None \<longleftrightarrow> (\<forall>x \<in> set xs. \<not> P x)"
  by (induction xs) auto

lemma first_index_False [simp]: "first_index (\<lambda>_. False) xs = None"
  by simp

lemma first_index_Some_iff:
  "first_index P xs = Some i \<longleftrightarrow> i < length xs \<and> P (xs ! i) \<and> (\<forall>j < i. \<not> P (xs ! j))"
proof (induction xs arbitrary: i)
  case Nil
  then show ?case by simp
next
  case (Cons x xs)
  show ?case
  proof (cases i)
    case 0
    then show ?thesis by auto
  next
    case (Suc k)
    have "(\<forall>j < Suc k. \<not> P ((x # xs) ! j)) \<longleftrightarrow> \<not> P x \<and> (\<forall>j < k. \<not> P (xs ! j))"
      by (auto simp: less_Suc_eq_0_disj)
    with Cons.IH [of k] Suc show ?thesis by auto
  qed
qed

lemma first_index_lt:
  "first_index P xs = Some i \<Longrightarrow> i < length xs"
  by (simp add: first_index_Some_iff)

text \<open>
  In a list sorted in descending order of a key, the first element whose key is \<open>k\<close> sits
  after exactly the elements whose key is greater than \<open>k\<close>.
\<close>

lemma first_index_sorted_desc:
  fixes f :: "'a \<Rightarrow> 'b::linorder"
  assumes "sorted_wrt (\<lambda>a b. f b \<le> f a) ys" and "k \<in> f ` set ys"
  shows "first_index (\<lambda>y. f y = k) ys = Some (length (filter (\<lambda>y. k < f y) ys))"
  using assms
proof (induction ys)
  case Nil
  then show ?case by simp
next
  case (Cons y ys)
  show ?case
  proof (cases "f y = k")
    case True
    from Cons.prems(1) have "\<forall>z \<in> set ys. f z \<le> f y" by simp
    with True have "\<forall>z \<in> set ys. \<not> k < f z" by (auto simp: not_less)
    with True show ?thesis by (simp add: filter_empty_conv)
  next
    case False
    with Cons.prems(2) have k: "k \<in> f ` set ys" by auto
    with Cons.prems(1) have "k \<le> f y" by auto
    with False have "k < f y" by simp
    with Cons.IH k Cons.prems(1) False show ?thesis by simp
  qed
qed

lemma sorted_wrt_rev_sort_key:
  "sorted_wrt (\<lambda>a b. f b \<le> f a) (rev (sort_key f xs))"
proof -
  have "sorted (map f (sort_key f xs))" by (rule sorted_sort_key)
  then have "sorted_wrt (\<lambda>a b. f a \<le> f b) (sort_key f xs)"
    by (simp add: sorted_map)
  then show ?thesis by (simp add: sorted_wrt_rev)
qed

lemma length_filter_sort_key:
  "length (filter P (sort_key f xs)) = length (filter P xs)"
  by (simp add: filter_sort)

text \<open>The rank lemma used by the query: position of the first equal key after a descending sort.\<close>

lemma first_index_rev_sort_key:
  fixes f :: "'a \<Rightarrow> 'b::linorder"
  assumes "k \<in> f ` set xs"
  shows "first_index (\<lambda>y. f y = k) (rev (sort_key f xs)) = Some (length (filter (\<lambda>y. k < f y) xs))"
proof -
  have "k \<in> f ` set (rev (sort_key f xs))" using assms by simp
  with sorted_wrt_rev_sort_key
  have "first_index (\<lambda>y. f y = k) (rev (sort_key f xs))
        = Some (length (filter (\<lambda>y. k < f y) (rev (sort_key f xs))))"
    by (rule first_index_sorted_desc)
  also have "length (filter (\<lambda>y. k < f y) (rev (sort_key f xs))) = length (filter (\<lambda>y. k < f y) xs)"
    by (simp add: rev_filter [symmetric] length_filter_sort_key)
  finally show ?thesis .
qed

subsection \<open>Lemmas on lists\<close>

lemma replicate_numeral [simp]: "replicate (numeral k) x = x # replicate (pred_numeral k) x"
  by (simp add: numeral_eq_Suc)

lemma list_all_replicate [simp]: "list_all P (replicate n x) \<longleftrightarrow> n = 0 \<or> P x"
  by (induction n) auto

lemma last_dropWhile_ne: "dropWhile P xs \<noteq> [] \<Longrightarrow> last (dropWhile P xs) = last xs"
  by (induction xs) auto

subsection \<open>Lemmas on \<open>has_sub\<close>\<close>

lemma has_sub_iff: "has_sub p s \<longleftrightarrow> (\<exists>u v. s = u @ p @ v)"
proof (induction s)
  case Nil
  then show ?case by simp
next
  case (Cons c cs)
  have "take (length p) (c # cs) = p \<longleftrightarrow> (\<exists>v. c # cs = p @ v)"
    by (metis append_eq_conv_conj)
  moreover have "(\<exists>u v. c # cs = u @ p @ v) \<longleftrightarrow> (\<exists>v. c # cs = p @ v) \<or> (\<exists>u v. cs = u @ p @ v)"
    by (auto simp: Cons_eq_append_conv)
  ultimately show ?case using Cons.IH by simp
qed

end
