(* ===== verification/Csv.thy ===== *)
theory Csv
  imports Prelude
begin

text \<open>
  CSV text as \<open>DataFrame.to_csv\<close> writes it and \<open>pd.read_csv\<close> reads it, with the
  defaults \<open>src/app.py\<close> uses (delimiter \<open>,\<close>, quote character \<open>"\<close> doubled inside a
  quoted field, no escape character, no comments, blank lines skipped). The writer is
  Python's \<open>csv\<close> module with \<open>QUOTE_MINIMAL\<close> (lines 41): a field is quoted when it holds
  the delimiter, the quote or a line break, and a record made of one empty field is written
  as \<open>""\<close>; records end with \<open>\n\<close>. The reader is the state machine of pandas' C tokenizer
  (\<open>tokenizer.c\<close>, lines 37 and 51): \<open>tok_state\<close> names its states, \<open>tok_step\<close> is its
  transition on one character, \<open>tok_finish\<close> its end-of-data handling (a quoted field left
  open is the \<open>ParserError\<close> "EOF inside string"). A carriage return ends the record at
  once here; the tokenizer ends it at the next character, with the same records.
\<close>

subsection \<open>Writer\<close>

definition csv_special :: "char \<Rightarrow> bool" where
  "csv_special c \<longleftrightarrow> c = CHR '','' \<or> c = CHR 0x22 \<or> c = CHR 0x0A \<or> c = CHR 0x0D"

definition csv_quote :: "string \<Rightarrow> string" where
  "csv_quote s = CHR 0x22 # concat (map (\<lambda>c. if c = CHR 0x22 then [c, c] else [c]) s) @ [CHR 0x22]"

definition csv_field :: "string \<Rightarrow> string" where
  "csv_field s = (if list_ex csv_special s then csv_quote s else s)"

fun join_fields :: "string list \<Rightarrow> string" where
  "join_fields [] = []"
| "join_fields [f] = csv_field f"
| "join_fields (f # g # fs) = csv_field f @ CHR '','' # join_fields (g # fs)"

definition csv_row :: "string list \<Rightarrow> string" where
  "csv_row fields = (if fields = [[]] then [CHR 0x22, CHR 0x22] else join_fields fields) @ [CHR 0x0A]"

definition csv_text :: "string list list \<Rightarrow> string" where
  "csv_text rows = concat (map csv_row rows)"

subsection \<open>Reader: pandas' tokenizer\<close>

datatype tok_state = StartRecord | StartField | InField | InQuoted | QuoteInQuoted
  | WhitespaceLine | EatCRNL | EatCRNLNop

record tok =
  tst :: tok_state
  fld :: string
  cur :: "string list"
  recs :: "string list list"

abbreviation tk :: "tok_state \<Rightarrow> string \<Rightarrow> string list \<Rightarrow> string list list \<Rightarrow> tok" where
  "tk st f cs rs \<equiv> \<lparr>tst = st, fld = f, cur = cs, recs = rs\<rparr>"

definition tok_init :: tok where
  "tok_init = \<lparr>tst = StartRecord, fld = [], cur = [], recs = []\<rparr>"

definition is_ws :: "char \<Rightarrow> bool" where
  "is_ws c \<longleftrightarrow> c = CHR '' '' \<or> c = CHR 0x09"

definition end_field :: "tok \<Rightarrow> tok" where
  "end_field t = t\<lparr>cur := cur t @ [fld t], fld := []\<rparr>"

definition end_record :: "tok_state \<Rightarrow> tok \<Rightarrow> tok" where
  "end_record st t = t\<lparr>recs := recs t @ [cur t @ [fld t]], cur := [], fld := [], tst := st\<rparr>"

definition push :: "tok_state \<Rightarrow> char \<Rightarrow> tok \<Rightarrow> tok" where
  "push st c t = t\<lparr>fld := fld t @ [c], tst := st\<rparr>"

definition start_field :: "tok \<Rightarrow> char \<Rightarrow> tok" where
  "start_field t c =
     (if c = CHR 0x0A then end_record StartRecord t
      else if c = CHR 0x0D then end_record EatCRNL t
      else if c = CHR 0x22 then t\<lparr>tst := InQuoted\<rparr>
      else if c = CHR '','' then (end_field t)\<lparr>tst := StartField\<rparr>
      else push InField c t)"

definition start_record :: "tok \<Rightarrow> char \<Rightarrow> tok" where
  "start_record t c =
     (if c = CHR 0x0A then t\<lparr>tst := StartRecord\<rparr>
      else if c = CHR 0x0D then t\<lparr>tst := EatCRNLNop\<rparr>
      else if is_ws c then push WhitespaceLine c t
      else start_field t c)"

definition in_field :: "tok \<Rightarrow> char \<Rightarrow> tok" where
  "in_field t c =
     (if c = CHR 0x0A then end_record StartRecord t
      else if c = CHR 0x0D then end_record EatCRNL t
      else if c = CHR '','' then (end_field t)\<lparr>tst := StartField\<rparr>
      else push InField c t)"

text \<open>
  In a line that so far holds only spaces and tabs the tokenizer waits: a line break
  drops the line as blank, another character makes it re-read the line from its start,
  which pushes the blanks into the first field and continues in that field.
\<close>

definition tok_step :: "tok \<Rightarrow> char \<Rightarrow> tok" where
  "tok_step t c =
     (case tst t of
        StartRecord \<Rightarrow> start_record t c
      | StartField \<Rightarrow> start_field t c
      | InField \<Rightarrow> in_field t c
      | InQuoted \<Rightarrow> if c = CHR 0x22 then t\<lparr>tst := QuoteInQuoted\<rparr> else push InQuoted c t
      | QuoteInQuoted \<Rightarrow> if c = CHR 0x22 then push InQuoted c t else in_field t c
      | WhitespaceLine \<Rightarrow>
          if c = CHR 0x0A then t\<lparr>fld := [], tst := StartRecord\<rparr>
          else if c = CHR 0x0D then t\<lparr>fld := [], tst := EatCRNLNop\<rparr>
          else if is_ws c then push WhitespaceLine c t
          else in_field (t\<lparr>tst := InField\<rparr>) c
      | EatCRNL \<Rightarrow> if c = CHR 0x0A then t\<lparr>tst := StartRecord\<rparr> else start_record t c
      | EatCRNLNop \<Rightarrow>
          if c = CHR 0x0A \<or> c = CHR '','' then t\<lparr>tst := StartRecord\<rparr> else start_record t c)"

definition tok_finish :: "tok \<Rightarrow> string list list option" where
  "tok_finish t =
     (case tst t of
        InQuoted \<Rightarrow> None
      | StartRecord \<Rightarrow> Some (recs t)
      | WhitespaceLine \<Rightarrow> Some (recs t)
      | EatCRNL \<Rightarrow> Some (recs t)
      | EatCRNLNop \<Rightarrow> Some (recs t)
      | _ \<Rightarrow> Some (recs (end_record StartRecord t)))"

definition csv_records :: "string \<Rightarrow> string list list option" where
  "csv_records s = tok_finish (foldl tok_step tok_init s)"

text \<open>
  The records the writer can hand to the reader unchanged: not empty, and not a single
  field of blanks only (a line of blanks is skipped as blank by the reader).
\<close>

definition csv_row_ok :: "string list \<Rightarrow> bool" where
  "csv_row_ok r \<longleftrightarrow> r \<noteq> [] \<and> (case r of [f] \<Rightarrow> f = [] \<or> \<not> list_all is_ws f | _ \<Rightarrow> True)"

subsection \<open>Lemmas: the reader inverts the writer\<close>

lemmas tok_defs = tok_step_def start_field_def start_record_def in_field_def end_field_def
  end_record_def push_def

lemma csv_special_simps [simp]:
  "csv_special CHR '',''" "csv_special (CHR 0x22)" "csv_special (CHR 0x0A)" "csv_special (CHR 0x0D)"
  by (simp_all add: csv_special_def)

lemma is_ws_not_special: "is_ws c \<Longrightarrow> \<not> csv_special c"
  by (auto simp: is_ws_def csv_special_def)

lemma quoted_run:
  "foldl tok_step (tk InQuoted f cs rs) (concat (map (\<lambda>c. if c = CHR 0x22 then [c, c] else [c]) s))
     = tk InQuoted (f @ s) cs rs"
  by (induction s arbitrary: f) (simp_all add: tok_defs)

lemma plain_run:
  "\<not> list_ex csv_special s \<Longrightarrow> foldl tok_step (tk InField f cs rs) s = tk InField (f @ s) cs rs"
  by (induction s arbitrary: f) (simp_all add: tok_defs csv_special_def)

lemma ws_run:
  "list_all is_ws s \<Longrightarrow> foldl tok_step (tk WhitespaceLine f cs rs) s = tk WhitespaceLine (f @ s) cs rs"
  by (induction s arbitrary: f) (auto simp: tok_defs is_ws_def)

text \<open>A field, from its first character to the character that ends it.\<close>

lemma field_run:
  assumes "c = CHR '','' \<or> c = CHR 0x0A"
  shows "foldl tok_step (tk StartField [] cs rs) (csv_field f @ [c]) = in_field (tk InField f cs rs) c"
proof (cases "list_ex csv_special f")
  case True
  then show ?thesis using assms
    by (auto simp: csv_field_def csv_quote_def quoted_run tok_defs)
next
  case False
  show ?thesis
  proof (cases f)
    case Nil
    then show ?thesis using assms by (auto simp: csv_field_def tok_defs)
  next
    case (Cons x xs)
    with False have x: "x \<noteq> CHR '',''" "x \<noteq> CHR 0x22" "x \<noteq> CHR 0x0A" "x \<noteq> CHR 0x0D"
      and xs: "\<not> list_ex csv_special xs" by (auto simp: csv_special_def)
    show ?thesis using False Cons x xs by (simp add: csv_field_def plain_run tok_defs)
  qed
qed

lemma start_record_field:
  "y \<noteq> CHR 0x0A \<Longrightarrow> y \<noteq> CHR 0x0D \<Longrightarrow> \<not> is_ws y \<Longrightarrow>
   foldl tok_step (tk StartRecord [] cs rs) (y # ys) = foldl tok_step (tk StartField [] cs rs) (y # ys)"
  by (simp add: tok_defs)

text \<open>
  The first field of a record: a field starting with blanks passes through the
  blank-line state and ends in the same state, unless the line holds nothing else.
\<close>

lemma first_field_run:
  assumes c: "c = CHR '','' \<or> (c = CHR 0x0A \<and> \<not> list_all is_ws f)"
  shows "foldl tok_step (tk StartRecord [] [] rs) (csv_field f @ [c]) = in_field (tk InField f [] rs) c"
proof (cases "list_ex csv_special f")
  case True
  then obtain rest where q: "csv_field f = CHR 0x22 # rest" by (simp add: csv_field_def csv_quote_def)
  have "foldl tok_step (tk StartRecord [] [] rs) (CHR 0x22 # rest @ [c]) =
        foldl tok_step (tk StartField [] [] rs) (CHR 0x22 # rest @ [c])"
    by (rule start_record_field) (simp_all add: is_ws_def)
  then have "foldl tok_step (tk StartRecord [] [] rs) (csv_field f @ [c]) =
             foldl tok_step (tk StartField [] [] rs) (csv_field f @ [c])"
    by (simp add: q)

  then show ?thesis using field_run c by auto
next
  case False
  show ?thesis
  proof (cases f)
    case Nil
    then show ?thesis using c by (simp add: csv_field_def tok_defs is_ws_def)
  next
    case (Cons x xs)
    with False have x: "x \<noteq> CHR '',''" "x \<noteq> CHR 0x22" "x \<noteq> CHR 0x0A" "x \<noteq> CHR 0x0D"
      and xs: "\<not> list_ex csv_special xs" by (auto simp: csv_special_def)
    have cf: "csv_field f = x # xs" using False Cons by (simp add: csv_field_def)
    show ?thesis
    proof (cases "is_ws x")
      case False
      then have "foldl tok_step (tk StartRecord [] [] rs) (csv_field f @ [c]) =
                 foldl tok_step (tk StartField [] [] rs) (csv_field f @ [c])"
        using start_record_field [OF x(3) x(4) False, of "[]" rs "xs @ [c]"] cf by simp
      then show ?thesis using field_run c by auto
    next
      case True
      define w where "w = takeWhile is_ws xs"
      define r where "r = dropWhile is_ws xs"
      have xs_wr: "xs = w @ r" unfolding w_def r_def by simp
      have ws: "list_all is_ws w" unfolding w_def by (auto simp: list_all_iff dest: set_takeWhileD)
      have r0: "r \<noteq> [] \<Longrightarrow> \<not> is_ws (hd r)" unfolding r_def by (rule hd_dropWhile)
      have r: "\<not> list_ex csv_special r" using xs xs_wr by simp
      have start: "foldl tok_step (tk StartRecord [] [] rs) (x # w) = tk WhitespaceLine (x # w) [] rs"
        using True x by (simp add: tok_defs ws_run [OF ws])
      have cf': "csv_field f @ [c] = (x # w) @ (r @ [c])" using cf xs_wr by simp
      have f: "f = x # w @ r" using Cons xs_wr by simp
      show ?thesis
      proof (cases r)
        case Nil
        then have "list_all is_ws f" using f True ws by simp
        then have comma: "c = CHR '',''" using c by auto
        have "foldl tok_step (tk StartRecord [] [] rs) (csv_field f @ [c]) =
              tok_step (tk WhitespaceLine (x # w) [] rs) c"
          unfolding cf' foldl_append start using Nil by simp
        also have "\<dots> = in_field (tk InField f [] rs) c"
          using comma f Nil by (simp add: tok_step_def is_ws_def)
        finally show ?thesis .
      next
        case (Cons y ys)
        then have y: "\<not> is_ws y" "\<not> csv_special y" and ys: "\<not> list_ex csv_special ys"
          using r r0 by auto
        then have y': "y \<noteq> CHR '',''" "y \<noteq> CHR 0x22" "y \<noteq> CHR 0x0A" "y \<noteq> CHR 0x0D"
          by (auto simp: csv_special_def)
        have "foldl tok_step (tk StartRecord [] [] rs) (csv_field f @ [c]) =
              foldl tok_step (tk WhitespaceLine (x # w) [] rs) (y # ys @ [c])"
          unfolding cf' foldl_append start using Cons by simp
        also have "\<dots> = foldl tok_step (tk InField (x # w @ [y]) [] rs) (ys @ [c])"
          using y y' by (simp add: tok_defs)
        also have "\<dots> = in_field (tk InField f [] rs) c"
          using ys f Cons by (simp add: plain_run tok_step_def)
        finally show ?thesis .
      qed
    qed
  qed
qed

lemma join_run:
  "fs \<noteq> [] \<Longrightarrow>
   foldl tok_step (tk StartField [] cs rs) (join_fields fs @ [CHR 0x0A]) = tk StartRecord [] [] (rs @ [cs @ fs])"
proof (induction fs arbitrary: cs rule: join_fields.induct)
  case (2 f)
  then show ?case using field_run [of "CHR 0x0A" cs rs f] by (simp add: in_field_def end_record_def end_field_def)
next
  case (3 f g fs)
  have "foldl tok_step (tk StartField [] cs rs) (csv_field f @ [CHR '','']) = tk StartField [] (cs @ [f]) rs"
    using field_run [of "CHR '','' " cs rs f] by (simp add: in_field_def end_record_def end_field_def)
  then show ?case using "3.IH" [of "cs @ [f]"] by simp
qed simp

lemma row_run:
  assumes "csv_row_ok r"
  shows "foldl tok_step (tk StartRecord [] [] rs) (csv_row r) = tk StartRecord [] [] (rs @ [r])"
proof (cases r rule: join_fields.cases)
  case 1
  then show ?thesis using assms by (simp add: csv_row_ok_def)
next
  case (2 f)
  show ?thesis
  proof (cases "f = []")
    case True
    then show ?thesis using 2 by (simp add: csv_row_def tok_defs is_ws_def)
  next
    case False
    then have "\<not> list_all is_ws f" using assms 2 by (simp add: csv_row_ok_def)
    then show ?thesis using 2 False first_field_run [of "CHR 0x0A" f rs] by (simp add: csv_row_def in_field_def end_record_def)
  qed
next
  case (3 f g gs)
  have "foldl tok_step (tk StartRecord [] [] rs) (csv_field f @ [CHR '','']) = tk StartField [] [f] rs"
    using first_field_run [of "CHR '','' " f rs] by (simp add: in_field_def end_record_def end_field_def)
  then show ?thesis using 3 join_run [of "g # gs" "[f]" rs] by (simp add: csv_row_def)
qed

lemma text_run:
  "\<forall>r \<in> set rows. csv_row_ok r \<Longrightarrow>
   foldl tok_step (tk StartRecord [] [] rs) (csv_text rows) = tk StartRecord [] [] (rs @ rows)"
  by (induction rows arbitrary: rs) (simp_all add: csv_text_def row_run [unfolded csv_text_def])

subsection \<open>Lemmas: records the writer cannot represent, and the shape of every record\<close>

text \<open>A record of one blank field is written as a blank line and read as nothing.\<close>

lemma row_run_blank:
  assumes "f \<noteq> []" and "list_all is_ws f"
  shows "foldl tok_step (tk StartRecord [] [] rs) (csv_row [f]) = tk StartRecord [] [] rs"
proof -
  obtain x xs where f: "f = x # xs" using assms(1) by (cases f) auto
  have x: "is_ws x" and xs: "list_all is_ws xs" using assms(2) f by simp_all
  have plain: "\<not> list_ex csv_special f" using assms(2) is_ws_not_special by (auto simp: list_all_iff list_ex_iff)
  have row: "csv_row [f] = x # xs @ [CHR 0x0A]" using plain f assms(1) by (simp add: csv_row_def csv_field_def)
  have "tok_step (tk StartRecord [] [] rs) x = tk WhitespaceLine [x] [] rs"
    using x by (auto simp: tok_defs is_ws_def)
  then show ?thesis using ws_run [OF xs] by (simp add: row tok_step_def)
qed

lemma text_run_filter:
  "\<forall>r \<in> set rows. r \<noteq> [] \<Longrightarrow>
   foldl tok_step (tk StartRecord [] [] rs) (csv_text rows) = tk StartRecord [] [] (rs @ filter csv_row_ok rows)"
proof (induction rows arbitrary: rs)
  case (Cons r rows)
  have step: "foldl tok_step (tk StartRecord [] [] rs) (csv_row r) =
                tk StartRecord [] [] (rs @ (if csv_row_ok r then [r] else []))"
  proof (cases "csv_row_ok r")
    case False
    then obtain f where "r = [f]" "f \<noteq> []" "list_all is_ws f" using Cons.prems
      by (auto simp: csv_row_ok_def split: list.splits)
    then show ?thesis using False row_run_blank by simp
  qed (simp add: row_run)
  show ?case using Cons step by (simp add: csv_text_def)
qed (simp add: csv_text_def)

lemma csv_records_text_filter:
  "\<forall>r \<in> set rows. r \<noteq> [] \<Longrightarrow> csv_records (csv_text rows) = Some (filter csv_row_ok rows)"
  using text_run_filter [of rows "[]"] by (simp add: csv_records_def tok_init_def tok_finish_def)

lemma tok_step_recs_ne:
  "\<forall>r \<in> set (recs t). r \<noteq> [] \<Longrightarrow> \<forall>r \<in> set (recs (tok_step t c)). r \<noteq> []"
  by (cases "tst t") (auto simp: tok_defs)

lemma foldl_tok_recs_ne:
  "\<forall>r \<in> set (recs t). r \<noteq> [] \<Longrightarrow> \<forall>r \<in> set (recs (foldl tok_step t s)). r \<noteq> []"
proof (induction s arbitrary: t)
  case (Cons a s)
  show ?case using Cons.IH [OF tok_step_recs_ne [OF Cons.prems, of a]] by simp
qed simp

text \<open>Every record the reader returns has at least one field.\<close>

lemma csv_records_ne: "csv_records s = Some rs \<Longrightarrow> \<forall>r \<in> set rs. r \<noteq> []"
proof -
  assume r: "csv_records s = Some rs"
  let ?t = "foldl tok_step tok_init s"
  have ne: "\<forall>r \<in> set (recs ?t). r \<noteq> []" by (rule foldl_tok_recs_ne) (simp add: tok_init_def)
  then have "\<forall>r \<in> set (recs (end_record StartRecord ?t)). r \<noteq> []" by (simp add: end_record_def)
  with ne r show ?thesis
    by (auto simp: csv_records_def tok_finish_def split: tok_state.splits)
qed

subsection \<open>Properties of the CSV layer\<close>

text \<open>
  C17. Reading back what the writer wrote gives the records back, field by field and in
  order, quoted fields (commas, quotes, line breaks) included, for every list of records
  the writer can represent: none empty and none a single field of blanks only.
\<close>

theorem csv_records_csv_text:
  assumes "\<forall>r \<in> set rows. csv_row_ok r"
  shows "csv_records (csv_text rows) = Some rows"
  using text_run [OF assms, of "[]"] by (simp add: csv_records_def tok_init_def tok_finish_def)

theorem csv_records_csv_text_witness:
  "csv_records (csv_text [[''code'', ''a,b''], [[], [CHR 0x22, CHR 0x0A]], [[]]]) =
     Some [[''code'', ''a,b''], [[], [CHR 0x22, CHR 0x0A]], [[]]]"
proof -
  have h: "\<forall>r \<in> set [[''code'', ''a,b''], [[], [CHR 0x22, CHR 0x0A]], [[]]]. csv_row_ok r"
    by (simp add: csv_row_ok_def)
  show ?thesis by (rule csv_records_csv_text [OF h])
qed

text \<open>
  C18. A record of one field holding only blanks does not survive the round trip: the
  writer emits the blanks unquoted and the reader skips the line as blank, so wherever
  such a record stands, the text reads back as if it had not been written.
\<close>

theorem csv_blank_record_lost:
  assumes "\<forall>r \<in> set (rows @ rows'). r \<noteq> []" and "f \<noteq> []" and "list_all is_ws f"
  shows "csv_records (csv_text (rows @ [f] # rows')) = csv_records (csv_text (rows @ rows'))"
proof -
  have "\<not> csv_row_ok [f]" using assms(2,3) by (simp add: csv_row_ok_def)
  then have "filter csv_row_ok (rows @ [f] # rows') = filter csv_row_ok (rows @ rows')" by simp
  moreover have "\<forall>r \<in> set (rows @ [f] # rows'). r \<noteq> []" using assms(1) by auto
  ultimately show ?thesis using assms(1) by (simp only: csv_records_text_filter)
qed

theorem csv_blank_record_lost_witness:
  "csv_records (csv_text ([[''x'']] @ ['' ''] # [])) = csv_records (csv_text ([[''x'']] @ [])) \<and>
   csv_records (csv_text [[''x'']]) = Some [[''x'']]"
proof -
  have h: "\<forall>r \<in> set ([[''x'']] @ []). r \<noteq> []" "'' '' \<noteq> []" "list_all is_ws '' ''"
    by (simp_all add: is_ws_def)
  have r: "csv_records (csv_text [[''x'']]) = Some [[''x'']]"
    by (simp add: csv_records_text_filter csv_row_ok_def is_ws_def)
  show ?thesis using csv_blank_record_lost [OF h] r by simp
qed

end
