(* ===== verification/PyStr.thy ===== *)
theory PyStr
  imports Prelude
begin

text \<open>
  The Python string built-ins that \<open>src/app.py\<close> calls, each written after CPython's
  behaviour on a \<open>str\<close> of code points below 256:
  \<open>str.isspace\<close>/\<open>str.strip\<close> (\<open>Py_UNICODE_ISSPACE\<close>), \<open>str.isdigit\<close> (numeric type
  Digit or Decimal, which in Latin-1 adds the superscripts one, two and three to the ASCII
  digits), the class \<open>\d\<close> of \<open>re\<close> (decimal digits only), \<open>str.replace\<close> (left-to-right,
  non-overlapping), \<open>str.zfill\<close>, \<open>re.match(r'^\d{1,6}$', s)\<close> (where \<open>$\<close> also matches
  before a final newline), \<open>int(s)\<close> in base 10 (surrounding whitespace, a sign, single
  underscores between digits) and \<open>str(i)\<close> for an integer.
\<close>

subsection \<open>Character classes\<close>

definition py_isspace :: "char \<Rightarrow> bool" where
  "py_isspace c \<longleftrightarrow>
     (let n = (of_char c :: nat) in (9 \<le> n \<and> n \<le> 13) \<or> (28 \<le> n \<and> n \<le> 32) \<or> n = 133 \<or> n = 160)"

definition py_isdecimal :: "char \<Rightarrow> bool" where
  "py_isdecimal c \<longleftrightarrow> CHR ''0'' \<le> c \<and> c \<le> CHR ''9''"

definition py_isdigit_char :: "char \<Rightarrow> bool" where
  "py_isdigit_char c \<longleftrightarrow> py_isdecimal c \<or> c = CHR 0xB2 \<or> c = CHR 0xB3 \<or> c = CHR 0xB9"

text \<open>\<open>str.isdigit()\<close>: non-empty and every character a digit.\<close>

definition py_isdigit :: "string \<Rightarrow> bool" where
  "py_isdigit s \<longleftrightarrow> s \<noteq> [] \<and> list_all py_isdigit_char s"

definition py_strip :: "string \<Rightarrow> string" where
  "py_strip s = rev (dropWhile py_isspace (rev (dropWhile py_isspace s)))"

subsection \<open>\<open>str.replace\<close>\<close>

function replace_nonempty :: "string \<Rightarrow> string \<Rightarrow> string \<Rightarrow> string" where
  "replace_nonempty old new [] = []"
| "replace_nonempty old new (c # cs) =
     (if old \<noteq> [] \<and> take (length old) (c # cs) = old
      then new @ replace_nonempty old new (drop (length old) (c # cs))
      else c # replace_nonempty old new cs)"
  by pat_completeness auto
termination
  by (relation "measure (\<lambda>(old, new, s). length s)") auto

text \<open>\<open>s.replace(old, new)\<close>; an empty \<open>old\<close> inserts \<open>new\<close> around every character.\<close>

definition py_replace :: "string \<Rightarrow> string \<Rightarrow> string \<Rightarrow> string" where
  "py_replace s old new =
     (if old = [] then new @ concat (map (\<lambda>c. c # new) s) else replace_nonempty old new s)"

subsection \<open>\<open>str.zfill\<close> and the digit pattern\<close>

definition py_zfill :: "string \<Rightarrow> nat \<Rightarrow> string" where
  "py_zfill s width =
     (if width \<le> length s then s
      else let fill = replicate (width - length s) (CHR ''0'') in
        (case s of
          [] \<Rightarrow> fill
        | c # cs \<Rightarrow> if c = CHR ''+'' \<or> c = CHR ''-'' then c # fill @ cs else fill @ s))"

text \<open>
  \<open>re.match(r'^\d{1,6}$', s)\<close> succeeds when \<open>s\<close> is one to six decimal digits, optionally
  followed by a single final newline (\<open>$\<close> matches at the end and before a final \<open>\n\<close>).
\<close>

definition match_digits_1_6 :: "string \<Rightarrow> bool" where
  "match_digits_1_6 s \<longleftrightarrow>
     (let body = (if s \<noteq> [] \<and> last s = CHR 0x0A then butlast s else s)
      in 1 \<le> length body \<and> length body \<le> 6 \<and> list_all py_isdecimal body)"

subsection \<open>\<open>int(s)\<close> and \<open>str(i)\<close>\<close>

definition digit_val :: "char \<Rightarrow> nat" where
  "digit_val c = of_char c - 48"

definition digits_val :: "string \<Rightarrow> nat" where
  "digits_val ds = foldl (\<lambda>n c. 10 * n + digit_val c) 0 ds"

definition int_body_ok :: "string \<Rightarrow> bool" where
  "int_body_ok s \<longleftrightarrow>
     s \<noteq> [] \<and> py_isdecimal (hd s) \<and> py_isdecimal (last s) \<and>
     list_all (\<lambda>c. py_isdecimal c \<or> c = CHR ''_'') s \<and> \<not> has_sub ''__'' s"

definition parse_int_body :: "string \<Rightarrow> int option" where
  "parse_int_body s =
     (if int_body_ok s then Some (int (digits_val (filter py_isdecimal s))) else None)"

text \<open>\<open>int(s)\<close>: \<open>None\<close> is the \<open>ValueError\<close> it raises.\<close>

definition py_int :: "string \<Rightarrow> int option" where
  "py_int s =
     (case py_strip s of
       [] \<Rightarrow> None
     | c # r \<Rightarrow>
         if c = CHR ''-'' then map_option uminus (parse_int_body r)
         else if c = CHR ''+'' then parse_int_body r
         else parse_int_body (c # r))"

fun nat_digits :: "nat \<Rightarrow> string" where
  "nat_digits n =
     (if n < 10 then [''0123456789'' ! n]
      else nat_digits (n div 10) @ [''0123456789'' ! (n mod 10)])"

declare nat_digits.simps [simp del]

definition py_str_int :: "int \<Rightarrow> string" where
  "py_str_int i = (if i < 0 then CHR ''-'' # nat_digits (nat (- i)) else nat_digits (nat i))"

declare py_int_def [py_simps] py_strip_def [py_simps] py_isspace_def [py_simps]
  parse_int_body_def [py_simps] int_body_ok_def [py_simps] py_isdecimal_def [py_simps]
  digits_val_def [py_simps] digit_val_def [py_simps]

subsection \<open>Lemmas: character classes and \<open>strip\<close>\<close>

lemma py_isdecimal_of_char:
  "py_isdecimal c \<longleftrightarrow> 48 \<le> (of_char c :: nat) \<and> (of_char c :: nat) \<le> 57"
  by (simp add: py_isdecimal_def less_eq_char_def)

lemma py_isdecimal_not_space [simp]: "py_isdecimal c \<Longrightarrow> \<not> py_isspace c"
  by (auto simp: py_isdecimal_of_char py_isspace_def Let_def)

lemma py_isdecimal_isdigit_char [simp]: "py_isdecimal c \<Longrightarrow> py_isdigit_char c"
  by (simp add: py_isdigit_char_def)

lemma py_strip_id:
  assumes "s = [] \<or> (\<not> py_isspace (hd s) \<and> \<not> py_isspace (last s))"
  shows "py_strip s = s"
proof (cases "s = []")
  case True
  then show ?thesis by (simp add: py_strip_def)
next
  case False
  with assms have "dropWhile py_isspace s = s" by (simp add: dropWhile_eq_self_iff)
  moreover from False assms have "dropWhile py_isspace (rev s) = rev s"
    by (simp add: dropWhile_eq_self_iff hd_rev)
  ultimately show ?thesis by (simp add: py_strip_def)
qed

lemma py_strip_ends:
  "py_strip s = [] \<or> (\<not> py_isspace (hd (py_strip s)) \<and> \<not> py_isspace (last (py_strip s)))"
proof -
  let ?a = "dropWhile py_isspace s"
  let ?b = "dropWhile py_isspace (rev ?a)"
  have "py_strip s = rev ?b" by (simp add: py_strip_def)
  moreover have "?b \<noteq> [] \<Longrightarrow> \<not> py_isspace (hd ?b)"
    by (metis dropWhile_eq_Nil_conv hd_dropWhile)
  moreover have "?b \<noteq> [] \<Longrightarrow> \<not> py_isspace (last ?b)"
  proof -
    assume ne: "?b \<noteq> []"
    then have "?a \<noteq> []" by (metis dropWhile.simps(1) rev.simps(1))
    then have "\<not> py_isspace (hd ?a)" by (metis dropWhile_eq_Nil_conv hd_dropWhile)
    moreover have "last ?b = last (rev ?a)" using ne by (rule last_dropWhile_ne)
    ultimately show ?thesis using \<open>?a \<noteq> []\<close> by (simp add: last_rev)
  qed
  ultimately show ?thesis by (auto simp: hd_rev last_rev)
qed

lemma py_strip_idem: "py_strip (py_strip s) = py_strip s"
  using py_strip_ends [of s] by (rule py_strip_id)

lemma py_strip_decimal [simp]: "list_all py_isdecimal s \<Longrightarrow> py_strip s = s"
  by (rule py_strip_id) (cases s, auto simp: list_all_iff)

lemma py_strip_cons_decimal:
  "\<not> py_isspace c \<Longrightarrow> r \<noteq> [] \<Longrightarrow> list_all py_isdecimal r \<Longrightarrow> py_strip (c # r) = c # r"
  by (rule py_strip_id) (simp add: list_all_iff)

subsection \<open>Lemmas: \<open>replace\<close>\<close>

lemma has_sub_set: "has_sub p s \<Longrightarrow> set p \<subseteq> set s"
  by (auto simp: has_sub_iff)

lemma replace_nonempty_absent:
  "\<not> has_sub old s \<Longrightarrow> replace_nonempty old new s = s"
proof (induction old new s rule: replace_nonempty.induct)
  case (1 old new)
  then show ?case by simp
next
  case (2 old new c cs)
  then show ?case by auto
qed

lemma py_replace_absent [simp]:
  "old \<noteq> [] \<Longrightarrow> \<not> has_sub old s \<Longrightarrow> py_replace s old new = s"
  by (simp add: py_replace_def replace_nonempty_absent)

lemma py_replace_no_char:
  "x \<in> set old \<Longrightarrow> x \<notin> set s \<Longrightarrow> py_replace s old new = s"
  by (metis empty_iff empty_set has_sub_set py_replace_absent subsetD)

lemma replace_nonempty_prefix_free:
  assumes "old \<noteq> []" and "hd old \<notin> set u"
  shows "replace_nonempty old new (u @ r) = u @ replace_nonempty old new r"
  using assms(2)
proof (induction u)
  case Nil
  then show ?case by simp
next
  case (Cons c cs)
  from assms(1) obtain o1 os where "old = o1 # os" by (cases old) auto
  with Cons.prems have "take (length old) (c # cs @ r) \<noteq> old" by auto
  with Cons show ?case by simp
qed

lemma take_sep_le:
  assumes "x \<notin> set p" and "take (length p) (u @ x # r) = p"
  shows "length p \<le> length u"
proof (rule ccontr)
  assume "\<not> length p \<le> length u"
  then have "x \<in> set (take (length p) (u @ x # r))"
    by (simp add: take_append) (metis Suc_diff_Suc list.set_intros(1) not_le take_Suc_Cons)
  with assms show False by simp
qed

text \<open>A character that \<open>old\<close> does not contain separates the replacements on its two sides.\<close>

lemma replace_nonempty_sep:
  assumes "x \<notin> set old"
  shows "replace_nonempty old new (u @ x # r) =
         replace_nonempty old new u @ x # replace_nonempty old new r"
proof (induction "length u" arbitrary: u rule: less_induct)
  case less
  show ?case
  proof (cases u)
    case Nil
    have "\<not> (old \<noteq> [] \<and> take (length old) (x # r) = old)"
      using assms by (cases old) auto
    then show ?thesis using Nil by (simp only: replace_nonempty.simps append_Nil if_False)
  next
    case (Cons c cs)
    let ?P = "old \<noteq> [] \<and> take (length old) (c # cs) = old"
    have iff: "(old \<noteq> [] \<and> take (length old) (c # cs @ x # r) = old) \<longleftrightarrow> ?P"
    proof
      assume a: "old \<noteq> [] \<and> take (length old) (c # cs @ x # r) = old"
      then have "length old \<le> length (c # cs)"
        using take_sep_le [OF assms, of "c # cs" r] by simp
      then have "take (length old) ((c # cs) @ x # r) = take (length old) (c # cs)"
        by (simp only: take_append) simp
      with a show ?P by simp
    next
      assume a: ?P
      then have "length (take (length old) (c # cs)) = length old" by simp
      then have "length old \<le> length (c # cs)" by (simp only: length_take)
      then have "take (length old) ((c # cs) @ x # r) = take (length old) (c # cs)"
        by (simp only: take_append) simp
      with a show "old \<noteq> [] \<and> take (length old) (c # cs @ x # r) = old" by simp
    qed
    show ?thesis
    proof (cases ?P)
      case True
      then have "length (take (length old) (c # cs)) = length old" by simp
      then have le: "length old \<le> length (c # cs)" by (simp only: length_take)
      let ?d = "drop (length old) (c # cs)"
      from le have "drop (length old) ((c # cs) @ x # r) = ?d @ x # r"
        by (simp only: drop_append) simp
      then have d: "drop (length old) (c # cs @ x # r) = ?d @ x # r" by simp
      from True have "length ?d < length u" using Cons by (cases old) auto
      then have ih: "replace_nonempty old new (?d @ x # r) =
                 replace_nonempty old new ?d @ x # replace_nonempty old new r"
        by (rule less.hyps)
      have "replace_nonempty old new (u @ x # r) = new @ replace_nonempty old new (?d @ x # r)"
        using Cons True iff d by (simp del: replace_nonempty.simps add: replace_nonempty.simps(2) [of old new c "cs @ x # r"])
      moreover have "replace_nonempty old new u = new @ replace_nonempty old new ?d"
        using Cons True by (simp del: replace_nonempty.simps add: replace_nonempty.simps(2) [of old new c cs])
      ultimately show ?thesis using ih by simp
    next
      case False
      have ih: "replace_nonempty old new (cs @ x # r) =
                     replace_nonempty old new cs @ x # replace_nonempty old new r"
        using Cons by (intro less.hyps) simp
      from False iff have c1: "\<not> (old \<noteq> [] \<and> take (length old) (c # cs @ x # r) = old)"
        by blast
      have "replace_nonempty old new (c # cs @ x # r) = c # replace_nonempty old new (cs @ x # r)"
        by (simp only: replace_nonempty.simps(2) [of old new c "cs @ x # r"] if_not_P [OF c1])
      then have "replace_nonempty old new (u @ x # r) = c # replace_nonempty old new (cs @ x # r)"
        using Cons by simp
      moreover have "replace_nonempty old new u = c # replace_nonempty old new cs"
        unfolding Cons by (simp only: replace_nonempty.simps(2) [of old new c cs] if_not_P [OF False])
      ultimately show ?thesis using ih by simp
    qed
  qed
qed

lemma length_replace_nonempty_del:
  "length (replace_nonempty old [] s) \<le> length s"
  by (induction old "[]::string" s rule: replace_nonempty.induct) auto

subsection \<open>Lemmas: \<open>zfill\<close>\<close>

lemma length_py_zfill: "length (py_zfill s w) = max w (length s)"
  by (auto simp: py_zfill_def Let_def split: list.split)

lemma py_zfill_unsigned:
  "s = [] \<or> (hd s \<noteq> CHR ''+'' \<and> hd s \<noteq> CHR ''-'') \<Longrightarrow>
   py_zfill s w = replicate (w - length s) (CHR ''0'') @ s"
  by (auto simp: py_zfill_def Let_def split: list.split)

lemma py_zfill_decimal:
  "list_all py_isdecimal s \<Longrightarrow> py_zfill s w = replicate (w - length s) (CHR ''0'') @ s"
  by (rule py_zfill_unsigned) (cases s, auto simp: py_isdecimal_def)

subsection \<open>Lemmas: \<open>str(i)\<close> and \<open>int(s)\<close>\<close>

lemma digit_table: "d < 10 \<Longrightarrow> py_isdecimal (''0123456789'' ! d) \<and> digit_val (''0123456789'' ! d) = d"
proof -
  have "\<forall>d < (10::nat). py_isdecimal (''0123456789'' ! d) \<and> digit_val (''0123456789'' ! d) = d"
    by (simp add: digit_val_def py_isdecimal_of_char less_Suc_eq numeral_eq_Suc)
  then show "d < 10 \<Longrightarrow> ?thesis" by blast
qed

lemma nat_digits_ne [simp]: "nat_digits n \<noteq> []"
  by (subst nat_digits.simps) simp

lemma nat_digits_decimal: "list_all py_isdecimal (nat_digits n)"
proof (induction n rule: nat_digits.induct)
  case (1 n)
  then show ?case by (subst nat_digits.simps) (simp add: digit_table)
qed

lemma digits_val_snoc [simp]: "digits_val (ds @ [c]) = 10 * digits_val ds + digit_val c"
  by (simp add: digits_val_def)

lemma digits_val_nat_digits: "digits_val (nat_digits n) = n"
proof (induction n rule: nat_digits.induct)
  case (1 n)
  show ?case
  proof (cases "n < 10")
    case True
    then show ?thesis
      by (subst nat_digits.simps) (simp add: digits_val_def digit_table)
  next
    case False
    with "1.IH" have "digits_val (nat_digits (n div 10)) = n div 10" by simp
    with False show ?thesis
      by (subst nat_digits.simps) (simp add: digit_table)
  qed
qed

lemma int_body_ok_decimal:
  "s \<noteq> [] \<Longrightarrow> list_all py_isdecimal s \<Longrightarrow> int_body_ok s"
proof -
  assume ne: "s \<noteq> []" and dec: "list_all py_isdecimal s"
  have "CHR ''_'' \<notin> set s" using dec by (auto simp: list_all_iff py_isdecimal_def)
  then have "\<not> has_sub ''__'' s" using has_sub_set by fastforce
  with ne dec show ?thesis
    by (auto simp: int_body_ok_def list_all_iff)
qed

lemma parse_int_body_digits:
  "parse_int_body (nat_digits n) = Some (int n)"
proof -
  have "list_all py_isdecimal (nat_digits n)" by (rule nat_digits_decimal)
  then have "filter py_isdecimal (nat_digits n) = nat_digits n"
    by (simp add: list_all_iff)
  with nat_digits_decimal show ?thesis
    by (simp add: parse_int_body_def int_body_ok_decimal digits_val_nat_digits)
qed

lemma nat_digits_hd: "hd (nat_digits n) \<noteq> CHR ''-'' \<and> hd (nat_digits n) \<noteq> CHR ''+''"
proof -
  have "py_isdecimal (hd (nat_digits n))"
    using nat_digits_decimal [of n] by (cases "nat_digits n") auto
  then show ?thesis by (auto simp: py_isdecimal_def)
qed

text \<open>\<open>int(str(i)) == i\<close>: printing an integer and parsing it back gives it again.\<close>

lemma py_int_py_str_int: "py_int (py_str_int i) = Some i"
proof (cases "i < 0")
  case True
  have "py_strip (CHR ''-'' # nat_digits (nat (- i))) = CHR ''-'' # nat_digits (nat (- i))"
    using nat_digits_decimal [of "nat (- i)"]
    by (intro py_strip_cons_decimal) (simp_all add: py_isspace_def)
  with True show ?thesis
    by (simp add: py_int_def py_str_int_def parse_int_body_digits)
next
  case False
  obtain c r where cr: "nat_digits (nat i) = c # r"
    by (cases "nat_digits (nat i)") auto
  have "py_strip (nat_digits (nat i)) = nat_digits (nat i)"
    by (simp add: nat_digits_decimal)
  moreover have "c \<noteq> CHR ''-'' \<and> c \<noteq> CHR ''+''" using nat_digits_hd [of "nat i"] cr by simp
  ultimately show ?thesis
    using False cr parse_int_body_digits [of "nat i"] by (simp add: py_int_def py_str_int_def)
qed

lemma py_str_int_chars: "set (py_str_int i) \<subseteq> insert (CHR ''-'') {c. py_isdecimal c}"
  using nat_digits_decimal by (auto simp: py_str_int_def list_all_iff)

lemma length_nat_digits: "n < 10 ^ k \<Longrightarrow> 0 < k \<Longrightarrow> length (nat_digits n) \<le> k"
proof (induction n arbitrary: k rule: nat_digits.induct)
  case (1 n)
  show ?case
  proof (cases "n < 10")
    case True
    with "1.prems" show ?thesis by (subst nat_digits.simps) simp
  next
    case False
    obtain j where k: "k = Suc j" using "1.prems"(2) by (cases k) auto
    have j: "0 < j"
    proof (rule ccontr)
      assume "\<not> 0 < j"
      with k "1.prems"(1) False show False by simp
    qed
    from "1.prems"(1) k have "n div 10 < 10 ^ j" by simp
    with "1.IH" False j have "length (nat_digits (n div 10)) \<le> j" by simp
    with False k show ?thesis by (subst nat_digits.simps) simp
  qed
qed

lemma digits_val_zeros [simp]: "digits_val (replicate k (CHR ''0'') @ ds) = digits_val ds"
proof -
  have "foldl (\<lambda>n c. 10 * n + digit_val c) 0 (replicate k (CHR ''0'')) = 0"
    by (induction k) (simp_all add: digit_val_def)
  then show ?thesis by (simp add: digits_val_def)
qed

text \<open>\<open>int()\<close> of a non-empty string of decimal digits is their value, leading zeros included.\<close>

lemma py_int_decimal:
  assumes "ds \<noteq> []" and "list_all py_isdecimal ds"
  shows "py_int ds = Some (int (digits_val ds))"
proof -
  obtain c r where cr: "ds = c # r" using assms(1) by (cases ds) auto
  with assms(2) have "c \<noteq> CHR ''-'' \<and> c \<noteq> CHR ''+''" by (auto simp: py_isdecimal_def)
  moreover have "filter py_isdecimal ds = ds" using assms(2) by (simp add: list_all_iff)
  ultimately show ?thesis using assms cr
    by (simp add: py_int_def parse_int_body_def int_body_ok_decimal)
qed



end
