(* ===== verification/PyValue.thy ===== *)
theory PyValue
  imports PyStr
begin

text \<open>
  The values a pandas \<open>DataFrame\<close> cell holds after \<open>pd.read_csv\<close>: an integer
  (\<open>int64\<close> column), a float (\<open>float64\<close> column, written as the decimal \<open>m \<cdot> 10 ^ e\<close>
  that is its shortest representation), the missing value \<open>NaN\<close>, or a string (\<open>object\<close>
  column). Infinities are not modelled. On them: Python's \<open>str\<close> (\<open>py_str\<close>, with CPython's
  \<open>repr\<close> of floats: fixed notation for decimal exponents between -4 and 16, scientific
  notation with a signed two-digit exponent otherwise), \<open>==\<close> (\<open>py_eq\<close>: numbers compare by
  value, \<open>NaN\<close> equals nothing, a string equals only the same string) and the numeric value
  by which pandas sorts a numeric column (\<open>num_val\<close>).
\<close>

datatype pyval = PInt int | PFloat int int | PNaN | PStr string

definition dec_val :: "int \<Rightarrow> int \<Rightarrow> rat" where
  "dec_val m e = of_int m * (if 0 \<le> e then 10 ^ nat e else inverse (10 ^ nat (- e)))"

fun num_val :: "pyval \<Rightarrow> rat option" where
  "num_val (PInt i) = Some (of_int i)"
| "num_val (PFloat m e) = Some (dec_val m e)"
| "num_val PNaN = None"
| "num_val (PStr s) = None"

fun is_str :: "pyval \<Rightarrow> bool" where
  "is_str (PStr s) = True"
| "is_str _ = False"

fun is_nan :: "pyval \<Rightarrow> bool" where
  "is_nan PNaN = True"
| "is_nan _ = False"

fun str_val :: "pyval \<Rightarrow> string" where
  "str_val (PStr s) = s"
| "str_val _ = []"

text \<open>Python's \<open>a == b\<close> on two cell values.\<close>

fun py_eq :: "pyval \<Rightarrow> pyval \<Rightarrow> bool" where
  "py_eq (PStr a) (PStr b) = (a = b)"
| "py_eq (PStr a) b = False"
| "py_eq a (PStr b) = False"
| "py_eq a b = (case (num_val a, num_val b) of (Some x, Some y) \<Rightarrow> x = y | _ \<Rightarrow> False)"

subsection \<open>\<open>str()\<close> of a cell\<close>

function strip_zeros :: "nat \<Rightarrow> int \<Rightarrow> nat \<times> int" where
  "strip_zeros m e = (if m \<noteq> 0 \<and> m mod 10 = 0 then strip_zeros (m div 10) (e + 1) else (m, e))"
  by pat_completeness auto
termination
  by (relation "measure (\<lambda>(m, e). m)") auto

declare strip_zeros.simps [simp del]

definition exp_str :: "int \<Rightarrow> string" where
  "exp_str x =
     (if x < 0 then CHR ''-'' else CHR ''+'') #
     (let d = nat_digits (nat \<bar>x\<bar>) in if length d < 2 then CHR ''0'' # d else d)"

definition float_repr :: "int \<Rightarrow> int \<Rightarrow> string" where
  "float_repr m e =
     (if m = 0 then ''0.0''
      else
        let (a, e') = strip_zeros (nat \<bar>m\<bar>) e;
            ds = nat_digits a; n = int (length ds); decpt = n + e';
            body =
              (if -4 < decpt \<and> decpt \<le> 16 then
                 (if decpt \<le> 0 then ''0.'' @ replicate (nat (- decpt)) (CHR ''0'') @ ds
                  else if n \<le> decpt then ds @ replicate (nat (decpt - n)) (CHR ''0'') @ ''.0''
                  else take (nat decpt) ds @ ''.'' @ drop (nat decpt) ds)
               else [hd ds] @ (if 1 < length ds then ''.'' @ tl ds else []) @ ''e'' @ exp_str (decpt - 1))
        in if m < 0 then CHR ''-'' # body else body)"

fun py_str :: "pyval \<Rightarrow> string" where
  "py_str (PInt i) = py_str_int i"
| "py_str (PFloat m e) = float_repr m e"
| "py_str PNaN = ''nan''"
| "py_str (PStr s) = s"

subsection \<open>Lemmas\<close>

lemma py_eq_sym: "py_eq a b = py_eq b a"
  by (cases a; cases b) (auto split: option.splits)

lemma py_eq_num: "num_val a = Some x \<Longrightarrow> py_eq a b \<longleftrightarrow> num_val b = Some x"
  by (cases a; cases b) auto

lemma py_eq_nan [simp]: "\<not> py_eq PNaN b" "\<not> py_eq a PNaN"
  by (cases b; simp) (cases a; simp)

lemma py_eq_str: "py_eq (PStr s) b \<longleftrightarrow> b = PStr s"
  by (cases b) auto

lemma py_eq_PInt: "py_eq v (PInt c) \<longleftrightarrow> num_val v = Some (of_int c)"
  by (cases v) auto

end
