(* ===== verification/Normalizer.thy ===== *)
theory Normalizer
  imports PyValue
begin

text \<open>
  The normalizer of \<open>src/app.py\<close>: \<open>process_header\<close> (lines 20--22) removes every
  \<open>"00:00:00"\<close> from a column label and strips the surrounding whitespace;
  \<open>process_cell\<close> (lines 25--31) turns a cell into a string with \<open>str\<close>, deletes the
  substrings \<open>".csv"\<close>, \<open>".SH"\<close> and \<open>".SZ"\<close> in that order and zero-pads the result to
  six characters when \<open>^\d{1,6}$\<close> matches it. The lemmas give the behaviour on the
  inputs the program is written for (date labels with a midnight time, exchange-suffixed
  stock codes, integer codes) and on the input where it differs from the specification
  (a code followed by a newline).
\<close>

definition process_header :: "string list \<Rightarrow> string list" where
  "process_header header = map (\<lambda>col. py_strip (py_replace col ''00:00:00'' '''')) header"

definition strip_suffixes :: "string \<Rightarrow> string" where
  "strip_suffixes value = py_replace (py_replace (py_replace value ''.csv'' '''') ''.SH'' '''') ''.SZ'' ''''"

definition process_cell :: "pyval \<Rightarrow> string" where
  "process_cell v =
     (let value = strip_suffixes (py_str v)
      in if match_digits_1_6 value then py_zfill value 6 else value)"

subsection \<open>Lemmas on the suffix removal\<close>

lemma dot_not_decimal [simp]: "\<not> py_isdecimal (CHR ''.'')"
  by (simp add: py_isdecimal_def)

lemma newline_not_decimal [simp]: "\<not> py_isdecimal (CHR 0x0A)"
  by (simp add: py_isdecimal_def)

lemma decimal_no_dot: "list_all py_isdecimal ds \<Longrightarrow> CHR ''.'' \<notin> set ds"
  by (auto simp: list_all_iff)

text \<open>A decimal code followed by one of the exchange or file suffixes loses the suffix.\<close>

lemma strip_suffixes_code:
  assumes "list_all py_isdecimal ds" and "sfx \<in> {[], ''.SH'', ''.SZ'', ''.csv''}"
  shows "strip_suffixes (ds @ sfx) = ds"
proof -
  have nd: "CHR ''.'' \<notin> set ds" using assms(1) by (rule decimal_no_dot)
  have pre: "\<And>old new r. old \<noteq> [] \<Longrightarrow> hd old \<notin> set ds \<Longrightarrow>
               replace_nonempty old new (ds @ r) = ds @ replace_nonempty old new r"
    by (rule replace_nonempty_prefix_free)
  have alone: "\<And>old new. old \<noteq> [] \<Longrightarrow> hd old \<notin> set ds \<Longrightarrow> replace_nonempty old new ds = ds"
    using pre [of _ _ "[]"] by simp
  from assms(2) nd show ?thesis
    by (auto simp: strip_suffixes_def py_replace_def pre alone)
qed

lemma strip_suffixes_decimal:
  "list_all py_isdecimal ds \<Longrightarrow> strip_suffixes ds = ds"
  using strip_suffixes_code [of ds "[]"] by simp

lemma strip_suffixes_no_dot:
  assumes "CHR ''.'' \<notin> set s"
  shows "strip_suffixes s = s"
  by (simp add: strip_suffixes_def py_replace_no_char [of "CHR ''.''" _ s, OF _ assms])

lemma match_digits_decimal:
  "list_all py_isdecimal ds \<Longrightarrow> match_digits_1_6 ds \<longleftrightarrow> 1 \<le> length ds \<and> length ds \<le> 6"
proof -
  assume d: "list_all py_isdecimal ds"
  have "ds = [] \<or> last ds \<noteq> CHR 0x0A"
  proof (cases "ds = []")
    case False
    then have "py_isdecimal (last ds)" using d by (simp add: list_all_iff)
    then show ?thesis by auto
  qed simp
  with d show ?thesis by (auto simp: match_digits_1_6_def)
qed

lemma py_strip_trailing_space:
  assumes "d \<noteq> []" and "\<not> py_isspace (hd d)" and "\<not> py_isspace (last d)"
  shows "py_strip (d @ '' '') = d"
proof -
  have "dropWhile py_isspace (d @ '' '') = d @ '' ''"
    using assms(1,2) by (cases d) auto
  moreover have "rev (d @ '' '') = CHR '' '' # rev d" by simp
  moreover have "dropWhile py_isspace (rev d) = rev d"
    using assms(1,3) by (simp add: dropWhile_eq_self_iff hd_rev)
  ultimately show ?thesis by (simp add: py_strip_def py_isspace_def)
qed

text \<open>A date label with the midnight time, and a plain label, normalize to the date.\<close>

lemma process_label_midnight:
  assumes "\<not> has_sub ''00:00:00'' d" and "d \<noteq> []"
    and "\<not> py_isspace (hd d)" and "\<not> py_isspace (last d)"
  shows "py_strip (py_replace (d @ '' 00:00:00'') ''00:00:00'' '''') = d"
proof -
  have sp: "CHR '' '' \<notin> set ''00:00:00''" by simp
  have "py_replace (d @ CHR '' '' # ''00:00:00'') ''00:00:00'' [] =
        replace_nonempty ''00:00:00'' [] d @ CHR '' '' # replace_nonempty ''00:00:00'' [] ''00:00:00''"
    by (simp add: py_replace_def replace_nonempty_sep [OF sp])
  also have "\<dots> = d @ '' ''"
    using assms(1) by (simp add: replace_nonempty_absent)
  finally have "py_replace (d @ '' 00:00:00'') ''00:00:00'' [] = d @ '' ''" by simp
  with assms(2-4) show ?thesis by (simp add: py_strip_trailing_space)
qed

lemma process_label_plain:
  assumes "\<not> has_sub ''00:00:00'' d" and "d \<noteq> []"
    and "\<not> py_isspace (hd d)" and "\<not> py_isspace (last d)"
  shows "py_strip (py_replace d ''00:00:00'' '''') = d"
  using assms by (simp add: py_strip_id)

subsection \<open>Properties of the normalizer\<close>

text \<open>
  C1. A stock code written as one to six decimal digits, with or without one of the
  suffixes \<open>.SH\<close>, \<open>.SZ\<close>, \<open>.csv\<close>, is normalized to the six-digit zero-padded code.
\<close>

theorem process_cell_code:
  assumes "list_all py_isdecimal ds" and "1 \<le> length ds" and "length ds \<le> 6"
    and "sfx \<in> {[], ''.SH'', ''.SZ'', ''.csv''}"
  shows "process_cell (PStr (ds @ sfx)) = replicate (6 - length ds) (CHR ''0'') @ ds"
  using assms by (simp add: process_cell_def strip_suffixes_code match_digits_decimal py_zfill_decimal)

theorem process_cell_code_witness:
  "process_cell (PStr (''1'' @ ''.SH'')) = replicate (6 - length ''1'') (CHR ''0'') @ ''1''"
  by (rule process_cell_code) (simp_all add: py_isdecimal_def)

text \<open>
  C2. An integer cell between 0 and 999999 becomes a six-character string that
  \<open>int()\<close> reads back as the same integer: the normalized code column stays comparable
  with the integer the query parses from the user's code.
\<close>

theorem process_cell_int_roundtrip:
  assumes "0 \<le> i" and "i < 1000000"
  shows "length (process_cell (PInt i)) = 6 \<and> py_int (process_cell (PInt i)) = Some i"
proof -
  let ?ds = "nat_digits (nat i)"
  have dec: "list_all py_isdecimal ?ds" by (rule nat_digits_decimal)
  have "nat i < 10 ^ 6" using assms by simp
  then have len: "length ?ds \<le> 6" by (rule length_nat_digits) simp
  have "1 \<le> length ?ds" by (simp add: Suc_le_eq)
  with dec len have pc: "process_cell (PInt i) = replicate (6 - length ?ds) (CHR ''0'') @ ?ds"
    using assms(1) by (simp add: process_cell_def py_str_int_def strip_suffixes_decimal
                                 match_digits_decimal py_zfill_decimal Let_def)
  have "list_all py_isdecimal (replicate (6 - length ?ds) (CHR ''0'') @ ?ds)"
    using dec by (simp add: py_isdecimal_def)
  then have "py_int (process_cell (PInt i)) = Some (int (digits_val ?ds))"
    using pc by (simp add: py_int_decimal)
  with pc len assms(1) show ?thesis by (simp add: digits_val_nat_digits)
qed

theorem process_cell_int_roundtrip_witness:
  "0 \<le> (1::int) \<and> (1::int) < 1000000 \<and>
   length (process_cell (PInt 1)) = 6 \<and> py_int (process_cell (PInt 1)) = Some 1"
  using process_cell_int_roundtrip [of 1] by simp

text \<open>
  C3. A date label \<open>d 00:00:00\<close> (as pandas writes a midnight timestamp) is
  normalized to the date \<open>d\<close>, when \<open>d\<close> has no surrounding whitespace and no
  \<open>00:00:00\<close> of its own.
\<close>

theorem process_header_date:
  assumes "\<not> has_sub ''00:00:00'' d" and "d \<noteq> []"
    and "\<not> py_isspace (hd d)" and "\<not> py_isspace (last d)"
  shows "process_header [d @ '' 00:00:00''] = [d]"
  using process_label_midnight [OF assms] by (simp add: process_header_def)

theorem process_header_date_witness:
  "\<not> has_sub ''00:00:00'' ''2024-01-02'' \<and> ''2024-01-02'' \<noteq> [] \<and>
   \<not> py_isspace (hd ''2024-01-02'') \<and> \<not> py_isspace (last ''2024-01-02'') \<and>
   process_header [''2024-01-02'' @ '' 00:00:00''] = [''2024-01-02'']"
proof -
  have h: "\<not> has_sub ''00:00:00'' ''2024-01-02''" "''2024-01-02'' \<noteq> []"
    "\<not> py_isspace (hd ''2024-01-02'')" "\<not> py_isspace (last ''2024-01-02'')"
    by (simp_all add: py_isspace_def)
  show ?thesis using h process_header_date [OF h] by simp
qed

text \<open>
  C4. The digit pattern \<open>^\d{1,6}$\<close> also matches one to six digits followed by a
  newline (\<open>$\<close> matches before a final newline), so \<open>process_cell\<close> pads such a value
  to six characters, the newline included and kept: the result is not the six-digit code
  the specification describes.
\<close>

theorem process_cell_trailing_newline:
  assumes "list_all py_isdecimal ds" and "1 \<le> length ds" and "length ds \<le> 6"
  shows "process_cell (PStr (ds @ [CHR 0x0A])) = replicate (5 - length ds) (CHR ''0'') @ ds @ [CHR 0x0A]"
proof -
  have "CHR ''.'' \<notin> set (ds @ [CHR 0x0A])" using assms(1) by (auto simp: list_all_iff)
  then have s: "strip_suffixes (ds @ [CHR 0x0A]) = ds @ [CHR 0x0A]" by (rule strip_suffixes_no_dot)
  have m: "match_digits_1_6 (ds @ [CHR 0x0A])" using assms by (simp add: match_digits_1_6_def)
  have "hd (ds @ [CHR 0x0A]) \<noteq> CHR ''+'' \<and> hd (ds @ [CHR 0x0A]) \<noteq> CHR ''-''"
    using assms(1,2) by (cases ds) (auto simp: py_isdecimal_def)
  then have "py_zfill (ds @ [CHR 0x0A]) 6 = replicate (6 - length (ds @ [CHR 0x0A])) (CHR ''0'') @ ds @ [CHR 0x0A]"
    by (simp add: py_zfill_unsigned)
  with s m show ?thesis by (simp add: process_cell_def)
qed

theorem process_cell_trailing_newline_witness:
  "list_all py_isdecimal ''123'' \<and> 1 \<le> length ''123'' \<and> length ''123'' \<le> 6 \<and>
   process_cell (PStr (''123'' @ [CHR 0x0A])) = ''00123'' @ [CHR 0x0A]"
proof -
  have h: "list_all py_isdecimal ''123''" "1 \<le> length ''123''" "length ''123'' \<le> 6"
    by (simp_all add: py_isdecimal_def)
  show ?thesis using h process_cell_trailing_newline [OF h] by (simp add: numeral_eq_Suc)
qed

end
