(* ===== verification/Frame.thy ===== *)
theory Frame
  imports PyValue
begin

text \<open>
  A pandas \<open>DataFrame\<close> as the query uses it: the columns in their left-to-right order,
  each a label and its cells (\<open>df.columns\<close> and \<open>df[label]\<close>). A well-formed frame, as
  \<open>pd.read_csv\<close> returns it, has distinct labels (pandas renames duplicates) and columns
  of one length. The operations are the ones \<open>query_stock_rank\<close> calls: \<open>df[label]\<close>
  (\<open>KeyError\<close> on a missing label), Python slicing of the label list with negative
  indices, and \<open>Series.sort_values(ascending=False)\<close> (numbers by value or strings by code
  points in descending order, \<open>NaN\<close> last, \<open>TypeError\<close> on a column mixing strings and
  numbers).
\<close>

type_synonym frame = "(string \<times> pyval list) list"

definition nrows :: "frame \<Rightarrow> nat" where
  "nrows df = (case df of [] \<Rightarrow> 0 | c # _ \<Rightarrow> length (snd c))"

definition wf_frame :: "frame \<Rightarrow> bool" where
  "wf_frame df \<longleftrightarrow> distinct (map fst df) \<and> (\<forall>c \<in> set df. length (snd c) = nrows df)"

definition get_col :: "frame \<Rightarrow> string \<Rightarrow> pyval list py_result" where
  "get_col df label = (case map_of df label of None \<Rightarrow> Inl KeyError | Some col \<Rightarrow> Inr col)"

text \<open>\<open>xs[i:j]\<close>: negative bounds count from the end, every bound is clipped to the list.\<close>

definition py_slice :: "'a list \<Rightarrow> int \<Rightarrow> int \<Rightarrow> 'a list" where
  "py_slice xs i j =
     (let n = int (length xs);
          norm = (\<lambda>k. if k < 0 then max 0 (k + n) else min k n);
          a = norm i; b = norm j
      in take (nat (b - a)) (drop (nat a) xs))"

definition num_key :: "pyval \<Rightarrow> rat" where
  "num_key v = (case num_val v of Some x \<Rightarrow> x | None \<Rightarrow> 0)"

definition is_numeric :: "pyval \<Rightarrow> bool" where
  "is_numeric v \<longleftrightarrow> num_val v \<noteq> None"

definition sort_values_desc :: "pyval list \<Rightarrow> pyval list py_result" where
  "sort_values_desc vs =
     (let nans = filter is_nan vs; rest = filter (\<lambda>v. \<not> is_nan v) vs in
      if list_all is_numeric rest then Inr (rev (sort_key num_key rest) @ nans)
      else if list_all is_str rest then Inr (rev (sort_key str_val rest) @ nans)
      else Inl TypeError)"

subsection \<open>Lemmas\<close>

lemma get_col_Inr: "get_col df label = Inr col \<longleftrightarrow> map_of df label = Some col"
  by (simp add: get_col_def split: option.split)

lemma get_col_Inl: "get_col df label = Inl e \<longleftrightarrow> map_of df label = None \<and> e = KeyError"
  by (auto simp: get_col_def split: option.split)

lemma wf_frame_col_length:
  "wf_frame df \<Longrightarrow> map_of df label = Some col \<Longrightarrow> length col = nrows df"
  by (auto simp: wf_frame_def dest: map_of_SomeD)

lemma map_of_label_Some: "label \<in> set (map fst df) \<Longrightarrow> \<exists>col. map_of df label = Some col"
  by (simp add: map_of_eq_None_iff [symmetric]) (metis map_of_eq_None_iff option.exhaust)

text \<open>The window of the query: \<open>xs[-k-1:-1]\<close> is the \<open>k\<close> elements before the last one.\<close>

lemma py_slice_window:
  assumes "0 \<le> k" and "k < int (length xs)"
  shows "py_slice xs (- k - 1) (- 1) = take (nat k) (drop (length xs - 1 - nat k) xs)"
proof -
  have a: "nat (- k - 1 + int (length xs)) = length xs - 1 - nat k" using assms by simp
  have b: "nat (max 0 (int (length xs) - 1) - (- k - 1 + int (length xs))) = nat k"
    using assms by simp
  show ?thesis using assms by (simp add: py_slice_def Let_def a b)
qed

text \<open>With a window of \<open>-1\<close> the slice is every element but the last.\<close>

lemma py_slice_minus_one: "py_slice xs 0 (- 1) = butlast xs"
proof (cases "xs = []")
  case False
  then have "nat (int (length xs) - 1) = length xs - 1" by simp
  with False show ?thesis by (simp add: py_slice_def Let_def butlast_conv_take)
qed (simp add: py_slice_def)

lemma first_index_cong:
  "(\<And>x. x \<in> set xs \<Longrightarrow> P x = Q x) \<Longrightarrow> first_index P xs = first_index Q xs"
  by (induction xs) auto

lemma first_index_append_Some:
  "first_index P xs = Some i \<Longrightarrow> first_index P (xs @ ys) = Some i"
  by (induction xs arbitrary: i) (auto split: if_splits)

lemma sort_values_numeric:
  assumes "\<forall>v \<in> set vs. is_nan v \<or> is_numeric v"
  shows "sort_values_desc vs =
           Inr (rev (sort_key num_key (filter (\<lambda>v. \<not> is_nan v) vs)) @ filter is_nan vs)"
  using assms by (auto simp: sort_values_desc_def list_all_iff Let_def)

end
