(* ===== verification/Loader.thy ===== *)
theory Loader
  imports Csv Normalizer Frame "HOL-Library.While_Combinator"
begin

text \<open>
  The loader of \<open>src/app.py\<close>: \<open>pd.read_csv\<close> (lines 37 and 51) turns CSV text into a
  frame, \<open>DataFrame.to_csv(index=False)\<close> (line 41) writes one, \<open>os.path.splitext\<close>
  (line 40) names the derived file, and \<open>process_table\<close> (lines 34--46) and
  \<open>load_data\<close> (lines 49--52) act on a file system, a map from paths to file contents.
  \<^item> Header: an empty label becomes \<open>Unnamed: i\<close>, and duplicates are renamed \<open>a.1\<close>,
    \<open>a.2\<close>, \ldots as the C engine's \<open>_get_header\<close> does (named columns first, a
    candidate name skipped while it is already a label).
  \<^item> Cells: a missing trailing field and the default NA strings are \<open>NaN\<close>; a column whose
    fields all read as 64-bit integers (C \<open>str_to_int64\<close>: blanks around, a sign,
    decimal digits) is an integer column; else one whose non-NA fields all read as
    decimals (\<open>xstrtod\<close>: a sign, digits with an optional point, an optional exponent) is a
    float column; else a column of strings.
  \<^item> Not modelled: boolean columns (\<open>True\<close>/\<open>False\<close> read as strings here), \<open>uint64\<close>
    columns and infinities (such columns read as floats or strings here), the implicit
    index pandas builds when the first data row is longer than the header (an error here).
\<close>

subsection \<open>Reading: column labels\<close>

text \<open>
  pandas' C engine names the columns in \<open>TextReader._get_header\<close>
  (\<open>pandas/_libs/parsers.pyx\<close>): an empty field becomes \<open>Unnamed: i\<close>, and the labels are
  made distinct in a loop that visits the named columns first and the unnamed ones after:
  \<^verbatim>\<open>
    col_loop_order = [i for i in range(len(this_header))
                      if i not in unnamed_col_indices] + unnamed_col_indices
    counts = {}
    for i in col_loop_order:
        col = this_header[i]
        old_col = col
        cur_count = counts.get(col, 0)
        if cur_count > 0:
            while cur_count > 0:
                counts[old_col] = cur_count + 1
                col = f"{old_col}.{cur_count}"
                if col in this_header:
                    cur_count += 1
                else:
                    cur_count = counts.get(col, 0)
        this_header[i] = col
        counts[col] = cur_count + 1\<close>
  \<open>counts\<close> is an association list, newest entry first. The inner \<open>while\<close> is
  \<open>while_option\<close> over the state \<open>(counts, col, cur_count)\<close> (\<open>rename_loop\<close>; \<open>None\<close>
  would be a loop that does not stop), the outer \<open>for\<close> is \<open>name_columns\<close>. The names
  are distinct already, so the \<open>dedup_names\<close> pass that pandas' Python layer may apply
  afterwards changes nothing and is not modelled.
\<close>

definition unnamed :: "nat \<Rightarrow> string \<Rightarrow> string" where
  "unnamed i name = (if name = [] then ''Unnamed: '' @ py_str_int (int i) else name)"

definition count_of :: "(string \<times> nat) list \<Rightarrow> string \<Rightarrow> nat" where
  "count_of counts name = (case map_of counts name of Some k \<Rightarrow> k | None \<Rightarrow> 0)"

definition col_loop_order :: "string list \<Rightarrow> nat list" where
  "col_loop_order h = filter (\<lambda>i. h ! i \<noteq> []) [0..<length h] @ filter (\<lambda>i. h ! i = []) [0..<length h]"

definition rename_step ::
  "string list \<Rightarrow> string \<Rightarrow> (string \<times> nat) list \<times> string \<times> nat \<Rightarrow> (string \<times> nat) list \<times> string \<times> nat" where
  "rename_step this_header old_col = (\<lambda>(counts, col, cur_count).
     let counts' = (old_col, cur_count + 1) # counts;
         col' = old_col @ CHR ''.'' # py_str_int (int cur_count)
     in if col' \<in> set this_header then (counts', col', cur_count + 1)
        else (counts', col', count_of counts' col'))"

definition rename_loop ::
  "string list \<Rightarrow> (string \<times> nat) list \<Rightarrow> string \<Rightarrow> ((string \<times> nat) list \<times> string \<times> nat) option" where
  "rename_loop this_header counts old_col =
     while_option (\<lambda>(_, _, cur_count). 0 < cur_count) (rename_step this_header old_col)
       (counts, old_col, count_of counts old_col)"

fun name_columns :: "nat list \<Rightarrow> string list \<Rightarrow> (string \<times> nat) list \<Rightarrow> string list option" where
  "name_columns [] this_header counts = Some this_header"
| "name_columns (i # is) this_header counts =
     (case rename_loop this_header counts (this_header ! i) of
        None \<Rightarrow> None
      | Some (counts', col, cur_count) \<Rightarrow>
          name_columns is (this_header[i := col]) ((col, cur_count + 1) # counts'))"

definition header_labels :: "string list \<Rightarrow> string list" where
  "header_labels h = map (\<lambda>(i, name). unnamed i name) (zip [0..<length h] h)"

text \<open>The loop always stops (C27), so \<open>the\<close> never meets \<open>None\<close>.\<close>

definition header_names :: "string list \<Rightarrow> string list" where
  "header_names h = the (name_columns (col_loop_order h) (header_labels h) [])"

subsection \<open>Reading: cell values\<close>

definition na_strings :: "string list" where
  "na_strings = ['''', ''#N/A'', ''#N/A N/A'', ''#NA'', ''-1.#IND'', ''-1.#QNAN'', ''-NaN'', ''-nan'',
     ''1.#IND'', ''1.#QNAN'', ''<NA>'', ''N/A'', ''NA'', ''NULL'', ''NaN'', ''None'', ''n/a'', ''nan'',
     ''null'']"

definition c_isspace :: "char \<Rightarrow> bool" where
  "c_isspace c \<longleftrightarrow> c = CHR '' '' \<or> (CHR 0x09 \<le> c \<and> c \<le> CHR 0x0D)"

definition c_strip :: "string \<Rightarrow> string" where
  "c_strip s = rev (dropWhile c_isspace (rev (dropWhile c_isspace s)))"

definition sign_split :: "string \<Rightarrow> int \<times> string" where
  "sign_split s = (case s of c # r \<Rightarrow>
       if c = CHR ''-'' then (-1, r) else if c = CHR ''+'' then (1, r) else (1, s)
     | [] \<Rightarrow> (1, s))"

definition digits_int :: "string \<Rightarrow> int option" where
  "digits_int ds = (if ds \<noteq> [] \<and> list_all py_isdecimal ds then Some (int (digits_val ds)) else None)"

definition parse_c_int :: "string \<Rightarrow> int option" where
  "parse_c_int s =
     (let (sg, ds) = sign_split (c_strip s) in
      case digits_int ds of
        Some v \<Rightarrow> if - (2 ^ 63) \<le> sg * v \<and> sg * v < 2 ^ 63 then Some (sg * v) else None
      | None \<Rightarrow> None)"

definition parse_exponent :: "string \<Rightarrow> int option" where
  "parse_exponent s = (let (sg, ds) = sign_split s in map_option (\<lambda>v. sg * v) (digits_int ds))"

definition parse_c_float :: "string \<Rightarrow> (int \<times> int) option" where
  "parse_c_float s =
     (let (sg, u) = sign_split (c_strip s);
          ip = takeWhile py_isdecimal u; r1 = dropWhile py_isdecimal u;
          (fp, r2) = (case r1 of c # r \<Rightarrow>
                        if c = CHR ''.'' then (takeWhile py_isdecimal r, dropWhile py_isdecimal r)
                        else ([], r1)
                      | [] \<Rightarrow> ([], []));
          ex = (case r2 of [] \<Rightarrow> Some 0
                | c # r \<Rightarrow> if c = CHR ''e'' \<or> c = CHR ''E'' then parse_exponent r else None)
      in if ip @ fp = [] then None
         else map_option (\<lambda>x. (sg * int (digits_val (ip @ fp)), x - int (length fp))) ex)"

definition float_cell :: "string \<Rightarrow> pyval" where
  "float_cell s =
     (if s \<in> set na_strings then PNaN
      else case parse_c_float s of Some (m, e) \<Rightarrow> PFloat m e | None \<Rightarrow> PNaN)"

definition infer_column :: "string list \<Rightarrow> pyval list" where
  "infer_column ss =
     (if list_all (\<lambda>s. parse_c_int s \<noteq> None) ss
      then map (\<lambda>s. case parse_c_int s of Some i \<Rightarrow> PInt i | None \<Rightarrow> PNaN) ss
      else if list_all (\<lambda>s. s \<in> set na_strings \<or> parse_c_float s \<noteq> None) ss
      then map float_cell ss
      else map (\<lambda>s. if s \<in> set na_strings then PNaN else PStr s) ss)"

definition field_at :: "nat \<Rightarrow> string list \<Rightarrow> string" where
  "field_at i r = (if i < length r then r ! i else [])"

definition read_csv :: "string \<Rightarrow> frame py_result" where
  "read_csv text =
     (case csv_records text of
        None \<Rightarrow> Inl ParserError
      | Some [] \<Rightarrow> Inl EmptyDataError
      | Some (h # rows) \<Rightarrow>
          if list_ex (\<lambda>r. length h < length r) rows then Inl ParserError
          else Inr (zip (header_names h)
                        (map (\<lambda>i. infer_column (map (field_at i) rows)) [0..<length h])))"

subsection \<open>Writing\<close>

fun csv_cell :: "pyval \<Rightarrow> string" where
  "csv_cell (PStr s) = s"
| "csv_cell PNaN = []"
| "csv_cell (PInt i) = py_str_int i"
| "csv_cell (PFloat m e) = float_repr m e"

definition frame_rows :: "frame \<Rightarrow> string list list" where
  "frame_rows df = map (\<lambda>i. map (\<lambda>(_, col). csv_cell (col ! i)) df) [0..<nrows df]"

definition to_csv :: "frame \<Rightarrow> string" where
  "to_csv df = csv_text (map fst df # frame_rows df)"

subsection \<open>Files\<close>

type_synonym fs = "string \<Rightarrow> string option"

definition read_csv_file :: "fs \<Rightarrow> string \<Rightarrow> frame py_result" where
  "read_csv_file files path = (case files path of None \<Rightarrow> Inl FileNotFoundError | Some t \<Rightarrow> read_csv t)"

definition load_data :: "fs \<Rightarrow> string \<Rightarrow> frame py_result" where
  "load_data files output_path = read_csv_file files output_path"

text \<open>
  \<open>os.path.splitext\<close> as \<open>genericpath._splitext\<close> with Windows separators (the
  configured path is a Windows path): the extension starts at the last dot after the last
  separator, unless the file name up to that dot is only dots.
\<close>

definition rfind :: "(char \<Rightarrow> bool) \<Rightarrow> string \<Rightarrow> int" where
  "rfind P p = (case first_index P (rev p) of None \<Rightarrow> -1 | Some k \<Rightarrow> int (length p) - 1 - int k)"

definition splitext :: "string \<Rightarrow> string \<times> string" where
  "splitext p =
     (let sep_index = rfind (\<lambda>c. c = CHR 0x5C \<or> c = CHR ''/'') p;
          dot_index = rfind (\<lambda>c. c = CHR ''.'') p
      in if sep_index < dot_index \<and>
            list_ex (\<lambda>c. c \<noteq> CHR ''.'') (take (nat (dot_index - (sep_index + 1))) (drop (nat (sep_index + 1)) p))
         then (take (nat dot_index) p, drop (nat dot_index) p)
         else (p, []))"

definition processed_path :: "string \<Rightarrow> string" where
  "processed_path p = fst (splitext p) @ ''_processed.csv''"

definition normalize_frame :: "frame \<Rightarrow> frame" where
  "normalize_frame df =
     zip (process_header (map fst df)) (map (\<lambda>(_, col). map (\<lambda>v. PStr (process_cell v)) col) df)"

text \<open>\<open>process_table\<close>: every exception of the body is caught and reported as \<open>None\<close>.\<close>

definition process_table :: "fs \<Rightarrow> string \<Rightarrow> string option \<times> fs" where
  "process_table files path =
     (case read_csv_file files path of
        Inl _ \<Rightarrow> (None, files)
      | Inr df \<Rightarrow>
          let output_path = processed_path path
          in (Some output_path, files(output_path \<mapsto> to_csv (normalize_frame df))))"

subsection \<open>Lemmas: paths\<close>

lemma rfind_nth:
  assumes "0 \<le> rfind P p"
  shows "nat (rfind P p) < length p \<and> P (p ! nat (rfind P p))"
proof -
  obtain k where k: "first_index P (rev p) = Some k"
    using assms by (cases "first_index P (rev p)") (auto simp: rfind_def)
  then have kl: "k < length p" and pk: "P (rev p ! k)" by (auto simp: first_index_Some_iff)
  have r: "nat (rfind P p) = length p - 1 - k" using k kl by (simp add: rfind_def)
  show ?thesis using kl pk by (simp add: r rev_nth)
qed

lemma splitext_append: "fst (splitext p) @ snd (splitext p) = p"
  by (simp add: splitext_def Let_def)

lemma splitext_ext: "snd (splitext p) = [] \<or> hd (snd (splitext p)) = CHR ''.''"
proof -
  let ?s = "rfind (\<lambda>c. c = CHR 0x5C \<or> c = CHR ''/'') p" and ?d = "rfind (\<lambda>c. c = CHR ''.'') p"
  have s: "-1 \<le> ?s" by (auto simp: rfind_def dest: first_index_lt split: option.split)
  show ?thesis
  proof (cases "?s < ?d")
    case True
    then have "0 \<le> ?d" using s by simp
    from rfind_nth [OF this] have "nat ?d < length p" "p ! nat ?d = CHR ''.''" by auto
    then show ?thesis by (auto simp: splitext_def Let_def hd_drop_conv_nth)
  qed (simp add: splitext_def Let_def)
qed

lemma processed_path_new: "processed_path p \<noteq> p"
proof
  assume eq: "processed_path p = p"
  let ?r = "fst (splitext p)" and ?e = "snd (splitext p)"
  have "?r @ ''_processed.csv'' = ?r @ ?e" using eq splitext_append [of p] by (simp add: processed_path_def)
  then have "?e = ''_processed.csv''" by simp
  with splitext_ext [of p] show False by simp
qed

lemma process_table_cases:
  "process_table files path =
     (case read_csv_file files path of
        Inl _ \<Rightarrow> (None, files)
      | Inr df \<Rightarrow> (Some (processed_path path), files(processed_path path \<mapsto> to_csv (normalize_frame df))))"
  by (simp add: process_table_def Let_def split: sum.split)

subsection \<open>Lemmas: column labels\<close>

lemma count_of_Nil [simp]: "count_of [] x = 0"
  by (simp add: count_of_def)

lemma count_of_Cons [simp]: "count_of ((c, k) # cs) x = (if x = c then k else count_of cs x)"
  by (simp add: count_of_def)

lemma suffixed_label_inj: "inj (\<lambda>k :: nat. old @ CHR ''.'' # py_str_int (int k))"
proof (rule injI)
  fix j k :: nat
  assume "old @ CHR ''.'' # py_str_int (int j) = old @ CHR ''.'' # py_str_int (int k)"
  then have "py_int (py_str_int (int j)) = py_int (py_str_int (int k))" by simp
  then show "j = k" by (simp add: py_int_py_str_int)
qed

lemma rename_loop_zero:
  "count_of counts old = 0 \<Longrightarrow> rename_loop H counts old = Some (counts, old, 0)"
  unfolding rename_loop_def by (subst while_option_unfold) simp

lemma rename_loop_once:
  assumes "0 < count_of counts old"
    and "old @ CHR ''.'' # py_str_int (int (count_of counts old)) \<notin> set H"
    and "count_of counts (old @ CHR ''.'' # py_str_int (int (count_of counts old))) = 0"
  shows "rename_loop H counts old =
           Some ((old, count_of counts old + 1) # counts, old @ CHR ''.'' # py_str_int (int (count_of counts old)), 0)"
  unfolding rename_loop_def
  by (subst while_option_unfold, simp add: assms(1), subst while_option_unfold)
     (simp add: rename_step_def Let_def assms)

text \<open>
  The inner loop stops: while it runs, the candidates \<open>old_col.k\<close> with \<open>k \<ge> cur_count\<close>
  that are labels get fewer, and once a candidate is not a label its count is 0, because
  every counted name is a label. It leaves the set of counted names as it was and, when
  it ran, returns a name that is not a label.
\<close>

lemma rename_loop_Some:
  assumes old: "old \<in> set H" and keys: "\<forall>k. 0 < count_of counts k \<longrightarrow> k \<in> set H"
  shows "\<exists>counts' col. rename_loop H counts old = Some (counts', col, 0) \<and>
           (\<forall>k. (0 < count_of counts' k) = (0 < count_of counts k)) \<and>
           (if count_of counts old = 0 then col = old \<and> counts' = counts else col \<notin> set H)"
proof (cases "count_of counts old = 0")
  case True
  then show ?thesis by (simp add: rename_loop_zero)
next
  case False
  let ?b = "\<lambda>(_ :: (string \<times> nat) list, _ :: string, cur :: nat). 0 < cur"
  let ?g = "\<lambda>k :: nat. old @ CHR ''.'' # py_str_int (int k)"
  let ?S = "\<lambda>cur. {k. cur \<le> k \<and> ?g k \<in> set H}"
  let ?P = "\<lambda>(c, col, cur). (\<forall>k. (0 < count_of c k) = (0 < count_of counts k)) \<and> (0 < cur \<or> col \<notin> set H)"
  let ?f = "\<lambda>(_ :: (string \<times> nat) list, _ :: string, cur). if cur = 0 then 0 else Suc (card (?S cur))"
  have fin: "finite (?S cur)" for cur
    by (rule finite_subset [OF _ finite_vimageI [OF finite_set suffixed_label_inj]]) auto
  have step: "?P (rename_step H old st) \<and> ?f (rename_step H old st) < ?f st" if "?P st" and "?b st" for st
  proof -
    obtain c col cur where st: "st = (c, col, cur)" by (cases st)
    from that st have pos: "\<forall>k. (0 < count_of c k) = (0 < count_of counts k)" and cur: "0 < cur" by auto
    have pos': "\<forall>k. (0 < count_of ((old, cur + 1) # c) k) = (0 < count_of counts k)"
      using pos False by auto
    show ?thesis
    proof (cases "?g cur \<in> set H")
      case True
      then have "cur \<in> ?S cur - ?S (Suc cur)" by simp
      moreover have "?S (Suc cur) \<subseteq> ?S cur" by auto
      ultimately have "?S (Suc cur) \<subset> ?S cur" by blast
      then have "card (?S (Suc cur)) < card (?S cur)" by (rule psubset_card_mono [OF fin])
      then show ?thesis using True pos' cur by (simp add: st rename_step_def Let_def)
    next
      case False
      have "\<not> 0 < count_of c (?g cur)" using pos keys False by blast
      then show ?thesis using False pos' cur by (simp add: st rename_step_def Let_def)
    qed
  qed
  have start: "?P (counts, old, count_of counts old)" using False by simp
  obtain t where t: "while_option ?b (rename_step H old) (counts, old, count_of counts old) = Some t"
    using measure_while_option_Some [where P = ?P and f = ?f, OF step start] by blast
  have "?P t" by (rule while_option_rule [where P = ?P, OF conjunct1 [OF step] t start])
  moreover have "\<not> ?b t" by (rule while_option_stop [OF t])
  moreover obtain c col cur where "t = (c, col, cur)" by (cases t)
  ultimately show ?thesis using t False by (auto simp: rename_loop_def)
qed

text \<open>
  The outer loop: the columns already visited carry distinct names, each counted, and
  every counted name is the name of a visited column.
\<close>

lemma name_columns_ok:
  assumes "distinct is" and "set is \<subseteq> {..<length H}"
    and "\<forall>k. 0 < count_of counts k \<longrightarrow> (\<exists>p < length H. p \<notin> set is \<and> H ! p = k)"
    and "\<forall>p < length H. p \<notin> set is \<longrightarrow> 0 < count_of counts (H ! p)"
    and "\<forall>p < length H. \<forall>q < length H. p \<notin> set is \<longrightarrow> q \<notin> set is \<longrightarrow> p \<noteq> q \<longrightarrow> H ! p \<noteq> H ! q"
  shows "\<exists>H'. name_columns is H counts = Some H' \<and> length H' = length H \<and> distinct H'"
  using assms
proof (induction "is" arbitrary: H counts)
  case Nil
  then show ?case by (auto simp: distinct_conv_nth)
next
  case (Cons i "is")
  have i: "i < length H" and ni: "i \<notin> set is" using Cons.prems(1,2) by auto
  have keys: "\<forall>k. 0 < count_of counts k \<longrightarrow> k \<in> set H" using Cons.prems(3) by (metis nth_mem)
  obtain counts' col where loop: "rename_loop H counts (H ! i) = Some (counts', col, 0)"
    and pos: "\<forall>k. (0 < count_of counts' k) = (0 < count_of counts k)"
    and new: "if count_of counts (H ! i) = 0 then col = H ! i \<and> counts' = counts else col \<notin> set H"
    using rename_loop_Some [OF nth_mem [OF i] keys] by blast
  have fresh: "col \<noteq> H ! q" if "q < length H" "q \<notin> set (i # is)" for q
  proof (cases "count_of counts (H ! i) = 0")
    case True
    moreover have "0 < count_of counts (H ! q)" using Cons.prems(4) that by blast
    ultimately show ?thesis using new by auto
  next
    case False
    then show ?thesis using new nth_mem [OF that(1)] by auto
  qed
  let ?H = "H[i := col]" and ?c = "(col, 1) # counts'"
  have "\<exists>H'. name_columns is ?H ?c = Some H' \<and> length H' = length ?H \<and> distinct H'"
  proof (rule Cons.IH)
    show "distinct is" "set is \<subseteq> {..<length ?H}" using Cons.prems(1,2) by auto
    show "\<forall>k. 0 < count_of ?c k \<longrightarrow> (\<exists>p < length ?H. p \<notin> set is \<and> ?H ! p = k)"
    proof (intro allI impI)
      fix k assume k: "0 < count_of ?c k"
      show "\<exists>p < length ?H. p \<notin> set is \<and> ?H ! p = k"
      proof (cases "k = col")
        case True
        then show ?thesis using i ni by (intro exI [of _ i]) simp
      next
        case False
        then have "0 < count_of counts k" using k pos by simp
        then obtain p where "p < length H" "p \<notin> set (i # is)" "H ! p = k" using Cons.prems(3) by blast
        then show ?thesis by (intro exI [of _ p]) auto
      qed
    qed
    show "\<forall>p < length ?H. p \<notin> set is \<longrightarrow> 0 < count_of ?c (?H ! p)"
    proof (intro allI impI)
      fix p assume p: "p < length ?H" "p \<notin> set is"
      show "0 < count_of ?c (?H ! p)"
      proof (cases "p = i")
        case False
        with p Cons.prems(4) have "0 < count_of counts (H ! p)" by simp
        with False pos show ?thesis by simp
      qed (simp add: i)
    qed
    show "\<forall>p < length ?H. \<forall>q < length ?H. p \<notin> set is \<longrightarrow> q \<notin> set is \<longrightarrow> p \<noteq> q \<longrightarrow> ?H ! p \<noteq> ?H ! q"
    proof (intro allI impI)
      fix p q assume pq: "p < length ?H" "q < length ?H" "p \<notin> set is" "q \<notin> set is" "p \<noteq> q"
      show "?H ! p \<noteq> ?H ! q"
      proof (cases "p = i \<or> q = i")
        case True
        then show ?thesis using pq fresh [of p] fresh [of q] by (auto simp: nth_list_update)
      next
        case False
        then show ?thesis using pq Cons.prems(5) by simp
      qed
    qed
  qed
  with loop show ?case by simp
qed

text \<open>Names that are distinct already are all kept: no count is ever positive on arrival.\<close>

lemma name_columns_id:
  assumes "distinct H" and "distinct is" and "set is \<subseteq> {..<length H}"
    and "\<forall>k. 0 < count_of counts k \<longrightarrow> (\<exists>p < length H. p \<notin> set is \<and> H ! p = k)"
  shows "name_columns is H counts = Some H"
  using assms(2-4)
proof (induction "is" arbitrary: counts)
  case (Cons i "is")
  have i: "i < length H" "i \<notin> set is" using Cons.prems(1,2) by auto
  have "count_of counts (H ! i) = 0"
  proof (rule ccontr)
    assume "count_of counts (H ! i) \<noteq> 0"
    then obtain p where "p < length H" "p \<notin> set (i # is)" "H ! p = H ! i" using Cons.prems(3) by blast
    with assms(1) i(1) show False by (auto simp: nth_eq_iff_index_eq)
  qed
  then have loop: "rename_loop H counts (H ! i) = Some (counts, H ! i, 0)" by (rule rename_loop_zero)
  have keys: "\<forall>k. 0 < count_of ((H ! i, 1) # counts) k \<longrightarrow> (\<exists>p < length H. p \<notin> set is \<and> H ! p = k)"
  proof (intro allI impI)
    fix k assume k: "0 < count_of ((H ! i, 1) # counts) k"
    show "\<exists>p < length H. p \<notin> set is \<and> H ! p = k"
    proof (cases "k = H ! i")
      case False
      with k have "0 < count_of counts k" by simp
      then obtain p where "p < length H" "p \<notin> set (i # is)" "H ! p = k" using Cons.prems(3) by blast
      then show ?thesis by auto
    qed (use i in blast)
  qed
  have "name_columns is H ((H ! i, 1) # counts) = Some H"
    by (rule Cons.IH) (use Cons.prems keys in auto)
  with loop show ?case by simp
qed simp

lemma col_loop_order_perm: "distinct (col_loop_order h) \<and> set (col_loop_order h) = {..<length h}"
  by (auto simp: col_loop_order_def)

lemma length_header_labels [simp]: "length (header_labels h) = length h"
  by (simp add: header_labels_def)

lemma header_names_props:
  "name_columns (col_loop_order h) (header_labels h) [] = Some (header_names h) \<and>
   length (header_names h) = length h \<and> distinct (header_names h)"
proof -
  have "\<exists>H'. name_columns (col_loop_order h) (header_labels h) [] = Some H' \<and>
          length H' = length (header_labels h) \<and> distinct H'"
    by (rule name_columns_ok) (use col_loop_order_perm [of h] in auto)
  then show ?thesis by (auto simp: header_names_def)
qed

lemma header_names_distinct: "distinct (header_names h)"
  using header_names_props by blast

lemma length_header_names: "length (header_names h) = length h"
  using header_names_props by blast

lemma header_names_id:
  assumes "distinct h" and "[] \<notin> set h"
  shows "header_names h = h"
proof -
  have "length js = length h \<Longrightarrow> map (\<lambda>(i, name). unnamed i name) (zip js h) = h" for js
    using assms(2) by (induction h arbitrary: js) (auto simp: unnamed_def length_Suc_conv)
  then have lab: "header_labels h = h" by (simp add: header_labels_def)
  have "name_columns (col_loop_order h) h [] = Some h"
    by (rule name_columns_id) (use assms(1) col_loop_order_perm [of h] in auto)
  then show ?thesis by (simp add: header_names_def lab)
qed

subsection \<open>Lemmas: what \<open>load_data\<close> reads back\<close>

lemma length_process_header [simp]: "length (process_header h) = length h"
  by (simp add: process_header_def)

lemma csv_row_ok_two: "2 \<le> length r \<Longrightarrow> csv_row_ok r"
  by (cases r rule: join_fields.cases) (auto simp: csv_row_ok_def)

lemma csv_cell_PStr_comp [simp]: "csv_cell \<circ> (\<lambda>v. PStr (f v)) = f"
  by (rule ext) simp

lemma frame_rows_length: "length (frame_rows df) = nrows df"
  by (simp add: frame_rows_def)

lemma frame_rows_width: "r \<in> set (frame_rows df) \<Longrightarrow> length r = length df"
  by (auto simp: frame_rows_def)

lemma frame_rows_column:
  assumes rect: "\<forall>c \<in> set df. length (snd c) = nrows df" and i: "i < length df"
  shows "map (field_at i) (frame_rows df) = map csv_cell (snd (df ! i))"
proof -
  have len: "length (snd (df ! i)) = nrows df" using rect i by simp
  show ?thesis
    by (rule nth_equalityI) (simp_all add: frame_rows_def field_at_def i len case_prod_beta)
qed

lemma read_csv_text:
  assumes ok: "\<forall>r \<in> set (h # rows). csv_row_ok r" and len: "\<forall>r \<in> set rows. length r = length h"
  shows "read_csv (csv_text (h # rows)) =
           Inr (zip (header_names h) (map (\<lambda>i. infer_column (map (field_at i) rows)) [0..<length h]))"
proof -
  have "csv_records (csv_text (h # rows)) = Some (h # rows)"
    using text_run [OF ok, of "[]"] by (simp add: csv_records_def tok_init_def tok_finish_def)
  moreover have "\<not> list_ex (\<lambda>r. length h < length r) rows" using len by (auto simp: list_ex_iff)
  ultimately show ?thesis by (simp add: read_csv_def)
qed

lemma normalize_frame_parts:
  "map fst (normalize_frame df) = process_header (map fst df)"
  "map snd (normalize_frame df) = map (\<lambda>(_, col). map (\<lambda>v. PStr (process_cell v)) col) df"
  "length (normalize_frame df) = length df"
  by (simp_all add: normalize_frame_def)

lemma normalize_frame_rect:
  assumes "\<forall>c \<in> set df. length (snd c) = nrows df"
  shows "\<forall>c \<in> set (normalize_frame df). length (snd c) = nrows (normalize_frame df)"
proof (cases df)
  case (Cons d ds)
  have "nrows (normalize_frame df) = nrows df"
    using Cons by (simp add: normalize_frame_def nrows_def process_header_def case_prod_beta)
  moreover have "length (snd c) = nrows df" if c: "c \<in> set (normalize_frame df)" for c
  proof -
    have "snd c \<in> set (map snd (normalize_frame df))" using c by simp
    then obtain d where "d \<in> set df" "snd c = map (\<lambda>v. PStr (process_cell v)) (snd d)"
      by (auto simp: normalize_frame_parts(2) case_prod_beta)
    then show ?thesis using assms by simp
  qed
  ultimately show ?thesis by simp
qed (simp add: normalize_frame_def)

lemma load_processed_frame:
  assumes rect: "\<forall>c \<in> set df. length (snd c) = nrows df" and two: "2 \<le> length df"
  shows "read_csv (to_csv (normalize_frame df)) =
           Inr (zip (header_names (process_header (map fst df)))
                    (map (\<lambda>(_, col). infer_column (map process_cell col)) df))"
proof -
  let ?n = "normalize_frame df"
  have rect': "\<forall>c \<in> set ?n. length (snd c) = nrows ?n" by (rule normalize_frame_rect [OF rect])
  have len: "length (map fst ?n) = length df" by (simp add: normalize_frame_parts(3))
  have ok: "\<forall>r \<in> set (map fst ?n # frame_rows ?n). csv_row_ok r"
    using two len by (auto intro: csv_row_ok_two simp: frame_rows_width normalize_frame_parts(3))
  have width: "\<forall>r \<in> set (frame_rows ?n). length r = length (map fst ?n)"
    by (simp add: frame_rows_width)
  have cols: "map (\<lambda>i. infer_column (map (field_at i) (frame_rows ?n))) [0..<length (map fst ?n)] =
              map (\<lambda>(_, col). infer_column (map process_cell col)) df"
  proof (rule nth_equalityI)
    fix i assume "i < length (map (\<lambda>i. infer_column (map (field_at i) (frame_rows ?n))) [0..<length (map fst ?n)])"
    then have i: "i < length df" using len by simp
    have "snd (?n ! i) = map (\<lambda>v. PStr (process_cell v)) (snd (df ! i))"
      using nth_map [of i "normalize_frame df" snd] i
      by (simp add: normalize_frame_parts(2,3) case_prod_beta)
    then show "map (\<lambda>i. infer_column (map (field_at i) (frame_rows ?n))) [0..<length (map fst ?n)] ! i =
               map (\<lambda>(_, col). infer_column (map process_cell col)) df ! i"
      using frame_rows_column [OF rect'] i len by (simp add: normalize_frame_parts(3) case_prod_beta)
  qed (simp add: normalize_frame_parts(3))
  show ?thesis
    using read_csv_text [OF ok width] cols by (simp add: to_csv_def normalize_frame_parts(1))
qed

subsection \<open>Lemmas: integers in the CSV\<close>

lemma decimal_not_c_isspace [simp]: "py_isdecimal c \<Longrightarrow> \<not> c_isspace c"
  by (auto simp: py_isdecimal_of_char c_isspace_def less_eq_char_def)

lemma digit_val_lt: "py_isdecimal c \<Longrightarrow> digit_val c < 10"
  by (auto simp: py_isdecimal_of_char digit_val_def)

lemma digits_val_lt: "list_all py_isdecimal s \<Longrightarrow> digits_val s < 10 ^ length s"
proof (induction s rule: rev_induct)
  case (snoc c s)
  then have "digits_val s + 1 \<le> 10 ^ length s" "digit_val c < 10" by (auto simp: digit_val_lt)
  then show ?case by simp
qed (simp add: digits_val_def)

lemma parse_c_int_decimal:
  assumes "s \<noteq> []" and "list_all py_isdecimal s" and "digits_val s < 2 ^ 63"
  shows "parse_c_int s = Some (int (digits_val s))"
proof -
  have nd: "\<forall>x \<in> set s. \<not> c_isspace x" using assms(2) by (auto simp: list_all_iff)
  have "\<not> c_isspace (hd s)" "\<not> c_isspace (last s)" using nd assms(1) by simp_all
  then have d1: "dropWhile c_isspace s = s" and d2: "dropWhile c_isspace (rev s) = rev s"
    using assms(1) by (simp_all add: dropWhile_eq_self_iff hd_rev)
  have strip: "c_strip s = s" by (simp add: c_strip_def d1 d2)
  have hd: "py_isdecimal (hd s)" using assms(1,2) by (simp add: list_all_iff)
  then have "hd s \<noteq> CHR ''-''" "hd s \<noteq> CHR ''+''" by (auto simp: py_isdecimal_def)
  then have "sign_split s = (1, s)" using assms(1) by (cases s) (auto simp: sign_split_def)
  moreover have "int (digits_val s) < 2 ^ 63" using assms(3) by (simp add: of_nat_less_iff [symmetric])
  ultimately show ?thesis using assms(1,2) strip by (simp add: parse_c_int_def digits_int_def)
qed

lemma length_infer_column [simp]: "length (infer_column ss) = length ss"
  by (simp add: infer_column_def)

subsection \<open>Lemmas: the derived file always reads back\<close>

lemma read_csv_shape:
  assumes "read_csv text = Inr df"
  shows "df \<noteq> [] \<and> wf_frame df"
proof -
  obtain h rows where recs: "csv_records text = Some (h # rows)"
    and df: "df = zip (header_names h) (map (\<lambda>i. infer_column (map (field_at i) rows)) [0..<length h])"
    using assms by (auto simp: read_csv_def split: option.splits list.splits if_splits)
  have "h \<noteq> []" using csv_records_ne [OF recs] by simp
  moreover have "length df = length h" using df by (simp add: length_header_names)
  ultimately have ne: "df \<noteq> []" by auto
  have fst: "map fst df = header_names h" using df by (simp add: length_header_names)
  have len: "\<forall>c \<in> set df. length (snd c) = length rows" using df by (auto dest!: set_zip_rightD)
  with ne have "nrows df = length rows" by (cases df) (auto simp: nrows_def)
  with ne len fst header_names_distinct [of h] show ?thesis by (simp add: wf_frame_def)
qed

lemma is_ws_isspace: "is_ws c \<Longrightarrow> py_isspace c"
  by (auto simp: is_ws_def py_isspace_def)

lemma process_header_row_ok:
  assumes "h \<noteq> []"
  shows "csv_row_ok (process_header h)"
proof (cases "2 \<le> length h")
  case True
  then show ?thesis by (intro csv_row_ok_two) simp
next
  case False
  with assms obtain l where h: "h = [l]" by (cases h rule: join_fields.cases) auto
  let ?s = "py_strip (py_replace l ''00:00:00'' '''')"
  have "?s = [] \<or> \<not> py_isspace (hd ?s)" using py_strip_ends [of "py_replace l ''00:00:00'' ''''"] by auto
  then have "?s = [] \<or> \<not> list_all is_ws ?s" by (cases ?s) (auto dest: is_ws_isspace)
  then show ?thesis by (simp add: h process_header_def csv_row_ok_def)
qed

lemma reload_normalized_ok:
  assumes ne: "df \<noteq> []" and rect: "\<forall>c \<in> set df. length (snd c) = nrows df"
  shows "\<exists>df'. read_csv (to_csv (normalize_frame df)) = Inr df'"
proof -
  let ?n = "normalize_frame df"
  let ?H = "map fst ?n" and ?rows = "frame_rows ?n"
  have H: "?H = process_header (map fst df)" by (simp add: normalize_frame_parts(1))
  have lenH: "length ?H = length df" by (simp add: normalize_frame_parts(3))
  have width: "\<forall>r \<in> set ?rows. length r = length ?H" by (simp add: frame_rows_width)
  have ok: "csv_row_ok ?H" using ne H process_header_row_ok [of "map fst df"] by simp
  have "\<forall>r \<in> set (?H # ?rows). r \<noteq> []" using width lenH ne by auto
  then have "csv_records (to_csv ?n) = Some (?H # filter csv_row_ok ?rows)"
    using ok by (simp add: to_csv_def csv_records_text_filter)
  moreover have "\<not> list_ex (\<lambda>r. length ?H < length r) (filter csv_row_ok ?rows)"
    using width by (auto simp: list_ex_iff)
  ultimately show ?thesis by (simp add: read_csv_def)
qed

lemma process_table_frame:
  "process_table files path = (out, files') \<Longrightarrow> \<forall>q. q \<noteq> processed_path path \<longrightarrow> files' q = files q"
  by (auto simp: process_table_cases split: sum.splits)

subsection \<open>Properties of the loader\<close>

text \<open>
  C19. \<open>process_table\<close> writes only the derived file: every other file, the source
  included (the derived name is never the source's name), keeps its content; it returns
  a path exactly when the source could be read, and then the path of the file it wrote.
\<close>

theorem process_table_writes_only_derived:
  assumes "process_table files path = (out, files')"
  shows "(\<forall>q. q \<noteq> processed_path path \<longrightarrow> files' q = files q) \<and> files' path = files path \<and>
         (out = None \<longleftrightarrow> (\<exists>e. read_csv_file files path = Inl e)) \<and>
         (out \<noteq> None \<longrightarrow> out = Some (processed_path path))"
  using assms processed_path_new [of path]
  by (auto simp: process_table_cases split: sum.splits)

theorem process_table_writes_only_derived_witness:
  "fst (process_table (\<lambda>q. if q = ''a.csv'' then Some ''x,y\<newline>1,2\<newline>'' else None) ''a.csv'') =
     Some ''a_processed.csv'' \<and>
   snd (process_table (\<lambda>q. if q = ''a.csv'' then Some ''x,y\<newline>1,2\<newline>'' else None) ''a.csv'') ''a.csv'' =
     Some ''x,y\<newline>1,2\<newline>''"
proof -
  let ?F = "\<lambda>q. if q = ''a.csv'' then Some ''x,y\<newline>1,2\<newline>'' else None"
  have r: "read_csv_file ?F ''a.csv'' = Inr [(''x'', [PInt 1]), (''y'', [PInt 2])]"
    unfolding read_csv_file_def by simp code_simp
  have p: "processed_path ''a.csv'' = ''a_processed.csv''" by code_simp
  have h: "process_table ?F ''a.csv'' = (fst (process_table ?F ''a.csv''), snd (process_table ?F ''a.csv''))"
    by simp
  show ?thesis using process_table_writes_only_derived [OF h] r p by auto
qed

text \<open>
  C20. Every table \<open>pd.read_csv\<close> returns is well formed: its labels are distinct (empty
  labels are named, duplicates renamed) and its columns have one length, the number of
  data rows. This is the precondition of the query's correctness theorems.
\<close>

theorem read_csv_wf:
  assumes "read_csv text = Inr df"
  shows "wf_frame df"
  using read_csv_shape [OF assms] by simp

theorem read_csv_wf_witness:
  "read_csv ''a,a,\<newline>1,x,2.5\<newline>'' =
     Inr [(''a'', [PInt 1]), (''a.1'', [PStr ''x'']), (''Unnamed: 2'', [PFloat 25 (- 1)])] \<and>
   wf_frame [(''a'', [PInt 1]), (''a.1'', [PStr ''x'']), (''Unnamed: 2'', [PFloat 25 (- 1)])]"
proof -
  have r: "read_csv ''a,a,\<newline>1,x,2.5\<newline>'' =
             Inr [(''a'', [PInt 1]), (''a.1'', [PStr ''x'']), (''Unnamed: 2'', [PFloat 25 (- 1)])]"
    by code_simp
  show ?thesis using r read_csv_wf [OF r] by simp
qed

text \<open>
  C21. Header normalization followed by the reload does not give back the labels
  \<open>process_header\<close> computes when two labels normalize to the same date or a label is only
  the time: for every date \<open>d\<close> (no surrounding blanks, no \<open>00:00:00\<close> of its own), the
  header \<open>d 00:00:00, d, 00:00:00\<close> reloads as \<open>d, d.1, Unnamed: 2\<close>, so the date columns
  of the canonical table are not the normalized labels.
\<close>

theorem reload_renames_labels:
  assumes "\<not> has_sub ''00:00:00'' d" and "d \<noteq> []"
    and "\<not> py_isspace (hd d)" and "\<not> py_isspace (last d)" and "d \<noteq> ''Unnamed: 2''"
  shows "header_names (process_header [d @ '' 00:00:00'', d, ''00:00:00'']) = [d, d @ ''.1'', ''Unnamed: 2'']"
proof -
  let ?U = "''Unnamed: 2''" and ?d1 = "d @ ''.1''"
  have ph: "process_header [d @ '' 00:00:00'', d, ''00:00:00''] = [d, d, []]"
    using process_label_midnight [OF assms(1-4)] process_label_plain [OF assms(1-4)]
    by (simp add: process_header_def py_replace_def py_strip_def)
  have s1: "py_str_int 1 = ''1''" and s2: "py_str_int 2 = ''2''"
    by (simp_all add: py_str_int_def nat_digits.simps)
  have order: "col_loop_order [d, d, []] = [0, 1, 2]"
    using assms(2) by (simp add: col_loop_order_def upt_rec)
  have labels: "header_labels [d, d, []] = [d, d, ?U]"
    using assms(2) by (simp add: header_labels_def unnamed_def upt_rec s2)
  have d1: "?d1 \<noteq> d" "?d1 \<noteq> ?U"
  proof -
    show "?d1 \<noteq> d" by simp
    have "last ?d1 \<noteq> last ?U" by simp
    then show "?d1 \<noteq> ?U" by metis
  qed
  have u: "?U \<noteq> ?d1" "?U \<noteq> d" using d1 assms(5) by auto
  show ?thesis
    by (simp add: header_names_def ph order labels rename_loop_zero rename_loop_once s1 d1 u)
qed

theorem reload_renames_labels_witness:
  "header_names (process_header [''2024-01-02 00:00:00'', ''2024-01-02'', ''00:00:00''])
     = [''2024-01-02'', ''2024-01-02.1'', ''Unnamed: 2'']"
proof -
  have h: "\<not> has_sub ''00:00:00'' ''2024-01-02''" "''2024-01-02'' \<noteq> []"
    "\<not> py_isspace (hd ''2024-01-02'')" "\<not> py_isspace (last ''2024-01-02'')"
    "''2024-01-02'' \<noteq> ''Unnamed: 2''"
    by (simp_all add: py_isspace_def)
  show ?thesis using reload_renames_labels [OF h] by simp
qed

text \<open>
  C22. Normalizing and reloading: when the source reads as a rectangular table of at
  least two columns, \<open>process_table\<close> returns the derived path, and \<open>load_data\<close> on it
  returns the normalized labels (as pandas names them) with every column read again from
  its normalized strings: column order and row count are kept, and each cell is the value
  pandas infers from \<open>process_cell\<close> of the original cell.
\<close>

theorem process_table_load_data:
  assumes src: "read_csv_file files path = Inr df"
    and rect: "\<forall>c \<in> set df. length (snd c) = nrows df" and two: "2 \<le> length df"
  shows "\<exists>files'. process_table files path = (Some (processed_path path), files') \<and>
           load_data files' (processed_path path) =
             Inr (zip (header_names (process_header (map fst df)))
                      (map (\<lambda>(_, col). infer_column (map process_cell col)) df))"
  using load_processed_frame [OF rect two] src
  by (simp add: process_table_cases load_data_def read_csv_file_def)

theorem process_table_load_data_witness:
  "\<exists>files'. process_table (\<lambda>q. if q = ''a.csv'' then Some ''x,y\<newline>1,2.SH\<newline>'' else None) ''a.csv'' =
       (Some (processed_path ''a.csv''), files') \<and>
     load_data files' (processed_path ''a.csv'') =
       Inr (zip (header_names (process_header [''x'', ''y'']))
                [infer_column (map process_cell [PInt 1]), infer_column (map process_cell [PStr ''2.SH''])])"
proof -
  let ?F = "\<lambda>q. if q = ''a.csv'' then Some ''x,y\<newline>1,2.SH\<newline>'' else None"
  have r: "read_csv_file ?F ''a.csv'' = Inr [(''x'', [PInt 1]), (''y'', [PStr ''2.SH''])]"
    unfolding read_csv_file_def by simp code_simp
  have rect: "\<forall>c \<in> set [(''x'', [PInt 1]), (''y'', [PStr ''2.SH''])].
                length (snd c) = nrows [(''x'', [PInt 1]), (''y'', [PStr ''2.SH''])]"
    by (simp add: nrows_def)
  show ?thesis using process_table_load_data [OF r rect] by simp
qed

text \<open>
  C23. The identifier column becomes comparable with the user's code: a column whose
  cells all normalize to six-digit codes is read back as integers, and each integer is
  the one \<open>int()\<close> makes of the cell's six-digit code, as the query does with the code
  the user types.
\<close>

theorem loaded_codes_comparable:
  assumes "\<forall>v \<in> set col. length (process_cell v) = 6 \<and> list_all py_isdecimal (process_cell v)"
  shows "infer_column (map process_cell col) = map (\<lambda>v. PInt (int (digits_val (process_cell v)))) col \<and>
         (\<forall>v \<in> set col. py_int (process_cell v) = Some (int (digits_val (process_cell v))))"
proof -
  have p: "parse_c_int (process_cell v) = Some (int (digits_val (process_cell v)))" if "v \<in> set col" for v
  proof -
    have d: "length (process_cell v) = 6" "list_all py_isdecimal (process_cell v)" using assms that by auto
    have "digits_val (process_cell v) < 10 ^ 6" using digits_val_lt [OF d(2)] d(1) by simp
    then have "digits_val (process_cell v) < 2 ^ 63" by simp
    moreover have "process_cell v \<noteq> []" using d(1) by auto
    ultimately show ?thesis using d(2) by (simp add: parse_c_int_decimal)
  qed
  have "infer_column (map process_cell col) = map (\<lambda>v. PInt (int (digits_val (process_cell v)))) col"
    using p by (simp add: infer_column_def list_all_iff)
  moreover have "py_int (process_cell v) = Some (int (digits_val (process_cell v)))" if "v \<in> set col" for v
  proof (rule py_int_decimal)
    show "process_cell v \<noteq> []" using assms that by fastforce
    show "list_all py_isdecimal (process_cell v)" using assms that by simp
  qed
  ultimately show ?thesis by simp
qed

theorem loaded_codes_comparable_witness:
  "infer_column (map process_cell [PStr ''1.SH'', PInt 42]) = [PInt 1, PInt 42] \<and>
   py_int (process_cell (PStr ''1.SH'')) = Some 1"
proof -
  have c: "process_cell (PStr ''1.SH'') = ''000001''" "process_cell (PInt 42) = ''000042''" by code_simp+
  have h: "\<forall>v \<in> set [PStr ''1.SH'', PInt 42]. length (process_cell v) = 6 \<and> list_all py_isdecimal (process_cell v)"
    by (simp add: c py_isdecimal_def)
  show ?thesis using loaded_codes_comparable [OF h] by (simp add: c digits_val_def digit_val_def)
qed

text \<open>
  C30. When \<open>process_table\<close> succeeds, \<open>load_data\<close> on the file it wrote does not raise: the
  header it writes is always a record the reader keeps (normalized labels have no
  surrounding blanks), and no data row is longer than the header. (Rows of one blank
  cell are dropped, as C18 shows, but the read succeeds.)
\<close>

theorem process_table_reload_ok:
  assumes "process_table files path = (Some p, files')"
  shows "\<exists>df. load_data files' p = Inr df"
proof -
  obtain t raw where t: "files path = Some t" and raw: "read_csv t = Inr raw"
    using assms by (auto simp: process_table_cases read_csv_file_def split: sum.splits option.splits)
  then have p: "p = processed_path path" and f: "files' = files(p \<mapsto> to_csv (normalize_frame raw))"
    using assms by (auto simp: process_table_cases read_csv_file_def)
  from read_csv_shape [OF raw] have "raw \<noteq> []" "\<forall>c \<in> set raw. length (snd c) = nrows raw"
    by (auto simp: wf_frame_def)
  from reload_normalized_ok [OF this] show ?thesis by (simp add: f load_data_def read_csv_file_def)
qed

theorem process_table_reload_ok_witness:
  "\<exists>df. load_data (snd (process_table (\<lambda>q. if q = ''a.csv'' then Some '' x\<newline> \<newline>1\<newline>'' else None) ''a.csv''))
          ''a_processed.csv'' = Inr df"
proof -
  let ?F = "\<lambda>q. if q = ''a.csv'' then Some '' x\<newline> \<newline>1\<newline>'' else None"
  have r: "read_csv_file ?F ''a.csv'' = Inr [('' x'', [PInt 1])]"
    unfolding read_csv_file_def by simp code_simp
  have p: "processed_path ''a.csv'' = ''a_processed.csv''" by code_simp
  have h: "process_table ?F ''a.csv'' = (Some ''a_processed.csv'', snd (process_table ?F ''a.csv''))"
    using r p by (simp add: process_table_cases)
  show ?thesis by (rule process_table_reload_ok [OF h])
qed


text \<open>
  C33. When the normalized labels are distinct and none is empty, the reload keeps them:
  the table \<open>load_data\<close> reads from the derived file has exactly the labels
  \<open>process_header\<close> computed, in order.
\<close>

theorem reload_keeps_labels:
  assumes src: "read_csv_file files path = Inr df" and two: "2 \<le> length df"
    and dist: "distinct (process_header (map fst df))" and ne: "[] \<notin> set (process_header (map fst df))"
  shows "\<exists>df'. load_data (snd (process_table files path)) (processed_path path) = Inr df' \<and>
               map fst df' = process_header (map fst df)"
proof -
  have rect: "\<forall>c \<in> set df. length (snd c) = nrows df"
    using src read_csv_shape by (auto simp: read_csv_file_def wf_frame_def split: option.splits)
  let ?df' = "zip (header_names (process_header (map fst df)))
                  (map (\<lambda>(_, col). infer_column (map process_cell col)) df)"
  have "load_data (snd (process_table files path)) (processed_path path) = Inr ?df'"
  proof -
    have "process_table files path =
            (Some (processed_path path), files(processed_path path \<mapsto> to_csv (normalize_frame df)))"
      by (simp add: process_table_cases src)
    with load_processed_frame [OF rect two] show ?thesis by (simp add: load_data_def read_csv_file_def)
  qed
  moreover have "map fst ?df' = process_header (map fst df)"
    by (simp add: header_names_id [OF dist ne])
  ultimately show ?thesis by blast
qed

theorem reload_keeps_labels_witness:
  "\<exists>df'. load_data (snd (process_table [''a.csv'' \<mapsto> ''d 00:00:00,new_predict\<newline>3,1.SH\<newline>''] ''a.csv''))
                    (processed_path ''a.csv'') = Inr df' \<and> map fst df' = [''d'', ''new_predict'']"
proof -
  have src: "read_csv_file [''a.csv'' \<mapsto> ''d 00:00:00,new_predict\<newline>3,1.SH\<newline>''] ''a.csv'' =
               Inr [(''d 00:00:00'', [PInt 3]), (''new_predict'', [PStr ''1.SH''])]"
    unfolding read_csv_file_def by simp code_simp
  have ph: "process_header (map fst [(''d 00:00:00'', [PInt 3]), (''new_predict'', [PStr ''1.SH''])]) =
              [''d'', ''new_predict'']" by code_simp
  have h: "2 \<le> length [(''d 00:00:00'', [PInt 3]), (''new_predict'', [PStr ''1.SH''])]"
    "distinct (process_header (map fst [(''d 00:00:00'', [PInt 3]), (''new_predict'', [PStr ''1.SH''])]))"
    "[] \<notin> set (process_header (map fst [(''d 00:00:00'', [PInt 3]), (''new_predict'', [PStr ''1.SH''])]))"
    by (simp_all only: ph) simp_all
  show ?thesis using reload_keeps_labels [OF src h] ph by simp
qed

end
