(* ===== verification/RankQuery.thy ===== *)
theory RankQuery
  imports Frame
begin

text \<open>
  \<open>query_stock_rank\<close> (\<open>src/app.py\<close> lines 55--78). The returned pair \<open>(ranks, None)\<close> or
  \<open>(None, message)\<close> is the sum \<open>query_err + ranks\<close>, and an exception the function
  does not catch is the outer \<open>py_exc\<close>. The rank dictionary is an association list in
  insertion order (\<open>dict_set\<close> is \<open>d[k] = v\<close>). \<open>column_rank\<close> is lines 75--76: sort
  the column in descending order and take one plus the position of the first value equal
  to the target's. \<open>rank_spec\<close> is the abstract rank (one plus the number of strictly
  greater values); \<open>window\<close> is the abstract window (the \<open>n\<close> labels before the last one).
\<close>

datatype query_err = InvalidCode | CodeNotFound | TooManyDays int

type_synonym ranks = "(string \<times> int) list"

definition dict_set :: "('k \<times> 'v) list \<Rightarrow> 'k \<Rightarrow> 'v \<Rightarrow> ('k \<times> 'v) list" where
  "dict_set d k v =
     (if k \<in> set (map fst d) then map (\<lambda>(k', v'). if k' = k then (k', v) else (k', v')) d
      else d @ [(k, v)])"

definition column_rank :: "pyval list \<Rightarrow> nat \<Rightarrow> int py_result" where
  "column_rank col r =
     (case sort_values_desc col of
       Inl e \<Rightarrow> Inl e
     | Inr sorted_values \<Rightarrow>
         (case first_index (\<lambda>v. py_eq v (col ! r)) sorted_values of
           None \<Rightarrow> Inl IndexError
         | Some i \<Rightarrow> Inr (int i + 1)))"

fun rank_loop :: "frame \<Rightarrow> nat \<Rightarrow> string list \<Rightarrow> ranks \<Rightarrow> ranks py_result" where
  "rank_loop df r [] acc = Inr acc"
| "rank_loop df r (c # cs) acc =
     (case get_col df c of
       Inl e \<Rightarrow> Inl e
     | Inr col \<Rightarrow>
         (case column_rank col r of
           Inl e \<Rightarrow> Inl e
         | Inr k \<Rightarrow> rank_loop df r cs (dict_set acc c k)))"

definition match_rows :: "pyval list \<Rightarrow> int \<Rightarrow> nat list" where
  "match_rows ids code = filter (\<lambda>i. py_eq (ids ! i) (PInt code)) [0..<length ids]"

definition query_stock_rank :: "frame \<Rightarrow> string \<Rightarrow> int \<Rightarrow> (query_err + ranks) py_result" where
  "query_stock_rank df stock_code n_days =
     (case py_int stock_code of
       None \<Rightarrow> Inr (Inl InvalidCode)
     | Some code \<Rightarrow>
         (case get_col df ''new_predict'' of
           Inl e \<Rightarrow> Inl e
         | Inr ids \<Rightarrow>
             (let stock_row = match_rows ids code in
              if stock_row = [] then Inr (Inl CodeNotFound)
              else
                let max_days = int (length df) - 1 in
                if n_days > max_days then Inr (Inl (TooManyDays max_days))
                else
                  (case rank_loop df (hd stock_row) (py_slice (map fst df) (- n_days - 1) (- 1)) [] of
                    Inl e \<Rightarrow> Inl e
                  | Inr ranks \<Rightarrow> Inr (Inr ranks)))))"

subsection \<open>The abstract specification\<close>

definition num_gt :: "pyval \<Rightarrow> pyval \<Rightarrow> bool" where
  "num_gt v t = (case (num_val v, num_val t) of (Some a, Some b) \<Rightarrow> b < a | _ \<Rightarrow> False)"

definition rank_spec :: "pyval list \<Rightarrow> nat \<Rightarrow> int" where
  "rank_spec col r = 1 + int (length (filter (\<lambda>v. num_gt v (col ! r)) col))"

definition numeric_col :: "pyval list \<Rightarrow> bool" where
  "numeric_col col \<longleftrightarrow> list_all (\<lambda>v. is_nan v \<or> is_numeric v) col"

definition rankable :: "pyval list \<Rightarrow> nat \<Rightarrow> bool" where
  "rankable col r \<longleftrightarrow> numeric_col col \<and> r < length col \<and> is_numeric (col ! r)"

definition window :: "frame \<Rightarrow> int \<Rightarrow> string list" where
  "window df n = take (nat n) (drop (length df - 1 - nat n) (map fst df))"

subsection \<open>Lemmas on the parts of the query\<close>

lemma match_rows_first:
  assumes "first_index (\<lambda>v. py_eq v (PInt k)) ids = Some r"
  shows "match_rows ids k \<noteq> [] \<and> hd (match_rows ids k) = r"
proof -
  from assms have r: "r < length ids" "py_eq (ids ! r) (PInt k)"
    and before: "\<forall>j < r. \<not> py_eq (ids ! j) (PInt k)"
    by (simp_all add: first_index_Some_iff)
  from less_imp_Suc_add [OF r(1)] obtain m where "length ids = Suc (r + m)" by blast
  then have m: "length ids = r + Suc m" by simp
  have "[0..<r + Suc m] = [0..<r] @ [r..<r + Suc m]" by (rule upt_add_eq_append) simp
  moreover have "[r..<r + Suc m] = r # [Suc r..<r + Suc m]" by (rule upt_conv_Cons) simp
  ultimately have "[0..<length ids] = [0..<r] @ r # [Suc r..<length ids]" using m by simp
  moreover have "filter (\<lambda>i. py_eq (ids ! i) (PInt k)) [0..<r] = []"
    using before by (simp add: filter_empty_conv)
  ultimately show ?thesis using r(2) by (simp add: match_rows_def)
qed

lemma match_rows_Nil:
  "match_rows ids k = [] \<longleftrightarrow> (\<forall>v \<in> set ids. \<not> py_eq v (PInt k))"
  by (fastforce simp: match_rows_def filter_empty_conv in_set_conv_nth)

lemma num_gt_filter:
  assumes "numeric_col col" and "num_val t = Some x"
  shows "length (filter (\<lambda>y. x < num_key y) (filter (\<lambda>v. \<not> is_nan v) col))
         = length (filter (\<lambda>v. num_gt v t) col)"
proof -
  have "(\<not> is_nan v \<and> x < num_key v) = num_gt v t" if "v \<in> set col" for v
  proof -
    from that assms(1) have "is_nan v \<or> is_numeric v" by (simp add: numeric_col_def list_all_iff)
    with assms(2) show ?thesis by (cases v) (simp_all add: num_gt_def num_key_def is_numeric_def)
  qed
  then show ?thesis by (simp add: filter_filter cong: filter_cong)
qed

text \<open>The sort-based rank of the code equals the abstract rank.\<close>

lemma column_rank_spec:
  assumes "rankable col r"
  shows "column_rank col r = Inr (rank_spec col r)"
proof -
  let ?t = "col ! r"
  let ?rest = "filter (\<lambda>v. \<not> is_nan v) col"
  from assms have num: "numeric_col col" and r: "r < length col" and tn: "is_numeric ?t"
    by (simp_all add: rankable_def)
  then obtain x where x: "num_val ?t = Some x" by (auto simp: is_numeric_def)
  have "\<not> is_nan ?t" using x by (cases ?t) auto
  with nth_mem [OF r] have t_rest: "?t \<in> set ?rest" by simp
  have sv: "sort_values_desc col = Inr (rev (sort_key num_key ?rest) @ filter is_nan col)"
    using num by (intro sort_values_numeric) (simp add: numeric_col_def list_all_iff)
  have eq: "py_eq v ?t = (num_key v = x)" if "v \<in> set (rev (sort_key num_key ?rest))" for v
  proof -
    from that have "v \<in> set col" "\<not> is_nan v" by auto
    with num have "is_numeric v" by (auto simp: numeric_col_def list_all_iff)
    then have nv: "num_val v = Some (num_key v)" by (auto simp: is_numeric_def num_key_def)
    have "py_eq v ?t = py_eq ?t v" by (rule py_eq_sym)
    also have "\<dots> = (num_val v = Some x)" by (rule py_eq_num [OF x])
    finally show ?thesis using nv by simp
  qed
  have "num_key ?t = x" using x by (simp add: num_key_def)
  then have "x \<in> num_key ` set ?rest" using t_rest by blast
  then have "first_index (\<lambda>v. num_key v = x) (rev (sort_key num_key ?rest))
             = Some (length (filter (\<lambda>y. x < num_key y) ?rest))"
    by (rule first_index_rev_sort_key)
  moreover have "first_index (\<lambda>v. py_eq v ?t) (rev (sort_key num_key ?rest))
                 = first_index (\<lambda>v. num_key v = x) (rev (sort_key num_key ?rest))"
    by (rule first_index_cong) (rule eq)
  ultimately have fi: "first_index (\<lambda>v. py_eq v ?t) (rev (sort_key num_key ?rest) @ filter is_nan col)
             = Some (length (filter (\<lambda>y. x < num_key y) ?rest))"
    by (simp add: first_index_append_Some)
  have cnt: "length (filter (\<lambda>y. x < num_key y) ?rest) = length (filter (\<lambda>v. num_gt v ?t) col)"
    using num x by (rule num_gt_filter)
  show ?thesis
    unfolding column_rank_def rank_spec_def sv sum.case fi option.case cnt by simp
qed

lemma dict_set_new: "k \<notin> set (map fst d) \<Longrightarrow> dict_set d k v = d @ [(k, v)]"
  by (simp add: dict_set_def)

lemma rank_loop_spec:
  assumes "distinct cs" and "set cs \<inter> set (map fst acc) = {}"
    and "\<forall>c \<in> set cs. \<exists>col. map_of df c = Some col \<and> rankable col r"
  shows "rank_loop df r cs acc = Inr (acc @ map (\<lambda>c. (c, rank_spec (the (map_of df c)) r)) cs)"
  using assms
proof (induction cs arbitrary: acc)
  case Nil
  then show ?case by simp
next
  case (Cons c cs)
  from Cons.prems(3) obtain col where col: "map_of df c = Some col" "rankable col r" by auto
  have "rank_loop df r (c # cs) acc = rank_loop df r cs (acc @ [(c, rank_spec col r)])"
    using col Cons.prems(2) by (simp add: get_col_def column_rank_spec dict_set_new)
  also have "\<dots> = Inr ((acc @ [(c, rank_spec col r)]) @ map (\<lambda>c. (c, rank_spec (the (map_of df c)) r)) cs)"
    using Cons.prems by (intro Cons.IH) auto
  finally show ?case using col by simp
qed

lemma window_slice:
  "0 \<le> n \<Longrightarrow> n \<le> int (length df) - 1 \<Longrightarrow> py_slice (map fst df) (- n - 1) (- 1) = window df n"
  by (simp add: py_slice_window window_def)

lemma window_distinct: "wf_frame df \<Longrightarrow> distinct (window df n)"
  by (simp add: window_def wf_frame_def distinct_take distinct_drop)

lemma window_length: "0 \<le> n \<Longrightarrow> n \<le> int (length df) - 1 \<Longrightarrow> length (window df n) = nat n"
  by (simp add: window_def)

lemma window_subset: "set (window df n) \<subseteq> set (map fst df)"
proof
  fix c assume "c \<in> set (window df n)"
  then have "c \<in> set (drop (length df - 1 - nat n) (map fst df))"
    unfolding window_def by (rule in_set_takeD)
  then show "c \<in> set (map fst df)" by (rule in_set_dropD)
qed

text \<open>The successful query, as a shared lemma for the properties below.\<close>

lemma query_ok:
  assumes wf: "wf_frame df" and code: "py_int stock_code = Some k"
    and ids: "map_of df ''new_predict'' = Some ids"
    and row: "first_index (\<lambda>v. py_eq v (PInt k)) ids = Some r"
    and n: "0 \<le> n" "n \<le> int (length df) - 1"
    and num: "\<forall>c \<in> set (window df n). rankable (the (map_of df c)) r"
  shows "query_stock_rank df stock_code n =
           Inr (Inr (map (\<lambda>c. (c, rank_spec (the (map_of df c)) r)) (window df n)))"
proof -
  have cols: "\<forall>c \<in> set (window df n). \<exists>col. map_of df c = Some col \<and> rankable col r"
  proof
    fix c assume c: "c \<in> set (window df n)"
    have "c \<in> set (map fst df)" using window_subset c by (rule subsetD)
    then have "\<exists>col. map_of df c = Some col" by (rule map_of_label_Some)
    then obtain col where col: "map_of df c = Some col" ..
    have "rankable (the (map_of df c)) r" using num c by (rule bspec)
    with col show "\<exists>col. map_of df c = Some col \<and> rankable col r" by simp
  qed
  have loop: "rank_loop df r (window df n) [] =
                Inr (map (\<lambda>c. (c, rank_spec (the (map_of df c)) r)) (window df n))"
    using rank_loop_spec [of "window df n" "[]" df r] window_distinct [OF wf] cols by simp
  from match_rows_first [OF row] have rows: "match_rows ids k \<noteq> []" "hd (match_rows ids k) = r"
    by auto
  have slice: "py_slice (map fst df) (- n - 1) (- 1) = window df n" using n by (rule window_slice)
  have le: "\<not> int (length df) - 1 < n" using n by simp
  have gc: "get_col df ''new_predict'' = Inr ids" using ids by (simp add: get_col_def)
  show ?thesis
    unfolding query_stock_rank_def code option.case gc sum.case Let_def
    by (simp only: rows slice le loop if_False sum.case)
qed

lemma rank_spec_one:
  assumes "\<forall>v \<in> set col. is_numeric v \<longrightarrow> num_key v \<le> num_key (col ! r)"
  shows "rank_spec col r = 1"
proof -
  have "\<not> num_gt v (col ! r)" if "v \<in> set col" for v
    using assms that by (cases "num_val v"; cases "num_val (col ! r)")
                        (auto simp: num_gt_def is_numeric_def num_key_def)
  then show ?thesis by (simp add: rank_spec_def filter_empty_conv)
qed

lemma sort_values_length:
  "sort_values_desc vs = Inr sv \<Longrightarrow> length sv = length vs"
proof -
  have "length (filter (\<lambda>v. \<not> is_nan v) vs) + length (filter is_nan vs) = length vs"
    using sum_length_filter_compl [of is_nan vs] by simp
  then show "sort_values_desc vs = Inr sv \<Longrightarrow> length sv = length vs"
    by (auto simp: sort_values_desc_def Let_def split: if_splits)
qed

lemma column_rank_bounds:
  "column_rank col r = Inr k \<Longrightarrow> 1 \<le> k \<and> k \<le> int (length col)"
  by (auto simp: column_rank_def first_index_Some_iff sort_values_length
           split: sum.splits option.splits dest: sort_values_length)

lemma dict_set_values:
  "(c, k) \<in> set (dict_set d key v) \<Longrightarrow> (c, k) \<in> set d \<or> k = v"
  by (auto simp: dict_set_def split: if_splits)

lemma rank_loop_bounds:
  assumes "wf_frame df" and "rank_loop df r cs acc = Inr res"
    and "\<forall>(c, k) \<in> set acc. 1 \<le> k \<and> k \<le> int (nrows df)"
  shows "\<forall>(c, k) \<in> set res. 1 \<le> k \<and> k \<le> int (nrows df)"
  using assms(2,3)
proof (induction cs arbitrary: acc)
  case Nil
  then show ?case by simp
next
  case (Cons c cs)
  from Cons.prems(1) obtain col k where col: "map_of df c = Some col"
    and ck: "column_rank col r = Inr k"
    and rest: "rank_loop df r cs (dict_set acc c k) = Inr res"
    by (auto simp: get_col_def split: option.splits sum.splits)
  have "length col = nrows df" using assms(1) col by (rule wf_frame_col_length)
  with column_rank_bounds [OF ck] have "1 \<le> k \<and> k \<le> int (nrows df)" by simp
  with Cons.prems(2) have "\<forall>(c', k') \<in> set (dict_set acc c k). 1 \<le> k' \<and> k' \<le> int (nrows df)"
    by (auto dest: dict_set_values)
  with rest show ?case by (rule Cons.IH)
qed

lemma rank_loop_butlast:
  assumes "wf_frame df"
    and "\<forall>c \<in> set (butlast (map fst df)). rankable (the (map_of df c)) r"
  shows "rank_loop df r (butlast (map fst df)) [] =
           Inr (map (\<lambda>c. (c, rank_spec (the (map_of df c)) r)) (butlast (map fst df)))"
proof -
  have d: "distinct (butlast (map fst df))"
    using assms(1) by (simp add: wf_frame_def distinct_butlast)
  have "\<forall>c \<in> set (butlast (map fst df)). \<exists>col. map_of df c = Some col \<and> rankable col r"
  proof
    fix c assume c: "c \<in> set (butlast (map fst df))"
    then have "c \<in> set (map fst df)" by (rule in_set_butlastD)
    then have "\<exists>col. map_of df c = Some col" by (rule map_of_label_Some)
    then obtain col where col: "map_of df c = Some col" ..
    have "rankable (the (map_of df c)) r" using assms(2) c by (rule bspec)
    with col show "\<exists>col. map_of df c = Some col \<and> rankable col r" by simp
  qed
  with d show ?thesis using rank_loop_spec [of "butlast (map fst df)" "[]" df r] by simp
qed

subsection \<open>Properties of the rank query\<close>

text \<open>
  C5. Refinement: on a well-formed frame, when the code parses, is found in
  \<open>new_predict\<close> (first at row \<open>r\<close>), the window \<open>0 \<le> n \<le> columns - 1\<close> is valid and
  the target has a number in every window column, the query returns exactly \<open>n\<close> entries,
  keyed by the \<open>n\<close> labels before the last column in their order, each the abstract rank
  (one plus the number of strictly greater values of the column).
\<close>

theorem query_stock_rank_refines:
  assumes wf: "wf_frame df" and code: "py_int stock_code = Some k"
    and ids: "map_of df ''new_predict'' = Some ids"
    and row: "first_index (\<lambda>v. py_eq v (PInt k)) ids = Some r"
    and n: "0 \<le> n" "n \<le> int (length df) - 1"
    and num: "\<forall>c \<in> set (window df n). rankable (the (map_of df c)) r"
  shows "\<exists>res. query_stock_rank df stock_code n = Inr (Inr res) \<and> length res = nat n \<and>
           map fst res = window df n \<and>
           map snd res = map (\<lambda>c. rank_spec (the (map_of df c)) r) (window df n)"
  using query_ok [OF assms] window_length [OF n] by (simp add: comp_def)

theorem query_stock_rank_refines_witness:
  "\<exists>res. query_stock_rank
           [(''d1'', [PInt 10, PInt 5]), (''d2'', [PInt 5, PInt 7]), (''new_predict'', [PInt 1, PInt 2])]
           ''000001'' 2 = Inr (Inr res) \<and> length res = 2 \<and> map fst res = [''d1'', ''d2''] \<and>
         map snd res = [1, 2]"
proof -
  let ?df = "[(''d1'', [PInt 10, PInt 5]), (''d2'', [PInt 5, PInt 7]), (''new_predict'', [PInt 1, PInt 2])]"
  have h: "wf_frame ?df" "py_int ''000001'' = Some 1"
    "map_of ?df ''new_predict'' = Some [PInt 1, PInt 2]"
    "first_index (\<lambda>v. py_eq v (PInt 1)) [PInt 1, PInt 2] = Some 0"
    "0 \<le> (2::int)" "2 \<le> int (length ?df) - 1"
    "\<forall>c \<in> set (window ?df 2). rankable (the (map_of ?df c)) 0"
    by (simp_all add: py_simps wf_frame_def nrows_def window_def rankable_def numeric_col_def
                      is_numeric_def)
  show ?thesis using query_stock_rank_refines [OF h]
    by (simp add: window_def rank_spec_def num_gt_def)
qed

text \<open>
  C6. When the target holds the largest value of every window column, every rank is 1.
\<close>

theorem query_rank_top:
  assumes wf: "wf_frame df" and code: "py_int stock_code = Some k"
    and ids: "map_of df ''new_predict'' = Some ids"
    and row: "first_index (\<lambda>v. py_eq v (PInt k)) ids = Some r"
    and n: "0 \<le> n" "n \<le> int (length df) - 1"
    and num: "\<forall>c \<in> set (window df n). rankable (the (map_of df c)) r"
    and top: "\<forall>c \<in> set (window df n). \<forall>v \<in> set (the (map_of df c)).
                is_numeric v \<longrightarrow> num_key v \<le> num_key (the (map_of df c) ! r)"
  shows "query_stock_rank df stock_code n = Inr (Inr (map (\<lambda>c. (c, 1)) (window df n)))"
proof -
  have "map (\<lambda>c. (c, rank_spec (the (map_of df c)) r)) (window df n) = map (\<lambda>c. (c, 1)) (window df n)"
    using top by (simp add: rank_spec_one)
  with query_ok [OF wf code ids row n num] show ?thesis by simp
qed

theorem query_rank_top_witness:
  "query_stock_rank
     [(''d1'', [PInt 10, PInt 5]), (''d2'', [PInt 5, PInt 7]), (''new_predict'', [PInt 1, PInt 2])]
     ''000002'' 1 = Inr (Inr [(''d2'', 1)])"
proof -
  let ?df = "[(''d1'', [PInt 10, PInt 5]), (''d2'', [PInt 5, PInt 7]), (''new_predict'', [PInt 1, PInt 2])]"
  have h: "wf_frame ?df" "py_int ''000002'' = Some 2"
    "map_of ?df ''new_predict'' = Some [PInt 1, PInt 2]"
    "first_index (\<lambda>v. py_eq v (PInt 2)) [PInt 1, PInt 2] = Some 1"
    "0 \<le> (1::int)" "1 \<le> int (length ?df) - 1"
    "\<forall>c \<in> set (window ?df 1). rankable (the (map_of ?df c)) 1"
    "\<forall>c \<in> set (window ?df 1). \<forall>v \<in> set (the (map_of ?df c)).
       is_numeric v \<longrightarrow> num_key v \<le> num_key (the (map_of ?df c) ! 1)"
    by (simp_all add: py_simps wf_frame_def nrows_def window_def rankable_def numeric_col_def
                      is_numeric_def num_key_def)
  show ?thesis using query_rank_top [OF h] by (simp add: window_def)
qed

text \<open>
  C7. Invariant of every successful query on a well-formed frame: each returned rank lies
  between 1 and the number of rows, whatever the column types.
\<close>

theorem query_rank_bounds:
  assumes "wf_frame df" and "query_stock_rank df stock_code n = Inr (Inr res)"
    and "(c, k) \<in> set res"
  shows "1 \<le> k \<and> k \<le> int (nrows df)"
proof -
  from assms(2) obtain r cs where "rank_loop df r cs [] = Inr res"
    by (auto simp: query_stock_rank_def Let_def split: option.splits sum.splits if_splits)
  from rank_loop_bounds [OF assms(1) this] assms(3) show ?thesis by auto
qed

theorem query_rank_bounds_witness:
  "wf_frame [(''d1'', [PInt 10, PInt 5]), (''d2'', [PInt 5, PInt 7]), (''new_predict'', [PInt 1, PInt 2])] \<and>
   query_stock_rank
     [(''d1'', [PInt 10, PInt 5]), (''d2'', [PInt 5, PInt 7]), (''new_predict'', [PInt 1, PInt 2])]
     ''000001'' 2 = Inr (Inr [(''d1'', 1), (''d2'', 2)]) \<and>
   (''d2'', 2) \<in> set [(''d1'', 1::int), (''d2'', 2)] \<and>
   1 \<le> (2::int) \<and> 2 \<le> int (nrows [(''d1'', [PInt 10, PInt 5]), (''d2'', [PInt 5, PInt 7]),
                                     (''new_predict'', [PInt 1, PInt 2])])"
proof -
  let ?df = "[(''d1'', [PInt 10, PInt 5]), (''d2'', [PInt 5, PInt 7]), (''new_predict'', [PInt 1, PInt 2])]"
  have h: "wf_frame ?df" by (simp add: wf_frame_def nrows_def)
  have q: "query_stock_rank ?df ''000001'' 2 = Inr (Inr [(''d1'', 1), (''d2'', 2)])"
    by (simp add: query_stock_rank_def py_simps get_col_def match_rows_def py_slice_def
                  column_rank_def sort_values_desc_def is_numeric_def num_key_def dict_set_def)
  have m: "(''d2'', 2) \<in> set [(''d1'', 1::int), (''d2'', 2)]" by simp
  show ?thesis using h q m query_rank_bounds [OF h q m] by simp
qed

text \<open>C8. A code that \<open>int()\<close> rejects gives the "invalid code" error, whatever the table.\<close>

theorem query_invalid_code:
  "py_int stock_code = None \<Longrightarrow> query_stock_rank df stock_code n = Inr (Inl InvalidCode)"
  by (simp add: query_stock_rank_def)

theorem query_invalid_code_witness:
  "py_int ''12a'' = None \<and> query_stock_rank [] ''12a'' 3 = Inr (Inl InvalidCode)"
proof -
  have h: "py_int ''12a'' = None" by (simp add: py_simps)
  show ?thesis using h query_invalid_code [OF h] by simp
qed

text \<open>C9. A code no row of \<open>new_predict\<close> equals gives the "code not found" error.\<close>

theorem query_code_not_found:
  assumes "py_int stock_code = Some k" and "map_of df ''new_predict'' = Some ids"
    and "\<forall>v \<in> set ids. \<not> py_eq v (PInt k)"
  shows "query_stock_rank df stock_code n = Inr (Inl CodeNotFound)"
proof -
  have "match_rows ids k = []" using assms(3) by (simp add: match_rows_Nil)
  with assms(1,2) show ?thesis by (simp add: query_stock_rank_def get_col_def)
qed

theorem query_code_not_found_witness:
  "query_stock_rank [(''d1'', [PInt 10]), (''new_predict'', [PInt 1])] ''000009'' 1 = Inr (Inl CodeNotFound)"
proof -
  have h: "py_int ''000009'' = Some 9" "map_of [(''d1'', [PInt 10]), (''new_predict'', [PInt 1])] ''new_predict'' = Some [PInt 1]"
    "\<forall>v \<in> set [PInt 1]. \<not> py_eq v (PInt 9)"
    by (simp_all add: py_simps)
  show ?thesis by (rule query_code_not_found [OF h])
qed

text \<open>
  C10. A window longer than the number of date columns gives the "window too long" error,
  carrying the number of columns minus one.
\<close>

theorem query_too_many_days:
  assumes "py_int stock_code = Some k" and "map_of df ''new_predict'' = Some ids"
    and "\<exists>v \<in> set ids. py_eq v (PInt k)" and "int (length df) - 1 < n"
  shows "query_stock_rank df stock_code n = Inr (Inl (TooManyDays (int (length df) - 1)))"
proof -
  have "match_rows ids k \<noteq> []" using assms(3) by (simp add: match_rows_Nil)
  with assms(1,2,4) show ?thesis by (simp add: query_stock_rank_def get_col_def Let_def)
qed

theorem query_too_many_days_witness:
  "query_stock_rank [(''d1'', [PInt 10]), (''new_predict'', [PInt 1])] ''1'' 2 = Inr (Inl (TooManyDays 1))"
proof -
  have h: "py_int ''1'' = Some 1" "map_of [(''d1'', [PInt 10]), (''new_predict'', [PInt 1])] ''new_predict'' = Some [PInt 1]"
    "\<exists>v \<in> set [PInt 1]. py_eq v (PInt 1)" "int (length [(''d1'', [PInt 10]), (''new_predict'', [PInt 1])]) - 1 < 2"
    by (simp_all add: py_simps)
  show ?thesis using query_too_many_days [OF h] by simp
qed

text \<open>
  C11. If the target's cell in the first window column is missing (\<open>NaN\<close>), the query does
  not return an error value: \<open>.index[0]\<close> on the empty selection raises \<open>IndexError\<close>,
  which nothing catches (a defect of the code).
\<close>

theorem query_nan_target_raises:
  assumes "py_int stock_code = Some k" and "map_of df ''new_predict'' = Some ids"
    and "first_index (\<lambda>v. py_eq v (PInt k)) ids = Some r"
    and "0 \<le> n" "n \<le> int (length df) - 1"
    and "window df n = c # cs" and "map_of df c = Some col" and "numeric_col col"
    and "col ! r = PNaN"
  shows "query_stock_rank df stock_code n = Inl IndexError"
proof -
  have "sort_values_desc col = Inr (rev (sort_key num_key (filter (\<lambda>v. \<not> is_nan v) col)) @ filter is_nan col)"
    using assms(8) by (intro sort_values_numeric) (simp add: numeric_col_def list_all_iff)
  then have cr: "column_rank col r = Inl IndexError"
    using assms(9) by (simp add: column_rank_def)
  have loop: "rank_loop df r (window df n) [] = Inl IndexError"
    using assms(6,7) cr by (simp add: get_col_def)
  from match_rows_first [OF assms(3)] have rows: "match_rows ids k \<noteq> []" "hd (match_rows ids k) = r"
    by auto
  have "py_slice (map fst df) (- n - 1) (- 1) = window df n" using assms(4,5) by (rule window_slice)
  with assms(1,2,5) rows loop show ?thesis
    by (simp add: query_stock_rank_def get_col_def Let_def)
qed

theorem query_nan_target_raises_witness:
  "query_stock_rank [(''d1'', [PInt 10, PInt 5]), (''d2'', [PNaN, PInt 7]), (''new_predict'', [PInt 1, PInt 2])]
     ''000001'' 1 = Inl IndexError"
proof -
  let ?df = "[(''d1'', [PInt 10, PInt 5]), (''d2'', [PNaN, PInt 7]), (''new_predict'', [PInt 1, PInt 2])]"
  have h: "py_int ''000001'' = Some 1" "map_of ?df ''new_predict'' = Some [PInt 1, PInt 2]"
    "first_index (\<lambda>v. py_eq v (PInt 1)) [PInt 1, PInt 2] = Some 0"
    "0 \<le> (1::int)" "1 \<le> int (length ?df) - 1"
    "window ?df 1 = ''d2'' # []" "map_of ?df ''d2'' = Some [PNaN, PInt 7]"
    "numeric_col [PNaN, PInt 7]" "[PNaN, PInt 7] ! 0 = PNaN"
    by (simp_all add: py_simps window_def numeric_col_def is_numeric_def)
  show ?thesis by (rule query_nan_target_raises [OF h])
qed

text \<open>
  C12. A negative window is not rejected: with \<open>n_days = -1\<close> the slice
  \<open>columns[0:-1]\<close> selects every column but the last, and the query returns one rank per
  column instead of an error or \<open>-1\<close> entries.
\<close>

theorem query_negative_window:
  assumes wf: "wf_frame df" and code: "py_int stock_code = Some k"
    and ids: "map_of df ''new_predict'' = Some ids"
    and row: "first_index (\<lambda>v. py_eq v (PInt k)) ids = Some r"
    and num: "\<forall>c \<in> set (butlast (map fst df)). rankable (the (map_of df c)) r"
  shows "query_stock_rank df stock_code (- 1) =
           Inr (Inr (map (\<lambda>c. (c, rank_spec (the (map_of df c)) r)) (butlast (map fst df))))"
proof -
  from ids have "df \<noteq> []" by auto
  then have le: "\<not> int (length df) - 1 < - 1" by simp
  from match_rows_first [OF row] have rows: "match_rows ids k \<noteq> []" "hd (match_rows ids k) = r"
    by auto
  have sl: "py_slice (map fst df) (- (- 1) - 1) (- 1) = butlast (map fst df)"
    using py_slice_minus_one [of "map fst df"] by simp
  have gc: "get_col df ''new_predict'' = Inr ids" using ids by (simp add: get_col_def)
  show ?thesis
    unfolding query_stock_rank_def code option.case gc sum.case Let_def
    by (simp only: rows sl le rank_loop_butlast [OF wf num] if_False sum.case)
qed

theorem query_negative_window_witness:
  "query_stock_rank [(''d1'', [PInt 10, PInt 5]), (''d2'', [PInt 5, PInt 7]), (''new_predict'', [PInt 1, PInt 2])]
     ''000001'' (- 1) = Inr (Inr [(''d1'', 1), (''d2'', 2)])"
proof -
  let ?df = "[(''d1'', [PInt 10, PInt 5]), (''d2'', [PInt 5, PInt 7]), (''new_predict'', [PInt 1, PInt 2])]"
  have h: "wf_frame ?df" "py_int ''000001'' = Some 1"
    "map_of ?df ''new_predict'' = Some [PInt 1, PInt 2]"
    "first_index (\<lambda>v. py_eq v (PInt 1)) [PInt 1, PInt 2] = Some 0"
    "\<forall>c \<in> set (butlast (map fst ?df)). rankable (the (map_of ?df c)) 0"
    by (simp_all add: py_simps wf_frame_def nrows_def rankable_def numeric_col_def is_numeric_def)
  show ?thesis using query_negative_window [OF h] by (simp add: rank_spec_def num_gt_def)
qed

text \<open>C13. A table without a \<open>new_predict\<close> column makes the query raise \<open>KeyError\<close>.\<close>

theorem query_missing_id_column:
  "py_int stock_code = Some k \<Longrightarrow> map_of df ''new_predict'' = None \<Longrightarrow>
   query_stock_rank df stock_code n = Inl KeyError"
  by (simp add: query_stock_rank_def get_col_def)

theorem query_missing_id_column_witness:
  "query_stock_rank [(''d1'', [PInt 10])] ''1'' 1 = Inl KeyError"
proof -
  have h: "py_int ''1'' = Some 1" "map_of [(''d1'', [PInt 10])] ''new_predict'' = None"
    by (simp_all add: py_simps)
  show ?thesis by (rule query_missing_id_column [OF h])
qed

end
