(* ===== verification/Presenter.thy ===== *)
theory Presenter
  imports RankQuery
begin

text \<open>
  The presenter of \<open>src/app.py\<close>. \<open>generate_rank_text\<close> (lines 118--123) builds the
  tab-separated table; the model returns the UTF-8 bytes of that text: the CJK header
  words are written as their UTF-8 encodings, and the labels are already the bytes read
  from the CSV file, which Python decodes as UTF-8 and Flask encodes again, so they are
  copied unchanged. \<open>plot_rank_trend\<close> (lines 81--115) is a sequence of calls on pyplot's
  global state: \<open>plt_call\<close> lists the calls it makes, \<open>plt_step\<close> is their effect on the
  open figures (the current figure is the last one; a call that needs a figure when none
  is open creates one, as \<open>plt.gcf()\<close> does; \<open>invert_yaxis\<close> toggles the inversion;
  \<open>savefig\<close> records the current figure as an image; \<open>close\<close> closes the current
  figure). The image is the figure that \<open>savefig\<close> records: rasterization to PNG and the
  base64 encoding are not modelled, and \<open>tight_layout\<close> only moves the axes, so it leaves
  the modelled figure unchanged.
\<close>

subsection \<open>Texts of the output\<close>

definition utf8_date :: string where
  "utf8_date = [CHR 0xE6, CHR 0x97, CHR 0xA5, CHR 0xE6, CHR 0x9C, CHR 0x9F]"

definition utf8_rank :: string where
  "utf8_rank = [CHR 0xE6, CHR 0x8E, CHR 0x92, CHR 0xE5, CHR 0x90, CHR 0x8D]"

definition utf8_title :: string where
  "utf8_title = [CHR 0xE8, CHR 0x82, CHR 0xA1, CHR 0xE7, CHR 0xA5, CHR 0xA8] @ utf8_rank @
     [CHR 0xE5, CHR 0x8F, CHR 0x98, CHR 0xE5, CHR 0x8C, CHR 0x96,
      CHR 0xE8, CHR 0xB6, CHR 0x8B, CHR 0xE5, CHR 0x8A, CHR 0xBF]"

subsection \<open>\<open>generate_rank_text\<close>\<close>

definition rank_text_header :: string where
  "rank_text_header = utf8_date @ [CHR 0x09] @ utf8_rank @ [CHR 0x0A]"

fun rank_text_rows :: "string \<Rightarrow> ranks \<Rightarrow> string" where
  "rank_text_rows text [] = text"
| "rank_text_rows text ((date, rank) # rs) =
     rank_text_rows (text @ date @ [CHR 0x09] @ py_str_int rank @ [CHR 0x0A]) rs"

definition generate_rank_text :: "ranks \<Rightarrow> string" where
  "generate_rank_text ranks = rank_text_rows rank_text_header ranks"

subsection \<open>pyplot as a state machine\<close>

record line2d =
  line_x :: "string list"
  line_y :: "int list"
  line_marker :: string
  line_style :: string
  line_color :: string
  line_markersize :: nat
  line_label :: string

record annotation =
  ann_text :: string
  ann_xy :: "string \<times> int"
  ann_offset :: "int \<times> int"
  ann_color :: string

record figure =
  fig_size :: "nat \<times> nat"
  fig_lines :: "line2d list"
  fig_annotations :: "annotation list"
  fig_title :: "string \<times> nat"
  fig_xlabel :: "string \<times> nat"
  fig_ylabel :: "string \<times> nat"
  fig_yinverted :: bool
  fig_grid :: bool
  fig_xtick_rotation :: int
  fig_legend :: bool

record plt_state =
  open_figs :: "figure list"
  saved :: "figure list"

datatype plt_call =
    Figure "nat \<times> nat"
  | Plot "string list" "int list" string string string nat string
  | Annotate string "string \<times> int" "int \<times> int" string
  | Title string nat
  | XLabel string nat
  | YLabel string nat
  | InvertYAxis
  | Grid bool
  | XTicks int
  | Legend
  | TightLayout
  | SaveFig
  | Close

text \<open>A new figure; the size is in tenths of an inch (matplotlib's default is 6.4 by 4.8).\<close>

definition new_figure :: "nat \<times> nat \<Rightarrow> figure" where
  "new_figure sz =
     \<lparr>fig_size = sz, fig_lines = [], fig_annotations = [], fig_title = ([], 0),
      fig_xlabel = ([], 0), fig_ylabel = ([], 0), fig_yinverted = False, fig_grid = False,
      fig_xtick_rotation = 0, fig_legend = False\<rparr>"

definition with_current :: "plt_state \<Rightarrow> figure list" where
  "with_current s = (if open_figs s = [] then [new_figure (64, 48)] else open_figs s)"

definition update_current :: "(figure \<Rightarrow> figure) \<Rightarrow> plt_state \<Rightarrow> plt_state" where
  "update_current f s =
     (let figs = with_current s in s\<lparr>open_figs := butlast figs @ [f (last figs)]\<rparr>)"

fun plt_step :: "plt_state \<Rightarrow> plt_call \<Rightarrow> plt_state" where
  "plt_step s (Figure sz) = s\<lparr>open_figs := open_figs s @ [new_figure sz]\<rparr>"
| "plt_step s (Plot xs ys mk ls col ms lbl) =
     update_current (\<lambda>f. f\<lparr>fig_lines := fig_lines f @
       [\<lparr>line_x = xs, line_y = ys, line_marker = mk, line_style = ls, line_color = col,
         line_markersize = ms, line_label = lbl\<rparr>]\<rparr>) s"
| "plt_step s (Annotate txt xy off col) =
     update_current (\<lambda>f. f\<lparr>fig_annotations := fig_annotations f @
       [\<lparr>ann_text = txt, ann_xy = xy, ann_offset = off, ann_color = col\<rparr>]\<rparr>) s"
| "plt_step s (Title t sz) = update_current (\<lambda>f. f\<lparr>fig_title := (t, sz)\<rparr>) s"
| "plt_step s (XLabel t sz) = update_current (\<lambda>f. f\<lparr>fig_xlabel := (t, sz)\<rparr>) s"
| "plt_step s (YLabel t sz) = update_current (\<lambda>f. f\<lparr>fig_ylabel := (t, sz)\<rparr>) s"
| "plt_step s InvertYAxis = update_current (\<lambda>f. f\<lparr>fig_yinverted := \<not> fig_yinverted f\<rparr>) s"
| "plt_step s (Grid b) = update_current (\<lambda>f. f\<lparr>fig_grid := b\<rparr>) s"
| "plt_step s (XTicks rot) = update_current (\<lambda>f. f\<lparr>fig_xtick_rotation := rot\<rparr>) s"
| "plt_step s Legend = update_current (\<lambda>f. f\<lparr>fig_legend := True\<rparr>) s"
| "plt_step s TightLayout = update_current id s"
| "plt_step s SaveFig = (let s' = update_current id s in s'\<lparr>saved := saved s' @ [last (open_figs s')]\<rparr>)"
| "plt_step s Close = s\<lparr>open_figs := butlast (open_figs s)\<rparr>"

definition plt_run :: "plt_state \<Rightarrow> plt_call list \<Rightarrow> plt_state" where
  "plt_run s calls = foldl plt_step s calls"

subsection \<open>\<open>plot_rank_trend\<close>\<close>

definition plot_calls :: "ranks \<Rightarrow> plt_call list" where
  "plot_calls ranks =
     [Figure (120, 60),
      Plot (map fst ranks) (map snd ranks) ''o'' ''-'' ''b'' 8 utf8_rank]
     @ map (\<lambda>(date, rank). Annotate (py_str_int rank) (date, rank) (0, 10) ''red'') ranks
     @ [Title utf8_title 16, XLabel utf8_date 12, YLabel utf8_rank 12, InvertYAxis, Grid True,
        XTicks 45, Legend, TightLayout, SaveFig, Close]"

definition plot_rank_trend :: "ranks \<Rightarrow> plt_state \<Rightarrow> figure \<times> plt_state" where
  "plot_rank_trend ranks s =
     (let s' = plt_run s (plot_calls ranks) in (last (saved s'), s'))"

subsection \<open>Reading the table back\<close>

text \<open>\<open>s.split(c)\<close>, and a reader of the rank table (the inverse the round trip is about).\<close>

fun split_char :: "char \<Rightarrow> string \<Rightarrow> string list" where
  "split_char c [] = [[]]"
| "split_char c (x # xs) =
     (if x = c then [] # split_char c xs
      else (case split_char c xs of l # ls \<Rightarrow> (x # l) # ls | [] \<Rightarrow> [[x]]))"

definition parse_row :: "string \<Rightarrow> (string \<times> int) option" where
  "parse_row l = (case split_char (CHR 0x09) l of [d, r] \<Rightarrow> map_option (\<lambda>k. (d, k)) (py_int r) | _ \<Rightarrow> None)"

definition parse_rank_text :: "string \<Rightarrow> ranks option" where
  "parse_rank_text t =
     (case split_char (CHR 0x0A) t of
       [] \<Rightarrow> None
     | h # rest \<Rightarrow>
         if h @ [CHR 0x0A] = rank_text_header \<and> rest \<noteq> [] \<and> last rest = []
         then those (map parse_row (butlast rest)) else None)"

subsection \<open>Lemmas\<close>

lemma rank_text_rows_eq:
  "rank_text_rows t rs =
     t @ concat (map (\<lambda>l. l @ [CHR 0x0A]) (map (\<lambda>(d, r). d @ CHR 0x09 # py_str_int r) rs))"
  by (induction t rs rule: rank_text_rows.induct) simp_all

lemma split_char_no: "c \<notin> set s \<Longrightarrow> split_char c s = [s]"
  by (induction s) auto

lemma split_char_sep: "c \<notin> set l \<Longrightarrow> split_char c (l @ c # r) = l # split_char c r"
  by (induction l) auto

lemma split_char_lines:
  "\<forall>l \<in> set ls. c \<notin> set l \<Longrightarrow> split_char c (concat (map (\<lambda>l. l @ [c]) ls)) = ls @ [[]]"
  by (induction ls) (simp_all add: split_char_sep)

lemma tab_not_in_str_int: "CHR 0x09 \<notin> set (py_str_int i)" "CHR 0x0A \<notin> set (py_str_int i)"
  using py_str_int_chars [of i] by (auto simp: py_isdecimal_def)

lemma parse_row_ok:
  "CHR 0x09 \<notin> set d \<Longrightarrow> parse_row (d @ CHR 0x09 # py_str_int r) = Some (d, r)"
  by (simp add: parse_row_def split_char_sep split_char_no tab_not_in_str_int py_int_py_str_int)

lemma update_current_nonempty:
  "update_current f (s\<lparr>open_figs := fs @ [F]\<rparr>) = s\<lparr>open_figs := fs @ [f F]\<rparr>"
  by (simp add: update_current_def with_current_def)

lemma plt_run_append: "plt_run s (xs @ ys) = plt_run (plt_run s xs) ys"
  by (simp add: plt_run_def)

lemma plt_run_annotations:
  "plt_run (s\<lparr>open_figs := fs @ [F]\<rparr>)
     (map (\<lambda>(date, rank). Annotate (py_str_int rank) (date, rank) (0, 10) ''red'') rs) =
   s\<lparr>open_figs := fs @ [F\<lparr>fig_annotations := fig_annotations F @
       map (\<lambda>(date, rank). \<lparr>ann_text = py_str_int rank, ann_xy = (date, rank), ann_offset = (0, 10),
                            ann_color = ''red''\<rparr>) rs\<rparr>]\<rparr>"
proof (induction rs arbitrary: F)
  case Nil
  then show ?case by (simp add: plt_run_def)
next
  case (Cons x rs)
  obtain d r where x: "x = (d, r)" by (cases x)
  have "plt_run (s\<lparr>open_figs := fs @ [F]\<rparr>)
          (map (\<lambda>(date, rank). Annotate (py_str_int rank) (date, rank) (0, 10) ''red'') (x # rs)) =
        plt_run (s\<lparr>open_figs := fs @ [F\<lparr>fig_annotations := fig_annotations F @
            [\<lparr>ann_text = py_str_int r, ann_xy = (d, r), ann_offset = (0, 10), ann_color = ''red''\<rparr>]\<rparr>]\<rparr>)
          (map (\<lambda>(date, rank). Annotate (py_str_int rank) (date, rank) (0, 10) ''red'') rs)"
    by (simp add: x plt_run_def update_current_nonempty [simplified])
  then show ?case by (simp add: Cons.IH x)
qed

lemma plt_run_prefix:
  "plt_run s [Figure sz, Plot xs ys mk ls col ms lbl] =
     s\<lparr>open_figs := open_figs s @ [(new_figure sz)\<lparr>fig_lines :=
        [\<lparr>line_x = xs, line_y = ys, line_marker = mk, line_style = ls, line_color = col,
          line_markersize = ms, line_label = lbl\<rparr>]\<rparr>]\<rparr>"
  by (simp add: plt_run_def update_current_nonempty new_figure_def)

lemma plt_run_suffix:
  "plt_run (s\<lparr>open_figs := fs @ [F]\<rparr>)
     [Title t tsz, XLabel x xsz, YLabel y ysz, InvertYAxis, Grid True, XTicks rot, Legend,
      TightLayout, SaveFig, Close] =
   s\<lparr>open_figs := fs, saved := saved s @ [F\<lparr>fig_title := (t, tsz), fig_xlabel := (x, xsz),
      fig_ylabel := (y, ysz), fig_yinverted := \<not> fig_yinverted F, fig_grid := True,
      fig_xtick_rotation := rot, fig_legend := True\<rparr>]\<rparr>"
  by (simp add: plt_run_def update_current_nonempty)

lemma plot_rank_trend_run:
  "plt_run s (plot_calls ranks) =
   s\<lparr>saved := saved s @ [(new_figure (120, 60))\<lparr>
       fig_lines := [\<lparr>line_x = map fst ranks, line_y = map snd ranks, line_marker = ''o'',
                      line_style = ''-'', line_color = ''b'', line_markersize = 8,
                      line_label = utf8_rank\<rparr>],
       fig_annotations := map (\<lambda>(date, rank). \<lparr>ann_text = py_str_int rank, ann_xy = (date, rank),
                                 ann_offset = (0, 10), ann_color = ''red''\<rparr>) ranks,
       fig_title := (utf8_title, 16), fig_xlabel := (utf8_date, 12), fig_ylabel := (utf8_rank, 12),
       fig_yinverted := True, fig_grid := True, fig_xtick_rotation := 45, fig_legend := True\<rparr>]\<rparr>"
  unfolding plot_calls_def plt_run_append plt_run_prefix plt_run_annotations plt_run_suffix
  by (simp add: new_figure_def)

lemma those_map_Some: "those (map Some xs) = Some xs"
  by (induction xs) simp_all

subsection \<open>Properties of the presenter\<close>

text \<open>
  C14. Round trip: for labels without tab or newline, splitting the generated text into
  lines and each line at the tab, and reading the rank with \<open>int()\<close>, gives back the rank
  series, entries and order included.
\<close>

theorem rank_text_roundtrip:
  assumes "\<forall>(d, r) \<in> set ranks. CHR 0x09 \<notin> set d \<and> CHR 0x0A \<notin> set d"
  shows "parse_rank_text (generate_rank_text ranks) = Some ranks"
proof -
  let ?line = "\<lambda>(d, r). d @ CHR 0x09 # py_str_int r"
  let ?hb = "utf8_date @ [CHR 0x09] @ utf8_rank"
  have nolf: "\<forall>l \<in> set (map ?line ranks). CHR 0x0A \<notin> set l"
    using assms by (auto simp: tab_not_in_str_int)
  have hb: "CHR 0x0A \<notin> set ?hb" by (simp add: utf8_date_def utf8_rank_def)
  have gen: "generate_rank_text ranks = ?hb @ CHR 0x0A # concat (map (\<lambda>l. l @ [CHR 0x0A]) (map ?line ranks))"
    unfolding generate_rank_text_def rank_text_rows_eq by (simp add: rank_text_header_def)
  have split: "split_char (CHR 0x0A) (generate_rank_text ranks) = ?hb # (map ?line ranks @ [[]])"
    unfolding gen by (simp only: split_char_sep [OF hb] split_char_lines [OF nolf])
  have parse: "map parse_row (map ?line ranks) = map Some ranks"
    using assms by (induction ranks) (auto simp: parse_row_ok)
  show ?thesis
    by (simp add: parse_rank_text_def split rank_text_header_def parse those_map_Some del: map_map)
qed

theorem rank_text_roundtrip_witness:
  "parse_rank_text (generate_rank_text [(''2024-01-02'', 3), (''2024-01-03'', 1)]) =
     Some [(''2024-01-02'', 3), (''2024-01-03'', 1)]"
proof -
  have h: "\<forall>(d, r) \<in> set [(''2024-01-02'', 3::int), (''2024-01-03'', 1)].
             CHR 0x09 \<notin> set d \<and> CHR 0x0A \<notin> set d"
    by simp
  show ?thesis by (rule rank_text_roundtrip [OF h])
qed

text \<open>
  C15. The image \<open>plot_rank_trend\<close> saves, from any pyplot state, is a 12 by 6 figure
  with one line through the points \<open>(date, rank)\<close> in the series' order, one annotation
  \<open>str(rank)\<close> at each point, the title and axis labels, the rank axis inverted (better
  ranks higher), grid, rotated date ticks and a legend.
\<close>

theorem plot_rank_trend_figure:
  "fst (plot_rank_trend ranks s) =
     (new_figure (120, 60))\<lparr>
       fig_lines := [\<lparr>line_x = map fst ranks, line_y = map snd ranks, line_marker = ''o'',
                      line_style = ''-'', line_color = ''b'', line_markersize = 8,
                      line_label = utf8_rank\<rparr>],
       fig_annotations := map (\<lambda>(date, rank). \<lparr>ann_text = py_str_int rank, ann_xy = (date, rank),
                                 ann_offset = (0, 10), ann_color = ''red''\<rparr>) ranks,
       fig_title := (utf8_title, 16), fig_xlabel := (utf8_date, 12), fig_ylabel := (utf8_rank, 12),
       fig_yinverted := True, fig_grid := True, fig_xtick_rotation := 45, fig_legend := True\<rparr>"
  by (simp add: plot_rank_trend_def plot_rank_trend_run)

text \<open>
  C16. \<open>plot_rank_trend\<close> leaves pyplot's open figures as it found them (the figure it
  creates is closed) and adds exactly its image to the saved ones.
\<close>

theorem plot_rank_trend_closes:
  "open_figs (snd (plot_rank_trend ranks s)) = open_figs s \<and>
   saved (snd (plot_rank_trend ranks s)) = saved s @ [fst (plot_rank_trend ranks s)]"
  by (simp add: plot_rank_trend_def plot_rank_trend_run)

end
