(* ===== verification/Handler.thy ===== *)
theory Handler
  imports Loader Presenter
begin

text \<open>
  The request handler \<open>index\<close> of \<open>src/app.py\<close> (lines 126--158) and the configured
  source path (line 17). A request is its method and its form fields (Flask's
  \<open>request.form.get\<close> returns the first value of a field, or \<open>None\<close>); the server state is
  the file system and pyplot's global state, both of which a request may change. The
  response is the page rendered with its template arguments, or a plain text; an
  exception that escapes \<open>index\<close> (Flask answers it with status 500) is a left value.
  Strings outside Latin-1 (the path's directory name, the messages) are written as
  their UTF-8 bytes, which are what Flask sends and what the file system stores.
\<close>

definition file_path :: string where
  "file_path = ''C:'' @ [CHR 0x5C, CHR 0xE7, CHR 0xA8, CHR 0x8B, CHR 0xE5, CHR 0xBA, CHR 0x8F,
     CHR 0xE5, CHR 0x8C, CHR 0x96, CHR 0x5C] @ ''pycharm'' @ [CHR 0x5C] @ ''rf_predict2.csv''"

definition msg_process_failed :: string where
  "msg_process_failed = [CHR 0xE6, CHR 0x96, CHR 0x87, CHR 0xE4, CHR 0xBB, CHR 0xB6, CHR 0xE5,
     CHR 0xA4, CHR 0x84, CHR 0xE7, CHR 0x90, CHR 0x86, CHR 0xE5, CHR 0xA4, CHR 0xB1, CHR 0xE8,
     CHR 0xB4, CHR 0xA5, CHR 0xEF, CHR 0xBC, CHR 0x8C, CHR 0xE8, CHR 0xAF, CHR 0xB7, CHR 0xE6,
     CHR 0xA3, CHR 0x80, CHR 0xE6, CHR 0x9F, CHR 0xA5, CHR 0xE6, CHR 0x96, CHR 0x87, CHR 0xE4,
     CHR 0xBB, CHR 0xB6, CHR 0xE8, CHR 0xB7, CHR 0xAF, CHR 0xE5, CHR 0xBE, CHR 0x84, CHR 0xE3,
     CHR 0x80, CHR 0x82]"

record request =
  req_method :: string
  req_form :: "(string \<times> string) list"

definition form_get :: "request \<Rightarrow> string \<Rightarrow> string option" where
  "form_get req key = map_of (req_form req) key"

text \<open>
  \<open>IndexPage err max_days\<close> is \<open>index.html\<close>; its error message is the text of \<open>err\<close>
  (the handler's own check on the code sends the same text as \<open>InvalidCode\<close>).
  \<open>ResultPage code image text\<close> is \<open>result.html\<close>.
\<close>

datatype response =
    IndexPage "query_err option" "int option"
  | ResultPage string figure string
  | PlainText string

record server =
  files :: fs
  pyplot :: plt_state

definition index :: "request \<Rightarrow> server \<Rightarrow> response py_result \<times> server" where
  "index req st =
     (if req_method req \<noteq> ''POST'' then (Inr (IndexPage None None), st)
      else
        let stock_code = form_get req ''stock_code'' in
        case form_get req ''n_days'' of
          None \<Rightarrow> (Inl TypeError, st)
        | Some nd \<Rightarrow>
        (case py_int nd of
          None \<Rightarrow> (Inl ValueError, st)
        | Some n_days \<Rightarrow>
        (case stock_code of
          None \<Rightarrow> (Inl AttributeError, st)
        | Some code \<Rightarrow>
          if \<not> (py_isdigit code \<and> length code = 6) then (Inr (IndexPage (Some InvalidCode) None), st)
          else
            (case process_table (files st) file_path of
              (None, files') \<Rightarrow> (Inr (PlainText msg_process_failed), st\<lparr>files := files'\<rparr>)
            | (Some processed_file_path, files') \<Rightarrow>
              (case load_data files' processed_file_path of
                Inl e \<Rightarrow> (Inl e, st\<lparr>files := files'\<rparr>)
              | Inr df \<Rightarrow>
                (case query_stock_rank df code n_days of
                  Inl e \<Rightarrow> (Inl e, st\<lparr>files := files'\<rparr>)
                | Inr (Inl err) \<Rightarrow>
                    (Inr (IndexPage (Some err) (Some (int (length df) - 1))), st\<lparr>files := files'\<rparr>)
                | Inr (Inr result) \<Rightarrow>
                    (let (img, plt') = plot_rank_trend result (pyplot st);
                         rank_text = generate_rank_text result
                     in (Inr (ResultPage code img rank_text), st\<lparr>files := files', pyplot := plt'\<rparr>))))))))"

text \<open>
  \<open>app.run\<close> (line 162) serves the requests it receives; served one after another, each
  request runs \<open>index\<close> on the state the previous one left, and the responses come back in
  order.
\<close>

primrec serve :: "request list \<Rightarrow> server \<Rightarrow> response py_result list \<times> server" where
  "serve [] st = ([], st)"
| "serve (req # reqs) st =
     (let (r, st') = index req st; (rs, st'') = serve reqs st' in (r # rs, st''))"

subsection \<open>The scenario of the specification, component by component\<close>

text \<open>
  The source of the specification's end-to-end scenario: \<open>process_table\<close> writes the
  normalized table beside it, and \<open>load_data\<close> reads that back with integer columns.
\<close>

lemma scenario_process_table:
  "process_table [file_path \<mapsto> ''d1,d2,new_predict\<newline>10,5,1.SH\<newline>3,9,2.SZ\<newline>''] file_path =
     (Some (processed_path file_path), [file_path \<mapsto> ''d1,d2,new_predict\<newline>10,5,1.SH\<newline>3,9,2.SZ\<newline>'', processed_path file_path \<mapsto> ''d1,d2,new_predict\<newline>000010,000005,000001\<newline>000003,000009,000002\<newline>''])"
proof -
  have src: "read_csv_file [file_path \<mapsto> ''d1,d2,new_predict\<newline>10,5,1.SH\<newline>3,9,2.SZ\<newline>''] file_path =
      Inr [(''d1'', [PInt 10, PInt 3]), (''d2'', [PInt 5, PInt 9]), (''new_predict'', [PStr ''1.SH'', PStr ''2.SZ''])]"
    unfolding read_csv_file_def by simp code_simp
  have out: "to_csv (normalize_frame
      [(''d1'', [PInt 10, PInt 3]), (''d2'', [PInt 5, PInt 9]), (''new_predict'', [PStr ''1.SH'', PStr ''2.SZ''])])
      = ''d1,d2,new_predict\<newline>000010,000005,000001\<newline>000003,000009,000002\<newline>''" by code_simp
  show ?thesis by (simp add: process_table_cases src out)
qed

lemma scenario_load:
  "load_data [file_path \<mapsto> ''d1,d2,new_predict\<newline>10,5,1.SH\<newline>3,9,2.SZ\<newline>'', processed_path file_path \<mapsto> ''d1,d2,new_predict\<newline>000010,000005,000001\<newline>000003,000009,000002\<newline>''] (processed_path file_path) =
     Inr [(''d1'', [PInt 10, PInt 3]), (''d2'', [PInt 5, PInt 9]), (''new_predict'', [PInt 1, PInt 2])]"
  unfolding load_data_def read_csv_file_def by simp code_simp

subsection \<open>Lemmas: what one request leaves behind\<close>

lemma plot_rank_trend_open_figs:
  "plot_rank_trend ranks s = (img, s') \<Longrightarrow> open_figs s' = open_figs s"
  by (auto simp: plot_rank_trend_def plot_rank_trend_run Let_def)

lemma index_frame:
  "open_figs (pyplot (snd (index req st))) = open_figs (pyplot st) \<and>
   (\<forall>q. q \<noteq> processed_path file_path \<longrightarrow> files (snd (index req st)) q = files st q)"
  unfolding index_def Let_def
  by (auto split: option.splits prod.splits sum.splits
           dest: process_table_frame plot_rank_trend_open_figs)

lemma serve_Cons_snd: "snd (serve (req # reqs) st) = snd (serve reqs (snd (index req st)))"
  by (simp add: case_prod_beta Let_def)

subsection \<open>Properties of the handler\<close>

text \<open>
  C24. A code that is not six characters \<open>str.isdigit\<close> accepts is reported with the
  invalid-code message before any file is read or written: the server state, file system
  and pyplot included, is returned unchanged.
\<close>

theorem index_invalid_code_no_io:
  assumes "req_method req = ''POST''" and "form_get req ''n_days'' = Some nd" and "py_int nd = Some n"
    and "form_get req ''stock_code'' = Some code" and "\<not> (py_isdigit code \<and> length code = 6)"
  shows "index req st = (Inr (IndexPage (Some InvalidCode) None), st)"
  using assms by (simp add: index_def)

theorem index_invalid_code_no_io_witness:
  "index \<lparr>req_method = ''POST'', req_form = [(''stock_code'', ''12a456''), (''n_days'', ''3'')]\<rparr>
     \<lparr>files = Map.empty, pyplot = \<lparr>open_figs = [], saved = []\<rparr>\<rparr> =
     (Inr (IndexPage (Some InvalidCode) None), \<lparr>files = Map.empty, pyplot = \<lparr>open_figs = [], saved = []\<rparr>\<rparr>)"
proof (rule index_invalid_code_no_io)
  show "py_int ''3'' = Some 3" by code_simp
  show "\<not> (py_isdigit ''12a456'' \<and> length ''12a456'' = 6)" by code_simp
qed (simp_all add: form_get_def)

text \<open>
  C25. A day count that \<open>int()\<close> rejects is not reported: \<open>ValueError\<close> escapes the
  handler (Flask answers with status 500), and nothing has been read or written.
\<close>

theorem index_bad_n_days:
  assumes "req_method req = ''POST''" and "form_get req ''n_days'' = Some nd" and "py_int nd = None"
  shows "index req st = (Inl ValueError, st)"
  using assms by (simp add: index_def Let_def)

theorem index_bad_n_days_witness:
  "index \<lparr>req_method = ''POST'', req_form = [(''stock_code'', ''000001''), (''n_days'', ''two'')]\<rparr>
     \<lparr>files = Map.empty, pyplot = \<lparr>open_figs = [], saved = []\<rparr>\<rparr> =
     (Inl ValueError, \<lparr>files = Map.empty, pyplot = \<lparr>open_figs = [], saved = []\<rparr>\<rparr>)"
proof (rule index_bad_n_days)
  show "py_int ''two'' = None" by code_simp
qed (simp_all add: form_get_def)

text \<open>
  C26. A window longer than the loaded table allows is answered on the form page with
  the window error, and the maximum day count the page shows is the one the error
  message reports (the number of columns minus the identifier column); the derived file
  has been written.
\<close>

theorem index_window_error_max_days:
  assumes "req_method req = ''POST''" and "form_get req ''n_days'' = Some nd" and "py_int nd = Some n"
    and "form_get req ''stock_code'' = Some code" and "py_isdigit code" and "length code = 6"
    and "py_int code = Some k" and "process_table (files st) file_path = (Some p, files')"
    and "load_data files' p = Inr df" and "map_of df ''new_predict'' = Some ids"
    and "\<exists>v \<in> set ids. py_eq v (PInt k)" and "int (length df) - 1 < n"
  shows "index req st =
           (Inr (IndexPage (Some (TooManyDays (int (length df) - 1))) (Some (int (length df) - 1))),
            st\<lparr>files := files'\<rparr>)"
proof -
  have "match_rows ids k \<noteq> []" using assms(11) by (simp add: match_rows_Nil)
  then show ?thesis using assms
    by (simp add: index_def query_stock_rank_def get_col_def Let_def)
qed

theorem index_window_error_max_days_witness:
  "index \<lparr>req_method = ''POST'', req_form = [(''stock_code'', ''000001''), (''n_days'', ''5'')]\<rparr>
     \<lparr>files = [file_path \<mapsto> ''d1,d2,new_predict\<newline>10,5,1.SH\<newline>3,9,2.SZ\<newline>''], pyplot = \<lparr>open_figs = [], saved = []\<rparr>\<rparr> =
   (Inr (IndexPage (Some (TooManyDays 2)) (Some 2)),
    \<lparr>files = [file_path \<mapsto> ''d1,d2,new_predict\<newline>10,5,1.SH\<newline>3,9,2.SZ\<newline>'', processed_path file_path \<mapsto> ''d1,d2,new_predict\<newline>000010,000005,000001\<newline>000003,000009,000002\<newline>''],
     pyplot = \<lparr>open_figs = [], saved = []\<rparr>\<rparr>)"
proof -
  have c: "py_int ''5'' = Some 5" "py_isdigit ''000001''" "py_int ''000001'' = Some 1" by code_simp+
  have "index \<lparr>req_method = ''POST'', req_form = [(''stock_code'', ''000001''), (''n_days'', ''5'')]\<rparr>
     \<lparr>files = [file_path \<mapsto> ''d1,d2,new_predict\<newline>10,5,1.SH\<newline>3,9,2.SZ\<newline>''], pyplot = \<lparr>open_figs = [], saved = []\<rparr>\<rparr> =
   (Inr (IndexPage (Some (TooManyDays (int (length
      [(''d1'', [PInt 10, PInt 3]), (''d2'', [PInt 5, PInt 9]), (''new_predict'', [PInt 1, PInt 2])]) - 1)))
      (Some (int (length
      [(''d1'', [PInt 10, PInt 3]), (''d2'', [PInt 5, PInt 9]), (''new_predict'', [PInt 1, PInt 2])]) - 1))),
    \<lparr>files = [file_path \<mapsto> ''d1,d2,new_predict\<newline>10,5,1.SH\<newline>3,9,2.SZ\<newline>''], pyplot = \<lparr>open_figs = [], saved = []\<rparr>\<rparr>
      \<lparr>files := [file_path \<mapsto> ''d1,d2,new_predict\<newline>10,5,1.SH\<newline>3,9,2.SZ\<newline>'', processed_path file_path \<mapsto> ''d1,d2,new_predict\<newline>000010,000005,000001\<newline>000003,000009,000002\<newline>'']\<rparr>)"
    by (rule index_window_error_max_days [where n = 5 and k = 1 and ids = "[PInt 1, PInt 2]"
             and nd = "''5''" and code = "''000001''",
             OF _ _ _ _ _ _ _ _ scenario_load]) (simp_all add: form_get_def c scenario_process_table)
  then show ?thesis by simp
qed

text \<open>
  C28. When the source cannot be read (missing, empty, or ending inside a quoted field),
  a valid request gets the plain failure text and nothing is written: the pipeline
  stops before loading or querying, as the specification's first error kind says.
\<close>

theorem index_source_unreadable:
  assumes "req_method req = ''POST''" and "form_get req ''n_days'' = Some nd" and "py_int nd = Some n"
    and "form_get req ''stock_code'' = Some code" and "py_isdigit code" and "length code = 6"
    and "read_csv_file (files st) file_path = Inl e"
  shows "index req st = (Inr (PlainText msg_process_failed), st)"
  using assms by (simp add: index_def process_table_cases)

theorem index_source_unreadable_witness:
  "index \<lparr>req_method = ''POST'', req_form = [(''stock_code'', ''000001''), (''n_days'', ''2'')]\<rparr>
     \<lparr>files = Map.empty, pyplot = \<lparr>open_figs = [], saved = []\<rparr>\<rparr> =
   (Inr (PlainText msg_process_failed), \<lparr>files = Map.empty, pyplot = \<lparr>open_figs = [], saved = []\<rparr>\<rparr>)"
proof -
  have c: "py_int ''2'' = Some 2" "py_isdigit ''000001''" by code_simp+
  show ?thesis
    by (rule index_source_unreadable [where nd = "''2''" and code = "''000001''" and n = 2])
       (simp_all add: form_get_def c read_csv_file_def)
qed

text \<open>
  C31. The handler implements the rank specification: on a valid request whose source
  table has at least two columns, \<open>index\<close> writes the normalized table, reloads it as the
  frame of normalized cells under the renamed normalized labels, and, when the query's
  preconditions hold on that frame, renders the code with the chart and text of the
  series that maps each window column to \<open>rank_spec\<close> of the stock's row (1 plus the
  number of strictly greater values in the column).
\<close>

theorem index_refines_rank_spec:
  assumes req: "req_method req = ''POST''" "form_get req ''stock_code'' = Some code"
      "form_get req ''n_days'' = Some nd" "py_int nd = Some n" "py_isdigit code" "length code = 6"
    and src: "read_csv_file (files st) file_path = Inr raw" and two: "2 \<le> length raw"
    and df: "df = zip (header_names (process_header (map fst raw)))
                      (map (\<lambda>(_, col). infer_column (map process_cell col)) raw)"
    and k: "py_int code = Some k" and ids: "map_of df ''new_predict'' = Some ids"
    and row: "first_index (\<lambda>v. py_eq v (PInt k)) ids = Some r"
    and n: "0 \<le> n" "n \<le> int (length df) - 1"
    and num: "\<forall>c \<in> set (window df n). rankable (the (map_of df c)) r"
    and series: "series = map (\<lambda>c. (c, rank_spec (the (map_of df c)) r)) (window df n)"
  shows "fst (index req st) =
           Inr (ResultPage code (fst (plot_rank_trend series (pyplot st))) (generate_rank_text series)) \<and>
         files (snd (index req st)) = (files st)(processed_path file_path \<mapsto> to_csv (normalize_frame raw))"
proof -
  have rect: "\<forall>c \<in> set raw. length (snd c) = nrows raw"
    using src read_csv_shape by (auto simp: read_csv_file_def wf_frame_def split: option.splits)
  have rd: "read_csv (to_csv (normalize_frame raw)) = Inr df"
    unfolding df by (rule load_processed_frame [OF rect two])
  have wf: "wf_frame df" using read_csv_shape [OF rd] by simp
  have q: "query_stock_rank df code n = Inr (Inr series)"
    unfolding series by (rule query_ok [OF wf k ids row n num])
  have pt: "process_table (files st) file_path =
      (Some (processed_path file_path), (files st)(processed_path file_path \<mapsto> to_csv (normalize_frame raw)))"
    by (simp add: process_table_cases src)
  show ?thesis
    by (simp add: index_def req pt q rd load_data_def read_csv_file_def case_prod_beta)
qed

theorem index_refines_rank_spec_witness:
  "fst (index \<lparr>req_method = ''POST'', req_form = [(''stock_code'', ''000001''), (''n_days'', ''2'')]\<rparr>
         \<lparr>files = [file_path \<mapsto> ''d1,d2,new_predict\<newline>10,5,1.SH\<newline>3,9,2.SZ\<newline>''],
          pyplot = \<lparr>open_figs = [], saved = []\<rparr>\<rparr>) =
     Inr (ResultPage ''000001''
            (fst (plot_rank_trend [(''d1'', 1), (''d2'', 2)] \<lparr>open_figs = [], saved = []\<rparr>))
            (generate_rank_text [(''d1'', 1), (''d2'', 2)]))"
proof -
  let ?raw = "[(''d1'', [PInt 10, PInt 3]), (''d2'', [PInt 5, PInt 9]), (''new_predict'', [PStr ''1.SH'', PStr ''2.SZ''])]"
  let ?df = "[(''d1'', [PInt 10, PInt 3]), (''d2'', [PInt 5, PInt 9]), (''new_predict'', [PInt 1, PInt 2])]"
  have src: "read_csv_file [file_path \<mapsto> ''d1,d2,new_predict\<newline>10,5,1.SH\<newline>3,9,2.SZ\<newline>''] file_path = Inr ?raw"
    unfolding read_csv_file_def by simp code_simp
  have pt: "process_table [file_path \<mapsto> ''d1,d2,new_predict\<newline>10,5,1.SH\<newline>3,9,2.SZ\<newline>''] file_path =
      (Some (processed_path file_path), [file_path \<mapsto> ''d1,d2,new_predict\<newline>10,5,1.SH\<newline>3,9,2.SZ\<newline>'',
        processed_path file_path \<mapsto> to_csv (normalize_frame ?raw)])"
    by (simp add: process_table_cases src)
  have "load_data (snd (process_table [file_path \<mapsto> ''d1,d2,new_predict\<newline>10,5,1.SH\<newline>3,9,2.SZ\<newline>''] file_path))
          (processed_path file_path) = Inr ?df"
    using scenario_load by (simp add: scenario_process_table)
  then have "read_csv (to_csv (normalize_frame ?raw)) = Inr ?df"
    by (simp add: pt load_data_def read_csv_file_def)
  moreover have "\<forall>c \<in> set ?raw. length (snd c) = nrows ?raw" "2 \<le> length ?raw" by (simp_all add: nrows_def)
  ultimately have df: "?df = zip (header_names (process_header (map fst ?raw)))
                      (map (\<lambda>(_, col). infer_column (map process_cell col)) ?raw)"
    using load_processed_frame by simp
  have c: "py_int ''2'' = Some 2" "py_isdigit ''000001''" "py_int ''000001'' = Some 1" by code_simp+
  have s: "[(''d1'', 1), (''d2'', 2)] = map (\<lambda>c. (c, rank_spec (the (map_of ?df c)) 0)) (window ?df 2)"
    by code_simp
  have r: "\<forall>c \<in> set (window ?df 2). rankable (the (map_of ?df c)) 0" by code_simp
  have ids: "map_of ?df ''new_predict'' = Some [PInt 1, PInt 2]" by simp
  have w: "window ?df 2 = [''d1'', ''d2'']" by code_simp
  have rk: "rankable [PInt 10, PInt 3] 0" "rankable [PInt 5, PInt 9] 0" by code_simp+
  have row: "first_index (\<lambda>v. py_eq v (PInt 1)) [PInt 1, PInt 2] = Some 0" by code_simp
  let ?req = "\<lparr>req_method = ''POST'', req_form = [(''stock_code'', ''000001''), (''n_days'', ''2'')]\<rparr>"
  let ?st = "\<lparr>files = [file_path \<mapsto> ''d1,d2,new_predict\<newline>10,5,1.SH\<newline>3,9,2.SZ\<newline>''],
              pyplot = \<lparr>open_figs = [], saved = []\<rparr>\<rparr>"
  have "fst (index ?req ?st) =
     Inr (ResultPage ''000001'' (fst (plot_rank_trend [(''d1'', 1), (''d2'', 2)] (pyplot ?st)))
            (generate_rank_text [(''d1'', 1), (''d2'', 2)]))"
    by (rule conjunct1 [OF index_refines_rank_spec [where raw = ?raw and df = ?df and k = 1 and r = 0
          and ids = "[PInt 1, PInt 2]" and n = 2 and nd = "''2''" and series = "[(''d1'', 1), (''d2'', 2)]"]])
       (simp_all only: src df [symmetric] c r s ids row server.select_convs, simp_all add: form_get_def w rk)
  then show ?thesis by simp
qed

text \<open>
  C32. Serving any sequence of requests one after another leaves pyplot with the figures
  it had open (every request that draws a chart closes it) and changes no file but the
  derived \<open>_processed\<close> file of the configured source.
\<close>

theorem serve_invariant:
  "open_figs (pyplot (snd (serve reqs st))) = open_figs (pyplot st) \<and>
   (\<forall>q. q \<noteq> processed_path file_path \<longrightarrow> files (snd (serve reqs st)) q = files st q)"
proof (induction reqs arbitrary: st)
  case (Cons req reqs)
  show ?case using Cons.IH [of "snd (index req st)"] index_frame [of req st]
    by (simp only: serve_Cons_snd) metis
qed simp

theorem serve_invariant_witness:
  "file_path \<noteq> processed_path file_path \<and>
   files (snd (serve [\<lparr>req_method = ''POST'', req_form = [(''stock_code'', ''000001''), (''n_days'', ''2'')]\<rparr>,
                      \<lparr>req_method = ''GET'', req_form = []\<rparr>]
                \<lparr>files = [file_path \<mapsto> ''d1,d2,new_predict\<newline>10,5,1.SH\<newline>3,9,2.SZ\<newline>''],
                 pyplot = \<lparr>open_figs = [], saved = []\<rparr>\<rparr>)) file_path =
     Some ''d1,d2,new_predict\<newline>10,5,1.SH\<newline>3,9,2.SZ\<newline>'' \<and>
   open_figs (pyplot (snd (serve [\<lparr>req_method = ''POST'', req_form = [(''stock_code'', ''000001''), (''n_days'', ''2'')]\<rparr>,
                      \<lparr>req_method = ''GET'', req_form = []\<rparr>]
                \<lparr>files = [file_path \<mapsto> ''d1,d2,new_predict\<newline>10,5,1.SH\<newline>3,9,2.SZ\<newline>''],
                 pyplot = \<lparr>open_figs = [], saved = []\<rparr>\<rparr>))) = []"
proof -
  have p: "file_path \<noteq> processed_path file_path" by code_simp
  show ?thesis
    using serve_invariant [of "[\<lparr>req_method = ''POST'', req_form = [(''stock_code'', ''000001''), (''n_days'', ''2'')]\<rparr>,
                      \<lparr>req_method = ''GET'', req_form = []\<rparr>]"
                "\<lparr>files = [file_path \<mapsto> ''d1,d2,new_predict\<newline>10,5,1.SH\<newline>3,9,2.SZ\<newline>''],
                 pyplot = \<lparr>open_figs = [], saved = []\<rparr>\<rparr>"] p
    by (simp del: serve.simps)
qed

end
