(* ===== verification/Spec2Isabelle.thy ===== *)
theory Spec2Isabelle
  imports Handler
begin

text \<open>
  \<^bold>\<open>A verification development of \<open>src/app.py\<close>\<close> (a Flask form that reports how a
  stock's predicted rank evolved over the last days of a CSV table).

  \<^bold>\<open>The program.\<close> One module with straight-line functions, composed by the request
  handler \<open>index\<close>: \<open>process_table\<close> reads the CSV at a fixed path, normalizes its column
  labels with \<open>process_header\<close> and every cell with \<open>process_cell\<close>, and writes the result
  beside it; \<open>load_data\<close> reads that file back; \<open>query_stock_rank\<close> parses the user's
  code, finds its row in the column \<open>new_predict\<close> and computes, for each of the last
  \<open>n_days\<close> date columns, the 1-based position of the row's value in the column sorted in
  descending order; \<open>plot_rank_trend\<close> and \<open>generate_rank_text\<close> render the ranks.

  \<^bold>\<open>Theories\<close> (each imports the ones before it that it uses).
  \<^item> \<open>Prelude\<close>: the exception type \<open>py_exc\<close> (an uncaught Python exception is a left
    value of \<open>py_exc + 'a\<close>), \<open>first_index\<close> with the sorted-list lemma behind every
    rank, the executable substring test \<open>has_sub\<close>, shared list lemmas.
  \<^item> \<open>PyStr\<close>: the Python string built-ins the code calls, on strings of Latin-1 code
    points: \<open>str.replace\<close>, \<open>str.strip\<close>, \<open>str.isdigit\<close>, \<open>str.zfill\<close>, the regular
    expression \<open>^\d{1,6}$\<close>, \<open>int()\<close> and \<open>str()\<close> of an integer, with their lemmas
    (among them the round trip \<open>int(str(i)) == i\<close>).
  \<^item> \<open>PyValue\<close>: pandas cell values (\<open>PInt\<close>, \<open>PFloat\<close> as a decimal, \<open>PNaN\<close>,
    \<open>PStr\<close>), Python's \<open>str()\<close> of them (CPython's float \<open>repr\<close>) and \<open>==\<close>.
  \<^item> \<open>Normalizer\<close>: \<open>process_header\<close> and \<open>process_cell\<close> (lines 20--31), C1--C4.
  \<^item> \<open>Frame\<close>: the pandas table as an ordered list of labelled columns (\<open>frame\<close>,
    well formed when labels are distinct and columns of equal length), \<open>df[label]\<close>
    (\<open>get_col\<close>, \<open>KeyError\<close>), Python slicing with negative bounds (\<open>py_slice\<close>) and
    \<open>sort_values(ascending=False)\<close> (\<open>sort_values_desc\<close>).
  \<^item> \<open>RankQuery\<close>: \<open>query_stock_rank\<close> (lines 55--78). Returned errors are values of
    \<open>query_err\<close>; the loop over the window is \<open>rank_loop\<close>, inserting as a Python dict does
    (\<open>dict_set\<close>); one iteration is \<open>column_rank\<close>, which refines the abstract
    \<open>rank_spec\<close> (one plus the number of strictly greater values). C5--C13.
  \<^item> \<open>Presenter\<close>: \<open>generate_rank_text\<close> (lines 118--123) as the UTF-8 bytes Flask
    sends, and \<open>plot_rank_trend\<close> (lines 81--115) as its list of pyplot calls
    (\<open>plot_calls\<close>) run by the step function \<open>plt_step\<close> on pyplot's open and saved
    figures. C14--C16.
  \<^item> \<open>Csv\<close>: the \<open>csv\<close> writer \<open>to_csv\<close> uses (\<open>csv_field\<close>, \<open>csv_row\<close>, \<open>csv_text\<close>) and
    pandas' C tokenizer as a state machine (\<open>tok_state\<close>, one character per \<open>tok_step\<close>,
    \<open>tok_finish\<close> at the end of the data, \<open>csv_records\<close> the fold). C17, C18.
  \<^item> \<open>Loader\<close>: \<open>pd.read_csv\<close> (\<open>read_csv\<close>: the C engine's header naming
    \<open>header_names\<close>, with its renaming \<open>while\<close> loop as \<open>while_option\<close> in \<open>rename_loop\<close>
    inside the loop over the columns \<open>name_columns\<close>; column type inference
    \<open>infer_column\<close> with the C parsers \<open>parse_c_int\<close> and \<open>parse_c_float\<close>),
    \<open>DataFrame.to_csv\<close> (\<open>to_csv\<close>), \<open>os.path.splitext\<close>, and \<open>process_table\<close> (lines
    34--46) and \<open>load_data\<close> (lines 49--52) on a file system \<open>fs\<close>, a map from paths to
    contents. C19--C23, C27, C30, C33.
  \<^item> \<open>Handler\<close>: \<open>index\<close> (lines 126--158) on a \<open>request\<close> (method, form fields) and a
    \<open>server\<close> state (file system and pyplot state), returning the rendered \<open>response\<close>
    (template and its arguments) or the exception that escapes, with the new state;
    \<open>serve\<close> runs a sequence of requests through \<open>index\<close> as \<open>app.run\<close> (line 162) serves
    them, one after another on the state the previous one left. C24--C26, C28, C31, C32.
  \<^item> This theory: properties that span components (C29).

  \<^bold>\<open>Properties.\<close> C1: a 1--6 digit code with an exchange suffix becomes the
  six-digit code. C2: an integer code below 10^6 becomes six characters that \<open>int()\<close>
  reads back as the same integer. C3: a midnight date label loses its time. C4: one to six
  digits followed by a newline pass the digit pattern and are padded with the newline
  kept (a finding). C5: on a well-formed table, with the code found and a window
  \<open>0 \<le> n \<le> columns - 1\<close> whose target cells are numbers, the query returns the \<open>n\<close>
  columns before the last, in order, each with its \<open>rank_spec\<close>. C6: a target holding every
  column's maximum has rank 1 everywhere. C7: every rank lies between 1 and the number of
  rows. C8--C10: the three returned errors. C11: a \<open>NaN\<close> target cell raises an uncaught
  \<open>IndexError\<close> (a finding). C12: a negative window is not rejected (a finding). C13: a
  table without \<open>new_predict\<close> raises \<open>KeyError\<close>. C14: the text reads back as the rank
  series. C15: the figure \<open>plot_rank_trend\<close> saves, from any pyplot state. C16:
  \<open>plot_rank_trend\<close> closes the figure it opens and saves exactly one. C17: the tokenizer
  reads back what the writer wrote. C18: a record of one blank field is lost wherever it
  stands (a finding). C19: \<open>process_table\<close> writes only the derived file and never the
  source. C20: every table \<open>read_csv\<close> returns is well formed, the query's precondition.
  C21: the reload renames a second label that normalizes to the same date \<open>d.1\<close> and a
  label that was only the time \<open>Unnamed: i\<close> (a finding). C22: loading the derived file
  gives the normalized table with its types inferred again. C23: codes normalized to six
  digits load as the integers the query compares with the user's code. C24: an invalid
  code is answered before any file is touched. C25: a non-integer day count escapes as
  \<open>ValueError\<close> (a finding). C26: a window too long for the loaded table is answered with
  the error and the maximum day count it reports. C27: the header naming of \<open>read_csv\<close>,
  and every run of its renaming loop, stops on every header. C28: an unreadable source
  gets the failure text with nothing written. C29: on text without quotes, carriage
  returns and blank lines, the tokenizer equals the naive reader that splits lines at
  newlines and commas. C30: whenever \<open>process_table\<close> succeeds, loading the file it wrote
  does not raise. C31: the whole handler refines the rank specification: on a valid
  request over a source of at least two columns it writes the normalized table and
  renders the chart and text of \<open>rank_spec\<close> over the window of the reloaded frame. C32:
  any sequence of served requests leaves pyplot's open figures as they were and changes no
  file but the derived one. C33: distinct non-empty normalized labels survive the reload.

  \<^bold>\<open>Bounds and termination.\<close> No fuel is used: every loop of the code runs over a
  finite list and is a structural recursion or a fold, except the renaming \<open>while\<close> loop of
  the header naming, kept as \<open>while_option\<close>: while it runs, the candidate names
  \<open>old.k\<close>, \<open>k \<ge> cur_count\<close>, that are labels get fewer, and a candidate that is no
  label has count 0, since every counted name is a label; so it returns \<open>Some\<close> on every
  header (C27) and \<open>header_names\<close> takes that result. \<open>str.replace\<close> terminates by the
  length of the remaining string. Integer columns are read within the 64-bit range of
  pandas; codes are bounded by \<open>10^6\<close> where the six-character padding matters (C2, C23).

  \<^bold>\<open>Not modelled.\<close> Flask routing, the request object beyond its form and method,
  and template rendering (the response is the template with its arguments); matplotlib's
  rasterization and the base64 encoding of the image (the image is the saved figure); the
  font settings (rendering only); the host and port of \<open>app.run\<close> and its threads
  (Flask's development server may run requests concurrently; \<open>serve\<close> runs them one after
  another, so interleavings on pyplot's global figure state are not covered); \<open>print\<close>;
  file-system errors other than a missing file (writes always succeed). Strings are
  Latin-1 code points, and text outside Latin-1 is held as its UTF-8 bytes, so
  \<open>str.isdigit\<close>, \<open>int()\<close> and \<open>str.strip\<close> do not see the digits and spaces beyond
  Latin-1 (full-width digits, U+3000) and see the bytes 0x85 and 0xA0 of a multi-byte
  character as spaces; \<open>int()\<close>'s limit of 4300 digits (CPython 3.11 and later raise
  \<open>ValueError\<close> beyond it) is not modelled, so day counts and codes are read whatever their
  length; the sign of a floating zero is dropped (\<open>-0.0\<close> reads and prints as \<open>0.0\<close>). In
  \<open>read_csv\<close>: boolean and \<open>uint64\<close> columns, infinities, the implicit index of a first data
  row longer than the header, the binary rounding of decimals with more than 15
  significant digits (floats are exact decimals here), the UTF-8 byte order mark that the
  tokenizer skips at the start of a file, and decoding errors on bytes that are not UTF-8.
\<close>

section \<open>Properties spanning components\<close>

text \<open>
  A line that needs none of the CSV quoting rules: not empty, not blanks only, and free of
  quotes and line breaks.
\<close>

definition simple_csv_line :: "string \<Rightarrow> bool" where
  "simple_csv_line l \<longleftrightarrow>
     l \<noteq> [] \<and> \<not> list_all is_ws l \<and> \<not> list_ex (\<lambda>x. x = CHR 0x22 \<or> x = CHR 0x0A \<or> x = CHR 0x0D) l"

subsection \<open>Lemmas: splitting at commas\<close>

lemma split_char_ne: "split_char c s \<noteq> []"
  by (cases s) (simp_all split: list.split)

lemma split_char_Nil_iff: "split_char c s = [[]] \<longleftrightarrow> s = []"
  by (cases s) (auto simp: split_char_ne split: list.splits)

lemma split_char_fields: "f \<in> set (split_char c s) \<Longrightarrow> set f \<subseteq> set s \<and> c \<notin> set f"
proof (induction s arbitrary: f)
  case (Cons x xs)
  show ?case
  proof (cases "x = c")
    case False
    obtain l ls where sp: "split_char c xs = l # ls" using split_char_ne [of c xs] by (cases "split_char c xs") auto
    then have "f = x # l \<or> f \<in> set ls" using Cons.prems False by auto
    moreover have "set l \<subseteq> set xs \<and> c \<notin> set l" using Cons.IH [of l] sp by simp
    moreover have "set g \<subseteq> set xs \<and> c \<notin> set g" if "g \<in> set ls" for g
      using Cons.IH [of g] sp that by simp
    ultimately show ?thesis using False by auto
  qed (use Cons in auto)
qed simp

lemma csv_field_plain: "\<not> list_ex csv_special f \<Longrightarrow> csv_field f = f"
  by (simp add: csv_field_def)

lemma join_split_char:
  "\<not> list_ex (\<lambda>x. x = CHR 0x22 \<or> x = CHR 0x0A \<or> x = CHR 0x0D) l \<Longrightarrow>
   join_fields (split_char (CHR '','') l) = l"
proof (induction l)
  case Nil
  then show ?case by (simp add: csv_field_def)
next
  case (Cons x xs)
  have plain: "\<not> list_ex csv_special f" if "f \<in> set (split_char (CHR '','') xs)" for f
    using split_char_fields [OF that] Cons.prems by (auto simp: csv_special_def list_ex_iff)
  obtain l ls where sp: "split_char (CHR '','') xs = l # ls"
    using split_char_ne [of "CHR '',''" xs] by (cases "split_char (CHR '','') xs") auto
  have ih: "join_fields (l # ls) = xs" using Cons by (simp add: sp)
  show ?case
  proof (cases "x = CHR '',''")
    case True
    then show ?thesis using ih by (simp add: sp csv_field_def)
  next
    case False
    have x: "\<not> csv_special x" using False Cons.prems by (simp add: csv_special_def)
    have l: "csv_field l = l" using plain [of l] sp by (simp add: csv_field_plain)
    have xl: "csv_field (x # l) = x # l" using plain [of l] sp x by (simp add: csv_field_plain)
    show ?thesis using ih False l xl sp by (cases ls) simp_all
  qed
qed

lemma split_plain_fields:
  "\<not> list_ex (\<lambda>x. x = CHR 0x22 \<or> x = CHR 0x0A \<or> x = CHR 0x0D) l \<Longrightarrow>
   f \<in> set (split_char (CHR '','') l) \<Longrightarrow> \<not> list_ex csv_special f"
  using split_char_fields [of f "CHR '',''" l] by (auto simp: csv_special_def list_ex_iff)

lemma simple_line_row:
  assumes "simple_csv_line l"
  shows "csv_row (split_char (CHR '','') l) = l @ [CHR 0x0A] \<and> csv_row_ok (split_char (CHR '','') l)"
proof -
  have ne: "l \<noteq> []" and ws: "\<not> list_all is_ws l"
    and q: "\<not> list_ex (\<lambda>x. x = CHR 0x22 \<or> x = CHR 0x0A \<or> x = CHR 0x0D) l"
    using assms by (simp_all add: simple_csv_line_def)
  have join: "join_fields (split_char (CHR '','') l) = l" by (rule join_split_char [OF q])
  have row: "csv_row (split_char (CHR '','') l) = l @ [CHR 0x0A]"
    using ne join by (simp add: csv_row_def split_char_Nil_iff)
  have single: "f = l" if sp: "split_char (CHR '','') l = [f]" for f
  proof -
    have "csv_field f = f" using split_plain_fields [OF q, of f] sp by (simp add: csv_field_plain)
    then show ?thesis using join sp by simp
  qed
  have "csv_row_ok (split_char (CHR '','') l)"
    using split_char_ne [of "CHR '',''" l] ws single
    by (auto simp: csv_row_ok_def split: list.split)
  with row show ?thesis by simp
qed

subsection \<open>Properties\<close>

text \<open>
  C29. On text without quotes, carriage returns and blank lines, pandas' tokenizer, a
  state machine with eight states, reads exactly the records of the naive reader that
  splits the text at line breaks and each line at commas.
\<close>

theorem csv_records_naive:
  assumes "list_all simple_csv_line ls"
  shows "csv_records (concat (map (\<lambda>l. l @ [CHR 0x0A]) ls)) = Some (map (split_char (CHR '','')) ls)"
proof -
  have rows: "map csv_row (map (split_char (CHR '','')) ls) = map (\<lambda>l. l @ [CHR 0x0A]) ls"
    using assms simple_line_row by (auto simp: list_all_iff)
  have ok: "\<forall>r \<in> set (map (split_char (CHR '','')) ls). csv_row_ok r"
    using assms simple_line_row by (auto simp: list_all_iff)
  have "csv_text (map (split_char (CHR '','')) ls) = concat (map (\<lambda>l. l @ [CHR 0x0A]) ls)"
    unfolding csv_text_def rows ..
  then show ?thesis
    using text_run [OF ok, of "[]"] by (simp add: csv_records_def tok_init_def tok_finish_def)
qed

theorem csv_records_naive_witness:
  "csv_records ''code,d1\<newline> 7,x y\<newline>'' = Some [[''code'', ''d1''], ['' 7'', ''x y'']]"
proof -
  have h: "list_all simple_csv_line [''code,d1'', '' 7,x y'']"
    by (simp add: simple_csv_line_def is_ws_def)
  have "csv_records (concat (map (\<lambda>l. l @ [CHR 0x0A]) [''code,d1'', '' 7,x y''])) =
          Some (map (split_char (CHR '','')) [''code,d1'', '' 7,x y''])"
    by (rule csv_records_naive [OF h])
  then show ?thesis by simp
qed

end
